(* ===== verification/Prelude.thy ===== *)
theory Prelude
  imports Complex_Main "HOL-Library.Multiset"
begin

text \<open>
  What every component shares: the collections of rewrite rules the proofs draw on, the
  JavaScript operators on values that may be \<open>undefined\<close> (\<open>??\<close>, \<open>||\<close> on strings), and
  generic facts about lists that the libraries of the panel rely on (first occurrences,
  filters, adjacent pairs).
\<close>

named_theorems js_num  \<comment> \<open>evaluation of number operations\<close>
named_theorems js_str  \<comment> \<open>evaluation of string operations\<close>
named_theorems js_seq  \<comment> \<open>arrays, maps and sets\<close>

text \<open>\<open>a ?? b\<close>: the right operand is used only when the left one is null or undefined.\<close>

definition coalesce :: "'a option \<Rightarrow> 'a \<Rightarrow> 'a" where
  "coalesce a b = (case a of None \<Rightarrow> b | Some x \<Rightarrow> x)"

lemma coalesce_simps [simp]: "coalesce None b = b" "coalesce (Some x) b = x"
  by (simp_all add: coalesce_def)

text \<open>\<open>a || b\<close> on strings: the right operand is used when the left one is empty.\<close>

definition str_or :: "string \<Rightarrow> string \<Rightarrow> string" where
  "str_or a b = (if a = [] then b else a)"

lemma str_or_simps [simp]: "str_or [] b = b" "str_or (c # cs) b = c # cs"
  by (simp_all add: str_or_def)

text \<open>Truthiness of a string that may be missing.\<close>

definition truthy_str :: "string option \<Rightarrow> bool" where
  "truthy_str s = (case s of None \<Rightarrow> False | Some x \<Rightarrow> x \<noteq> [])"

lemma truthy_str_simps [simp]:
  "truthy_str None = False" "truthy_str (Some x) = (x \<noteq> [])"
  by (simp_all add: truthy_str_def)

subsection \<open>First occurrences\<close>

text \<open>The elements of a list in the order of their first occurrence, as a JavaScript Set
  built by inserting them one after the other enumerates them.\<close>

fun firsts_from :: "'a list \<Rightarrow> 'a list \<Rightarrow> 'a list" where
  "firsts_from seen [] = []"
| "firsts_from seen (x # xs) =
     (if x \<in> set seen then firsts_from seen xs else x # firsts_from (x # seen) xs)"

definition firsts :: "'a list \<Rightarrow> 'a list" where
  "firsts xs = firsts_from [] xs"

lemma set_firsts_from: "set (firsts_from seen xs) = set xs - set seen"
  by (induction seen xs rule: firsts_from.induct) auto

lemma distinct_firsts_from: "distinct (firsts_from seen xs)"
  by (induction seen xs rule: firsts_from.induct) (auto simp: set_firsts_from)

lemma set_firsts [simp, js_seq]: "set (firsts xs) = set xs"
  by (simp add: firsts_def set_firsts_from)

lemma distinct_firsts [simp, js_seq]: "distinct (firsts xs)"
  by (simp add: firsts_def distinct_firsts_from)

lemma firsts_from_distinct:
  "distinct xs \<Longrightarrow> set xs \<inter> set seen = {} \<Longrightarrow> firsts_from seen xs = xs"
  by (induction seen xs rule: firsts_from.induct) auto

lemma firsts_id: "distinct xs \<Longrightarrow> firsts xs = xs"
  by (simp add: firsts_def firsts_from_distinct)

lemma firsts_from_cong: "set s = set s' \<Longrightarrow> firsts_from s xs = firsts_from s' xs"
proof (induction s xs arbitrary: s' rule: firsts_from.induct)
  case (1 seen)
  then show ?case by simp
next
  case (2 seen x xs)
  then show ?case by (metis firsts_from.simps(2) list.simps(15))
qed

lemma firsts_from_append:
  "firsts_from seen (xs @ ys) = firsts_from seen xs @ firsts_from (rev xs @ seen) ys"
proof (induction seen xs rule: firsts_from.induct)
  case (1 seen)
  then show ?case by simp
next
  case (2 seen x xs)
  show ?case
  proof (cases "x \<in> set seen")
    case True
    then have "firsts_from (rev (x # xs) @ seen) ys = firsts_from (rev xs @ seen) ys"
      by (intro firsts_from_cong) auto
    with True 2 show ?thesis by simp
  next
    case False
    with 2 show ?thesis by simp
  qed
qed

subsection \<open>Lists\<close>

lemma filter_partition_mset:
  "mset (filter P xs) + mset (filter (\<lambda>x. \<not> P x) xs) = mset xs"
  by (induction xs) auto

lemma length_filter_partition:
  "length (filter P xs) + length (filter (\<lambda>x. \<not> P x) xs) = length xs"
  by (induction xs) auto

lemma find_Some_in: "List.find P xs = Some x \<Longrightarrow> x \<in> set xs \<and> P x"
  by (induction xs) (auto split: if_splits)

lemma find_None_iff_filter: "List.find P xs = None \<longleftrightarrow> filter P xs = []"
  by (induction xs) auto

lemma sum_length_filter_eq:
  assumes "distinct ks"
  shows "(\<Sum>k\<leftarrow>ks. length (filter (\<lambda>x. f x = k) xs)) = length (filter (\<lambda>x. f x \<in> set ks) xs)"
  using assms
proof (induction ks)
  case Nil
  then show ?case by simp
next
  case (Cons k ks)
  have "length (filter (\<lambda>x. f x = k \<or> f x \<in> set ks) xs)
      = length (filter (\<lambda>x. f x = k) xs) + length (filter (\<lambda>x. f x \<in> set ks) xs)"
    using Cons.prems by (induction xs) auto
  with Cons show ?case by simp
qed

end
