(* ===== verification/Js_Number.thy ===== *)
theory Js_Number
  imports Prelude "HOL-Library.Log_Nat"
begin

text \<open>
  JavaScript numbers: IEEE 754 binary64 with rounding to nearest, ties to even. A finite
  number is carried as the rational it denotes, so the operations are computed exactly and
  then rounded by \<open>rnd\<close>; overflow gives an infinity and the undefined cases give
  \<open>NaN\<close>. The two zeros are identified: no code modelled here tells them apart except
  through a division by zero, where the positive zero is the one the code can produce.
  The lemmas state what the proofs about the panel need of rounding: it is monotone, it is
  the identity on representable numbers (all integers up to \<open>2^53\<close> among them), and its
  results are representable.
\<close>

datatype jsnum = NaN | PInf | NInf | Fin rat

subsection \<open>Rounding\<close>

definition flog2 :: "rat \<Rightarrow> int" where
  "flog2 x = (let (p, q) = quotient_of x; d = bitlen p - bitlen q
              in if 2 powi d \<le> x then d else d - 1)"

definition rne :: "rat \<Rightarrow> int" where
  "rne y = (let f = \<lfloor>y\<rfloor>; r = y - of_int f
            in if r < 1/2 \<or> (r = 1/2 \<and> even f) then f else f + 1)"

definition rexp :: "rat \<Rightarrow> int" where
  "rexp x = max (flog2 \<bar>x\<bar> - 52) (-1074)"

definition rnd :: "rat \<Rightarrow> rat" where
  "rnd x = (if x = 0 then 0 else of_int (rne (x / 2 powi rexp x)) * 2 powi rexp x)"

definition to_num :: "rat \<Rightarrow> jsnum" where
  "to_num x = (let r = rnd x in
     if r \<ge> 2 ^ 1024 then PInf else if r \<le> - (2 ^ 1024) then NInf else Fin r)"

text \<open>The rationals that are binary64 values, the exponent range left open at the top.\<close>

definition rep :: "rat \<Rightarrow> bool" where
  "rep x \<longleftrightarrow> (\<exists>m e. x = of_int m * 2 powi e \<and> \<bar>m\<bar> \<le> 2 ^ 53 \<and> -1074 \<le> e)"

lemma flog2_bounds:
  assumes "0 < x"
  shows "2 powi flog2 x \<le> x" and "x < 2 powi (flog2 x + 1)"
proof -
  obtain p q where pq: "quotient_of x = (p, q)" by (cases "quotient_of x")
  have q: "0 < q" using quotient_of_denom_pos [OF pq] .
  have x: "x = of_int p / of_int q" using quotient_of_div [OF pq] .
  have p: "0 < p" using assms q x by (simp add: zero_less_divide_iff)
  define bp where "bp = bitlen p"
  define bq where "bq = bitlen q"
  have bpos: "1 \<le> bp" "1 \<le> bq"
    using p q bitlen_eq_zero_iff [of p] bitlen_eq_zero_iff [of q] bitlen_nonneg [of p] bitlen_nonneg [of q]
    unfolding bp_def bq_def by linarith+
  have P: "(2::rat) powi (bp - 1) \<le> of_int p" "of_int p < (2::rat) powi bp"
  proof -
    have "2 ^ nat (bp - 1) \<le> p" "p < 2 ^ nat bp" using bitlen_bounds [OF p] unfolding bp_def by auto
    then have "(2::rat) ^ nat (bp - 1) \<le> of_int p" "of_int p < (2::rat) ^ nat bp"
      by (metis of_int_le_iff of_int_numeral of_int_power, metis of_int_less_iff of_int_numeral of_int_power)
    then show "(2::rat) powi (bp - 1) \<le> of_int p" "of_int p < (2::rat) powi bp"
      using bpos by (simp_all add: power_int_def)
  qed
  have Q: "(2::rat) powi (bq - 1) \<le> of_int q" "of_int q < (2::rat) powi bq"
  proof -
    have "2 ^ nat (bq - 1) \<le> q" "q < 2 ^ nat bq" using bitlen_bounds [OF q] unfolding bq_def by auto
    then have "(2::rat) ^ nat (bq - 1) \<le> of_int q" "of_int q < (2::rat) ^ nat bq"
      by (metis of_int_le_iff of_int_numeral of_int_power, metis of_int_less_iff of_int_numeral of_int_power)
    then show "(2::rat) powi (bq - 1) \<le> of_int q" "of_int q < (2::rat) powi bq"
      using bpos by (simp_all add: power_int_def)
  qed
  have qpos: "(0::rat) < of_int q" using q by simp
  have up: "x < 2 powi (bp - bq + 1)"
  proof -
    have "x \<le> of_int p / 2 powi (bq - 1)"
      using Q(1) p qpos unfolding x by (intro divide_left_mono) auto
    also have "\<dots> < 2 powi bp / 2 powi (bq - 1)"
      using P(2) by (simp add: divide_strict_right_mono)
    also have "\<dots> = 2 powi (bp - bq + 1)"
      by (simp add: power_int_diff [symmetric] algebra_simps)
    finally show ?thesis .
  qed
  have lo: "2 powi (bp - bq - 1) \<le> x"
  proof -
    have "(2::rat) powi (bp - bq - 1) = 2 powi (bp - 1) / 2 powi bq"
      by (simp add: power_int_diff [symmetric] algebra_simps)
    also have "\<dots> \<le> of_int p / 2 powi bq"
      using P(1) by (simp add: divide_right_mono)
    also have "\<dots> \<le> of_int p / of_int q"
      using Q(2) p qpos by (intro divide_left_mono) auto
    finally show ?thesis by (simp add: x)
  qed
  have f: "flog2 x = (if 2 powi (bp - bq) \<le> x then bp - bq else bp - bq - 1)"
    by (simp add: flog2_def pq bp_def bq_def Let_def)
  show "2 powi flog2 x \<le> x" using lo by (simp add: f)
  show "x < 2 powi (flog2 x + 1)" using up by (simp add: f)
qed

lemma powi_less_iff [simp]: "(2::rat) powi a < 2 powi b \<longleftrightarrow> a < b"
  using power_int_strict_increasing [of a b "2::rat"] power_int_strict_increasing [of b a "2::rat"]
  by (cases a b rule: linorder_cases) auto

lemma powi_le_iff [simp]: "(2::rat) powi a \<le> 2 powi b \<longleftrightarrow> a \<le> b"
  by (simp flip: not_less)

lemma flog2_mono:
  assumes "0 < x" "x \<le> y"
  shows "flog2 x \<le> flog2 y"
proof -
  have "(2::rat) powi flog2 x < 2 powi (flog2 y + 1)"
    using flog2_bounds [of x] flog2_bounds [of y] assms by linarith
  then show ?thesis by simp
qed

lemma rne_of_int [simp]: "rne (of_int n) = n"
  by (simp add: rne_def)

lemma rne_cases: "rne y = \<lfloor>y\<rfloor> \<or> (rne y = \<lfloor>y\<rfloor> + 1 \<and> y \<ge> of_int \<lfloor>y\<rfloor> + 1/2)"
  by (auto simp: rne_def Let_def)

lemma rne_mono:
  assumes "x \<le> y"
  shows "rne x \<le> rne y"
proof (cases "\<lfloor>x\<rfloor> = \<lfloor>y\<rfloor>")
  case True
  with assms show ?thesis by (auto simp: rne_def Let_def)
next
  case False
  then have "\<lfloor>x\<rfloor> + 1 \<le> \<lfloor>y\<rfloor>" using floor_mono [OF assms] by simp
  with rne_cases [of x] rne_cases [of y] show ?thesis by linarith
qed

lemma rne_minus: "rne (- y) = - rne y"
proof (cases "y = of_int \<lfloor>y\<rfloor>")
  case True
  then show ?thesis by (metis of_int_minus rne_of_int)
next
  case False
  then have f: "\<lfloor>- y\<rfloor> = - \<lfloor>y\<rfloor> - 1" and r: "of_int \<lfloor>y\<rfloor> < y"
    using floor_correct [of y] by (linarith, linarith)
  show ?thesis using r by (auto simp: rne_def Let_def f)
qed

lemma rne_ge: "of_int n \<le> y \<Longrightarrow> n \<le> rne y"
  using rne_mono [of "of_int n" y] by simp

lemma rne_le: "y \<le> of_int n \<Longrightarrow> rne y \<le> n"
  using rne_mono [of y "of_int n"] by simp

lemma rnd_zero [simp]: "rnd 0 = 0"
  by (simp add: rnd_def)

lemma rnd_minus: "rnd (- x) = - rnd x"
  by (simp add: rnd_def rexp_def rne_minus)

lemma rexp_scale_less:
  assumes "0 < x"
  shows "x / 2 powi rexp x < 2 ^ 53"
proof -
  have "x < 2 powi (flog2 x + 1)" using flog2_bounds(2) [OF assms] .
  also have "\<dots> \<le> 2 powi (rexp x + 53)" using assms by (simp add: rexp_def)
  also have "\<dots> = 2 powi rexp x * 2 ^ 53" by (simp add: power_int_add)
  finally show ?thesis by (simp add: field_simps)
qed

lemma rexp_scale_ge:
  assumes "0 < x" "-1074 < rexp x"
  shows "2 ^ 52 \<le> x / 2 powi rexp x"
proof -
  have e: "flog2 x = rexp x + 52" using assms by (simp add: rexp_def)
  have "2 powi rexp x * 2 ^ 52 = (2::rat) powi (rexp x + 52)" by (simp add: power_int_add)
  also have "\<dots> \<le> x" using flog2_bounds(1) [OF assms(1)] by (simp add: e)
  finally show ?thesis by (simp add: field_simps)
qed

lemma rexp_ge: "-1074 \<le> rexp x"
  by (simp add: rexp_def)

lemma rnd_pos_eq: "0 < x \<Longrightarrow> rnd x = of_int (rne (x / 2 powi rexp x)) * 2 powi rexp x"
  by (simp add: rnd_def)

lemma rnd_nonneg: "0 \<le> x \<Longrightarrow> 0 \<le> rnd x"
proof (cases "x = 0")
  case False
  assume "0 \<le> x"
  with False have "0 \<le> rne (x / 2 powi rexp x)" by (intro rne_ge) simp
  with False \<open>0 \<le> x\<close> show ?thesis by (simp add: rnd_def)
qed simp

lemma rnd_mono_pos:
  assumes x: "0 < x" and xy: "x \<le> y"
  shows "rnd x \<le> rnd y"
proof -
  have y: "0 < y" using assms by simp
  have le: "rexp x \<le> rexp y" using flog2_mono [OF x xy] x y by (simp add: rexp_def)
  show ?thesis
  proof (cases "rexp x = rexp y")
    case True
    have "rne (x / 2 powi rexp x) \<le> rne (y / 2 powi rexp y)"
      unfolding True by (intro rne_mono divide_right_mono xy) simp
    then show ?thesis using x y by (simp add: rnd_pos_eq True)
  next
    case False
    with le have lt: "rexp x + 1 \<le> rexp y" by simp
    have "rne (x / 2 powi rexp x) \<le> 2 ^ 53"
      using rexp_scale_less [OF x] by (intro rne_le) simp
    then have "of_int (rne (x / 2 powi rexp x)) \<le> (2::rat) ^ 53"
      by (metis of_int_le_iff of_int_numeral of_int_power)
    then have "rnd x \<le> 2 ^ 53 * 2 powi rexp x"
      using x by (simp add: rnd_pos_eq mult_right_mono)
    also have "\<dots> = 2 powi (rexp x + 53)" by (simp add: power_int_add)
    also have "\<dots> \<le> 2 powi (rexp y + 52)" using lt by simp
    also have "\<dots> = 2 ^ 52 * 2 powi rexp y" by (simp add: power_int_add)
    also have "\<dots> \<le> rnd y"
    proof -
      have "2 ^ 52 \<le> rne (y / 2 powi rexp y)"
        using rexp_scale_ge [OF y] rexp_ge [of x] lt by (intro rne_ge) simp
      then have "(2::rat) ^ 52 \<le> of_int (rne (y / 2 powi rexp y))"
        by (metis of_int_le_iff of_int_numeral of_int_power)
      then show ?thesis using y by (simp add: rnd_pos_eq mult_right_mono)
    qed
    finally show ?thesis .
  qed
qed

lemma rnd_mono:
  assumes "x \<le> y"
  shows "rnd x \<le> rnd y"
proof -
  consider "0 < x" | "x \<le> 0" "0 \<le> y" | "y < 0" using assms by linarith
  then show ?thesis
  proof cases
    case 1
    then show ?thesis using assms by (rule rnd_mono_pos)
  next
    case 2
    then have "rnd x \<le> 0" using rnd_nonneg [of "- x"] by (simp add: rnd_minus)
    with 2 rnd_nonneg [of y] show ?thesis by simp
  next
    case 3
    then have "rnd (- y) \<le> rnd (- x)" using assms by (intro rnd_mono_pos) auto
    then show ?thesis by (simp add: rnd_minus)
  qed
qed

lemma rep_minus: "rep (- x) \<longleftrightarrow> rep x"
proof -
  have "rep (- y)" if r: "rep y" for y
  proof -
    obtain m e where "y = of_int m * 2 powi e" "\<bar>m\<bar> \<le> 2 ^ 53" "-1074 \<le> e"
      using r unfolding rep_def by blast
    then have "- y = of_int (- m) * 2 powi e \<and> \<bar>- m\<bar> \<le> 2 ^ 53 \<and> -1074 \<le> e" by simp
    then show ?thesis unfolding rep_def by blast
  qed
  from this [of x] this [of "- x"] show ?thesis by auto
qed

lemma scaled_int_rnd:
  assumes "0 < x" "x = of_int k * 2 powi rexp x"
  shows "rnd x = x"
proof -
  have "x / 2 powi rexp x = of_int k" by (subst assms(2)) simp
  with assms show ?thesis by (simp add: rnd_pos_eq)
qed

lemma rnd_rep_pos:
  assumes x: "0 < x" and "rep x"
  shows "rnd x = x"
proof -
  obtain m e where m: "x = of_int m * 2 powi e" "\<bar>m\<bar> \<le> 2 ^ 53" "-1074 \<le> e"
    using \<open>rep x\<close> unfolding rep_def by blast
  have "(0::rat) < of_int m * 2 powi e" using x by (simp add: m(1))
  then have "(0::rat) < of_int m" by (rule zero_less_mult_pos2) simp
  then have mp: "0 < m" by simp
  have mle: "of_int m \<le> (2::rat) ^ 53"
    using m(2) mp by (metis abs_of_pos of_int_le_iff of_int_numeral of_int_power)
  have "2 powi flog2 x \<le> x" using flog2_bounds(1) [OF x] .
  also have "\<dots> \<le> 2 ^ 53 * 2 powi e" using mle by (simp add: m(1) mult_right_mono)
  also have "\<dots> = 2 powi (e + 53)" by (simp add: power_int_add)
  finally have fl: "flog2 x \<le> e + 53" by simp
  show ?thesis
  proof (cases "rexp x \<le> e")
    case True
    have "x = of_int (m * 2 ^ nat (e - rexp x)) * 2 powi rexp x"
    proof -
      have "(2::rat) powi e = 2 powi (e - rexp x) * 2 powi rexp x"
        by (simp add: power_int_add [symmetric])
      also have "(2::rat) powi (e - rexp x) = 2 ^ nat (e - rexp x)"
        using True by (simp add: power_int_def)
      finally show ?thesis using m(1) by simp
    qed
    with x show ?thesis by (rule scaled_int_rnd)
  next
    case False
    then have r: "rexp x = e + 1" and f: "flog2 x = e + 53"
      using fl m(3) x by (auto simp: rexp_def max_def split: if_splits)
    have "2 powi (e + 53) \<le> x" using flog2_bounds(1) [OF x] unfolding f .
    then have "2 ^ 53 * 2 powi e \<le> of_int m * (2::rat) powi e"
      unfolding m(1) by (simp add: power_int_add mult.commute)
    then have "(2::rat) ^ 53 \<le> of_int m" by (rule mult_right_le_imp_le) simp
    with mle have "of_int m = (2::rat) ^ 53" by simp
    then have "x = of_int (2 ^ 52) * 2 powi rexp x"
      unfolding r by (simp add: m(1) power_int_add)
    with x show ?thesis by (rule scaled_int_rnd)
  qed
qed

lemma rnd_rep [simp]:
  assumes "rep x"
  shows "rnd x = x"
proof -
  consider "0 < x" | "x = 0" | "0 < - x" by linarith
  then show ?thesis
  proof cases
    case 3
    then have "rnd (- x) = - x" using assms by (intro rnd_rep_pos) (simp_all add: rep_minus)
    then show ?thesis by (simp add: rnd_minus)
  qed (auto intro: rnd_rep_pos assms)
qed

lemma rep_rnd_pos: "0 < x \<Longrightarrow> rep (rnd x)"
proof -
  assume x: "0 < x"
  have "rne (x / 2 powi rexp x) \<le> 2 ^ 53" using rexp_scale_less [OF x] by (intro rne_le) simp
  moreover have "0 \<le> rne (x / 2 powi rexp x)" using x by (intro rne_ge) simp
  ultimately have "\<bar>rne (x / 2 powi rexp x)\<bar> \<le> 2 ^ 53" by simp
  then show ?thesis using rexp_ge [of x] unfolding rep_def rnd_pos_eq [OF x] by blast
qed

lemma rep_zero [simp]: "rep 0"
  by (auto simp: rep_def intro!: exI [of _ 0])

lemma rep_rnd [simp]: "rep (rnd x)"
proof -
  consider "0 < x" | "x = 0" | "0 < - x" by linarith
  then show ?thesis
  proof cases
    case 3
    then have "rep (rnd (- x))" by (rule rep_rnd_pos)
    then show ?thesis by (simp add: rnd_minus rep_minus)
  qed (auto intro: rep_rnd_pos)
qed

lemma rep_dyadic: "\<bar>m\<bar> \<le> 2 ^ 53 \<Longrightarrow> k \<le> 1074 \<Longrightarrow> rep (of_int m / 2 ^ k)"
  unfolding rep_def
  by (intro exI [of _ m] exI [of _ "- int k"]) (simp add: power_int_minus divide_inverse)

lemma rep_of_int: "\<bar>m\<bar> \<le> 2 ^ 53 \<Longrightarrow> rep (of_int m)"
  using rep_dyadic [of m 0] by simp

subsection \<open>Operations\<close>

text \<open>
  The operators of the language under the syntactic classes of HOL, so that the models read
  like the code. \<open><\<close> and \<open>\<le>\<close> are JavaScript's: false when an operand is NaN.
\<close>

instantiation jsnum :: "{plus, uminus, minus, times, inverse, ord, zero, one}"
begin

definition zero_jsnum :: jsnum where "0 = Fin 0"
definition one_jsnum :: jsnum where "1 = Fin 1"

fun plus_jsnum :: "jsnum \<Rightarrow> jsnum \<Rightarrow> jsnum" where
  "Fin a + Fin b = to_num (a + b)"
| "NaN + b = NaN"
| "a + NaN = NaN"
| "PInf + NInf = NaN"
| "NInf + PInf = NaN"
| "PInf + b = PInf"
| "NInf + b = NInf"
| "a + PInf = PInf"
| "a + NInf = NInf"

fun uminus_jsnum :: "jsnum \<Rightarrow> jsnum" where
  "- (Fin a) = Fin (- a)"
| "- NaN = NaN"
| "- PInf = NInf"
| "- NInf = PInf"

definition minus_jsnum :: "jsnum \<Rightarrow> jsnum \<Rightarrow> jsnum" where
  "minus_jsnum a b = a + (- b)"

definition inf_of_sign :: "rat \<Rightarrow> jsnum" where
  "inf_of_sign s = (if s = 0 then NaN else if 0 < s then PInf else NInf)"

fun sign_num :: "jsnum \<Rightarrow> rat" where
  "sign_num (Fin a) = sgn a"
| "sign_num PInf = 1"
| "sign_num NInf = -1"
| "sign_num NaN = 0"

fun times_jsnum :: "jsnum \<Rightarrow> jsnum \<Rightarrow> jsnum" where
  "Fin a * Fin b = to_num (a * b)"
| "NaN * b = NaN"
| "a * NaN = NaN"
| "a * b = inf_of_sign (sign_num a * sign_num b)"

fun divide_jsnum :: "jsnum \<Rightarrow> jsnum \<Rightarrow> jsnum" where
  "divide_jsnum (Fin a) (Fin b) = (if b = 0 then inf_of_sign (sgn a) else to_num (a / b))"
| "divide_jsnum NaN b = NaN"
| "divide_jsnum a NaN = NaN"
| "divide_jsnum (Fin a) b = Fin 0"
| "divide_jsnum a (Fin b) = (if b < 0 then - a else a)"
| "divide_jsnum a b = NaN"

definition inverse_jsnum :: "jsnum \<Rightarrow> jsnum" where
  "inverse_jsnum a = divide (Fin 1) a"

fun less_jsnum :: "jsnum \<Rightarrow> jsnum \<Rightarrow> bool" where
  "Fin a < Fin b = (a < b)"
| "NaN < b = False"
| "a < NaN = False"
| "NInf < NInf = False"
| "NInf < b = True"
| "a < NInf = False"
| "PInf < b = False"
| "a < PInf = True"

fun less_eq_jsnum :: "jsnum \<Rightarrow> jsnum \<Rightarrow> bool" where
  "Fin a \<le> Fin b = (a \<le> b)"
| "NaN \<le> b = False"
| "a \<le> NaN = False"
| "NInf \<le> b = True"
| "a \<le> NInf = False"
| "a \<le> PInf = True"
| "PInf \<le> b = False"

instance ..

end

text \<open>\<open>===\<close> on numbers.\<close>

definition num_eq :: "jsnum \<Rightarrow> jsnum \<Rightarrow> bool" where
  "num_eq a b \<longleftrightarrow> a = b \<and> a \<noteq> NaN"

definition truthy_num :: "jsnum \<Rightarrow> bool" where
  "truthy_num a \<longleftrightarrow> a \<noteq> NaN \<and> a \<noteq> Fin 0"

definition is_finite :: "jsnum \<Rightarrow> bool" where
  "is_finite a = (case a of Fin _ \<Rightarrow> True | _ \<Rightarrow> False)"

definition is_integer :: "jsnum \<Rightarrow> bool" where
  "is_integer a = (case a of Fin x \<Rightarrow> x = of_int \<lfloor>x\<rfloor> | _ \<Rightarrow> False)"

definition num_of_int :: "int \<Rightarrow> jsnum" where
  "num_of_int n = to_num (of_int n)"

definition num_map :: "(rat \<Rightarrow> int) \<Rightarrow> jsnum \<Rightarrow> jsnum" where
  "num_map f a = (case a of Fin x \<Rightarrow> Fin (of_int (f x)) | _ \<Rightarrow> a)"

text \<open>\<open>Math.floor\<close>, \<open>Math.ceil\<close>, \<open>Math.round\<close> (ties towards plus infinity).\<close>

definition math_floor :: "jsnum \<Rightarrow> jsnum" where "math_floor = num_map floor"
definition math_ceil :: "jsnum \<Rightarrow> jsnum" where "math_ceil = num_map ceiling"
definition math_round :: "jsnum \<Rightarrow> jsnum" where "math_round = num_map (\<lambda>x. \<lfloor>x + 1/2\<rfloor>)"

definition math_min :: "jsnum \<Rightarrow> jsnum \<Rightarrow> jsnum" where
  "math_min a b = (if a = NaN \<or> b = NaN then NaN else if b < a then b else a)"

definition math_max :: "jsnum \<Rightarrow> jsnum \<Rightarrow> jsnum" where
  "math_max a b = (if a = NaN \<or> b = NaN then NaN else if a < b then b else a)"

definition math_min_list :: "jsnum list \<Rightarrow> jsnum" where
  "math_min_list xs = foldl math_min PInf xs"

definition math_max_list :: "jsnum list \<Rightarrow> jsnum" where
  "math_max_list xs = foldl math_max NInf xs"

text \<open>A finite value of the format.\<close>

definition is_double :: "jsnum \<Rightarrow> bool" where
  "is_double a = (case a of Fin x \<Rightarrow> rep x \<and> \<bar>x\<bar> < 2 ^ 1024 | _ \<Rightarrow> False)"

subsection \<open>Facts about the operations\<close>

lemma to_num_neq_NaN [simp]: "to_num x \<noteq> NaN"
  by (simp add: to_num_def Let_def)

lemma to_num_rep: "rep x \<Longrightarrow> \<bar>x\<bar> < 2 ^ 1024 \<Longrightarrow> to_num x = Fin x"
  by (auto simp: to_num_def abs_less_iff)

lemma to_num_Fin: "to_num x = Fin y \<Longrightarrow> y = rnd x \<and> rep y \<and> \<bar>y\<bar> < 2 ^ 1024"
  by (auto simp: to_num_def Let_def abs_less_iff split: if_splits)

lemma to_num_mono: "x \<le> y \<Longrightarrow> to_num x \<le> to_num y"
  using rnd_mono [of x y] by (auto simp: to_num_def Let_def)

lemma to_num_ge: "rep a \<Longrightarrow> \<bar>a\<bar> < 2 ^ 1024 \<Longrightarrow> a \<le> x \<Longrightarrow> Fin a \<le> to_num x"
  using to_num_mono [of a x] by (simp add: to_num_rep)

lemma to_num_le: "rep a \<Longrightarrow> \<bar>a\<bar> < 2 ^ 1024 \<Longrightarrow> x \<le> a \<Longrightarrow> to_num x \<le> Fin a"
  using to_num_mono [of x a] by (simp add: to_num_rep)

text \<open>A result between two representable bounds stays between them.\<close>

lemma to_num_between:
  assumes "rep a" "rep b" "\<bar>a\<bar> < 2 ^ 1024" "\<bar>b\<bar> < 2 ^ 1024" "a \<le> x" "x \<le> b"
  obtains y where "to_num x = Fin y" "a \<le> y" "y \<le> b" "rep y" "y = rnd x"
proof -
  have "Fin a \<le> to_num x" "to_num x \<le> Fin b" using assms by (simp_all add: to_num_ge to_num_le)
  then obtain y where y: "to_num x = Fin y" "a \<le> y" "y \<le> b" by (cases "to_num x") simp_all
  with to_num_Fin [OF y(1)] that show ?thesis by blast
qed

lemma pow2_53_small: "(x::rat) \<le> 2 ^ 53 \<Longrightarrow> x < 2 ^ 1024"
proof -
  assume "x \<le> 2 ^ 53"
  also have "(2::rat) ^ 53 < 2 ^ 1024" by (rule power_strict_increasing) simp_all
  finally show ?thesis .
qed

lemma to_num_dyadic:
  assumes "\<bar>m\<bar> \<le> 2 ^ 53" "k \<le> 1074"
  shows "to_num (of_int m / 2 ^ k) = Fin (of_int m / 2 ^ k)"
proof (rule to_num_rep)
  show "rep (of_int m / 2 ^ k)" by (rule rep_dyadic [OF assms])
  have "\<bar>of_int m / 2 ^ k\<bar> \<le> \<bar>of_int m :: rat\<bar>"
    using mult_left_mono [of 1 "2 ^ k" "\<bar>of_int m :: rat\<bar>"] by (simp add: abs_divide divide_le_eq)
  also have "\<dots> \<le> 2 ^ 53" using assms(1) by (metis of_int_abs of_int_le_iff of_int_numeral of_int_power)
  finally show "\<bar>of_int m / 2 ^ k :: rat\<bar> < 2 ^ 1024" by (rule pow2_53_small)
qed

lemma to_num_of_int [js_num]: "\<bar>n\<bar> \<le> 2 ^ 53 \<Longrightarrow> to_num (of_int n) = Fin (of_int n)"
  using to_num_dyadic [of n 0] by simp

lemma num_of_int_eq [js_num]: "\<bar>n\<bar> \<le> 2 ^ 53 \<Longrightarrow> num_of_int n = Fin (of_int n)"
  by (simp add: num_of_int_def to_num_of_int)

lemma plus_of_int [js_num]:
  "\<bar>a + b\<bar> \<le> 2 ^ 53 \<Longrightarrow> Fin (of_int a) + Fin (of_int b) = Fin (of_int (a + b))"
  using to_num_of_int [of "a + b"] by simp

lemma minus_of_int [js_num]:
  "\<bar>a - b\<bar> \<le> 2 ^ 53 \<Longrightarrow> Fin (of_int a) - Fin (of_int b) = Fin (of_int (a - b))"
  using to_num_of_int [of "a - b"] by (simp add: minus_jsnum_def)

lemma times_of_int [js_num]:
  "\<bar>a * b\<bar> \<le> 2 ^ 53 \<Longrightarrow> Fin (of_int a) * Fin (of_int b) = Fin (of_int (a * b))"
  using to_num_of_int [of "a * b"] by simp

lemma minus_Fin: "Fin a - Fin b = to_num (a - b)"
  by (simp add: minus_jsnum_def)

lemma math_int_simps [js_num, simp]:
  "math_floor (Fin x) = Fin (of_int \<lfloor>x\<rfloor>)" "math_ceil (Fin x) = Fin (of_int \<lceil>x\<rceil>)"
  "math_round (Fin x) = Fin (of_int \<lfloor>x + 1/2\<rfloor>)"
  by (simp_all add: math_floor_def math_ceil_def math_round_def num_map_def)

lemma math_min_Fin [js_num, simp]: "math_min (Fin a) (Fin b) = Fin (min a b)"
  by (simp add: math_min_def min_def)

lemma math_max_Fin [js_num, simp]: "math_max (Fin a) (Fin b) = Fin (max a b)"
  by (simp add: math_max_def max_def)

text \<open>
  The quotient of two integers, rounded up after the division has been rounded: for the sizes
  of arrays the detour through binary64 changes nothing.
\<close>

lemma ceil_div_exact:
  assumes "0 \<le> n" "n < 2 ^ 32" "0 < d" "d \<le> 2 ^ 20"
  shows "math_ceil (Fin (of_int n) / Fin (of_int d)) = Fin (of_int \<lceil>of_int n / (of_int d :: rat)\<rceil>)"
proof -
  define x :: rat where "x = of_int n / of_int d"
  define c where "c = \<lceil>x\<rceil>"
  have dn: "of_int d \<noteq> (0::rat)" using assms by simp
  have x0: "0 \<le> x" using assms by (simp add: x_def)
  have "x \<le> of_int n"
    using assms mult_left_mono [of 1 "of_int d" "of_int n :: rat"] by (simp add: x_def divide_le_eq)
  then have c: "0 \<le> c" "c < 2 ^ 32 + 1" using x0 assms(2) unfolding c_def by linarith+
  have up: "rnd x \<le> of_int c"
    using rnd_mono [of x "of_int c"] rep_of_int [of c] c by (simp add: c_def)
  have lo: "of_int (c - 1) < rnd x"
  proof -
    let ?y = "of_int ((c - 1) * 2 ^ 20 + 1) / 2 ^ 20 :: rat"
    have "of_int (c - 1) < x" unfolding c_def by linarith
    then have "(c - 1) * d < n" using assms(3)
      by (simp add: x_def less_divide_eq) (metis of_int_diff of_int_less_iff of_int_mult of_int_1)
    then have "(c - 1) * d + 1 \<le> n" by simp
    then have "of_int ((c - 1) * d + 1) / of_int d \<le> x"
      using assms(3) unfolding x_def by (intro divide_right_mono iffD2 [OF of_int_le_iff]) simp_all
    moreover have "of_int ((c - 1) * d + 1) / of_int d = of_int (c - 1) + 1 / (of_int d :: rat)"
      using dn by (simp add: field_simps)
    moreover have y: "?y = of_int (c - 1) + 1 / 2 ^ 20" by (simp add: field_simps)
    moreover have "1 / 2 ^ 20 \<le> 1 / (of_int d :: rat)"
    proof -
      have "of_int d \<le> (2::rat) ^ 20" using assms(4) by (metis of_int_le_iff of_int_numeral of_int_power)
      then show ?thesis using assms(3) by (intro divide_left_mono) simp_all
    qed
    ultimately have yx: "?y \<le> x" and y1: "of_int (c - 1) < ?y" unfolding y by (linarith, simp)
    have "rep ?y" using c by (intro rep_dyadic) (auto simp: abs_le_iff)
    then have "?y \<le> rnd x" using rnd_mono [OF yx] by simp
    with y1 show ?thesis by simp
  qed
  have cc: "\<lceil>rnd x\<rceil> = c" using lo up by (simp add: ceiling_eq_iff)
  have "c \<le> 2 ^ 53" using c by simp
  then have "of_int c \<le> (2::rat) ^ 53" by (metis of_int_le_iff of_int_numeral of_int_power)
  with up have "rnd x \<le> 2 ^ 53" by simp
  then have "\<bar>rnd x\<bar> < 2 ^ 1024" using rnd_nonneg [OF x0] pow2_53_small [of "rnd x"] by simp
  then have "to_num x = Fin (rnd x)" by (auto simp: to_num_def Let_def abs_less_iff)
  with cc dn show ?thesis by (simp add: x_def c_def)
qed

end
