(* ===== verification/Js_Array.thy ===== *)
theory Js_Array
  imports Js_Number
begin

text \<open>
  Arrays, sorting and the insertion-ordered \<open>Map\<close>. \<open>js_sort\<close> is
  \<open>Array.prototype.sort\<close> with a comparator: the language requires it to be stable, and a
  comparator that is a total preorder determines the result; the locale
  \<open>js_comparator\<close> is that contract, with what a client may conclude from it, and
  \<open>numeric_key\<close> shows that the panel's comparators of the form \<open>key(a) - key(b)\<close> meet it
  although the difference is rounded. The locale \<open>ordered_store\<close> is the contract of
  \<open>Map\<close>, met by the association lists \<open>map_set\<close> builds.
\<close>

subsection \<open>Sorting\<close>

primrec sort_insert :: "('a \<Rightarrow> 'a \<Rightarrow> jsnum) \<Rightarrow> 'a \<Rightarrow> 'a list \<Rightarrow> 'a list" where
  "sort_insert cmp x [] = [x]"
| "sort_insert cmp x (y # ys) =
     (if 0 < cmp x y then y # sort_insert cmp x ys else x # y # ys)"

definition js_sort :: "('a \<Rightarrow> 'a \<Rightarrow> jsnum) \<Rightarrow> 'a list \<Rightarrow> 'a list" where
  "js_sort cmp xs = foldr (sort_insert cmp) xs []"

lemma js_sort_simps [simp]:
  "js_sort cmp [] = []"
  "js_sort cmp (x # xs) = sort_insert cmp x (js_sort cmp xs)"
  by (simp_all add: js_sort_def)

lemma mset_sort_insert [simp]: "mset (sort_insert cmp x ys) = add_mset x (mset ys)"
  by (induction ys) auto

lemma mset_js_sort [simp, js_seq]: "mset (js_sort cmp xs) = mset xs"
  by (induction xs) auto

lemma set_js_sort [simp, js_seq]: "set (js_sort cmp xs) = set xs"
  by (metis mset_js_sort set_mset_mset)

lemma length_js_sort [simp, js_seq]: "length (js_sort cmp xs) = length xs"
  by (metis mset_js_sort size_mset)

lemma distinct_map_js_sort [simp, js_seq]: "distinct (map f (js_sort cmp xs)) = distinct (map f xs)"
  by (metis mset_js_sort mset_map mset_eq_imp_distinct_iff)

lemma js_sort_Nil_iff [simp]: "js_sort cmp xs = [] \<longleftrightarrow> xs = []"
  by (metis length_0_conv length_js_sort)

locale js_comparator =
  fixes cmp :: "'a \<Rightarrow> 'a \<Rightarrow> jsnum"
    and ok :: "'a \<Rightarrow> bool"
  assumes total: "ok x \<Longrightarrow> ok y \<Longrightarrow> 0 < cmp x y \<Longrightarrow> \<not> 0 < cmp y x"
    and trans: "ok x \<Longrightarrow> ok y \<Longrightarrow> ok z \<Longrightarrow> \<not> 0 < cmp x y \<Longrightarrow> \<not> 0 < cmp y z \<Longrightarrow> \<not> 0 < cmp x z"
begin

abbreviation before :: "'a \<Rightarrow> 'a \<Rightarrow> bool" where
  "before x y \<equiv> \<not> 0 < cmp x y"

lemma sorted_insert:
  assumes "\<forall>y\<in>set ys. ok y" "ok x" "sorted_wrt before ys"
  shows "sorted_wrt before (sort_insert cmp x ys)"
  using assms
proof (induction ys)
  case Nil
  then show ?case by simp
next
  case (Cons y ys)
  show ?case
  proof (cases "0 < cmp x y")
    case True
    have "\<forall>z\<in>set (sort_insert cmp x ys). before y z"
    proof
      fix z
      assume "z \<in> set (sort_insert cmp x ys)"
      then have "z = x \<or> z \<in> set ys"
        by (metis insert_iff mset_sort_insert set_mset_add_mset_insert set_mset_mset)
      with Cons.prems total [of x y] True show "before y z" by auto
    qed
    with True Cons show ?thesis by simp
  next
    case False
    have "\<forall>z\<in>set ys. before x z"
      using False Cons.prems trans [of x y] by auto
    with False Cons.prems show ?thesis by simp
  qed
qed

lemma sorted_js_sort: "\<forall>x\<in>set xs. ok x \<Longrightarrow> sorted_wrt before (js_sort cmp xs)"
  by (induction xs) (auto intro: sorted_insert)

text \<open>Stability: elements the comparator calls equal keep the order they came in.\<close>

lemma stable_insert:
  assumes "\<forall>y\<in>set ys. ok y" "ok x" "ok a" "sorted_wrt before ys"
  shows "filter (\<lambda>y. before a y \<and> before y a) (sort_insert cmp x ys)
       = filter (\<lambda>y. before a y \<and> before y a) (x # ys)"
  using assms
proof (induction ys)
  case Nil
  then show ?case by simp
next
  case (Cons y ys)
  show ?case
  proof (cases "0 < cmp x y")
    case True
    have "\<not> ((before a x \<and> before x a) \<and> (before a y \<and> before y a))"
      using True trans [of x a y] Cons.prems by auto
    with True Cons show ?thesis by auto
  next
    case False
    then show ?thesis by simp
  qed
qed

lemma stable_js_sort:
  "\<forall>x\<in>set xs. ok x \<Longrightarrow> ok a \<Longrightarrow>
   filter (\<lambda>y. before a y \<and> before y a) (js_sort cmp xs) = filter (\<lambda>y. before a y \<and> before y a) xs"
proof (induction xs)
  case Nil
  then show ?case by simp
next
  case (Cons x xs)
  then show ?case
    using stable_insert [of "js_sort cmp xs" x a] sorted_js_sort [of xs] by auto
qed

lemma hd_js_sort:
  assumes "\<forall>x\<in>set xs. ok x" "y \<in> set xs"
  shows "before (hd (js_sort cmp xs)) y"
proof -
  have s: "sorted_wrt before (js_sort cmp xs)" using assms(1) by (rule sorted_js_sort)
  show ?thesis
  proof (cases "js_sort cmp xs")
    case Nil
    with assms(2) show ?thesis by simp
  next
    case (Cons z zs)
    with s have "\<forall>u\<in>set zs. before z u" by simp
    moreover have "before z z"
    proof -
      have "z \<in> set (js_sort cmp xs)" using Cons by simp
      then have "ok z" using assms(1) by simp
      then show ?thesis using total [of z z] by blast
    qed
    moreover have "y \<in> set (js_sort cmp xs)" using assms(2) by simp
    ultimately show ?thesis using Cons by auto
  qed
qed

lemma js_sort_sorted:
  "sorted_wrt before xs \<Longrightarrow> js_sort cmp xs = xs"
proof (induction xs)
  case Nil
  then show ?case by simp
next
  case (Cons x xs)
  then show ?case by (cases xs) auto
qed

end

text \<open>The sign of a rounded difference is the sign of the difference.\<close>

definition tiny :: rat where
  "tiny = 2 powi (-1074)"

lemma tiny_pos: "0 < tiny"
  by (simp add: tiny_def)

lemma rep_tiny: "rep tiny"
  unfolding rep_def tiny_def by (intro exI [of _ 1] exI [of _ "-1074"]) simp

lemma powi_multiple: "f \<le> e \<Longrightarrow> \<exists>k::int. of_int m * 2 powi e = of_int k * (2::rat) powi f"
proof -
  assume fe: "f \<le> e"
  have "(2::rat) powi e = 2 powi (e - f) * 2 powi f"
    by (simp add: power_int_add [symmetric])
  also have "(2::rat) powi (e - f) = of_int (2 ^ nat (e - f))"
    using fe by (simp add: power_int_def)
  finally have "of_int m * 2 powi e = of_int (m * 2 ^ nat (e - f)) * (2::rat) powi f" by simp
  then show ?thesis by blast
qed

lemma rep_multiple: "rep x \<Longrightarrow> \<exists>k::int. x = of_int k * tiny"
  unfolding rep_def tiny_def using powi_multiple [of "-1074"] by blast

lemma diff_pos_rnd:
  assumes "rep a" "rep b" "a < b"
  shows "0 < rnd (b - a)"
proof -
  obtain j k where j: "a = of_int j * tiny" and k: "b = of_int k * tiny"
    using assms rep_multiple by metis
  have "of_int j < (of_int k :: rat)"
    using assms(3) tiny_pos unfolding j k by simp
  then have "1 \<le> k - j" by simp
  then have "(1::rat) \<le> of_int (k - j)" by (metis of_int_1 of_int_le_iff)
  then have "1 * tiny \<le> of_int (k - j) * tiny"
    using tiny_pos by (intro mult_right_mono) simp_all
  also have "\<dots> = b - a" unfolding j k by (simp add: algebra_simps)
  finally have "rnd tiny \<le> rnd (b - a)" by (intro rnd_mono) simp
  then show ?thesis using tiny_pos by (simp add: rep_tiny)
qed

lemma to_num_pos_iff: "0 < to_num x \<longleftrightarrow> 0 < rnd x"
  by (auto simp: to_num_def Let_def zero_jsnum_def intro: less_le_trans [rotated])

lemma sign_minus:
  assumes "rep a" "rep b"
  shows "0 < Fin a - Fin b \<longleftrightarrow> b < a"
proof -
  have "\<not> 0 < rnd (a - b)" if "a \<le> b"
    using rnd_mono [of "a - b" 0] that by simp
  with diff_pos_rnd [of b a] assms show ?thesis
    unfolding minus_Fin to_num_pos_iff by (meson not_less)
qed

lemma sign_minus_double:
  assumes "is_double x" "is_double y"
  shows "0 < x - y \<longleftrightarrow> y < x"
  using assms by (auto simp: is_double_def sign_minus split: jsnum.splits)

lemma minus_truthy:
  assumes "is_double x" "is_double y"
  shows "truthy_num (x - y) \<longleftrightarrow> x \<noteq> y"
proof -
  obtain a b where ab: "x = Fin a" "y = Fin b" "rep a" "rep b"
    using assms by (auto simp: is_double_def split: jsnum.splits)
  have "rnd (a - b) \<noteq> 0" if "a \<noteq> b"
    using diff_pos_rnd [OF ab(3,4)] diff_pos_rnd [OF ab(4,3)] rnd_minus [of "b - a"] that by force
  then have "to_num (a - b) \<noteq> Fin 0" if "a \<noteq> b" using that by (auto dest: to_num_Fin)
  moreover have "to_num (a - b) = Fin 0" if "a = b" using that to_num_of_int [of 0] by simp
  ultimately show ?thesis by (auto simp: ab minus_Fin truthy_num_def)
qed

locale numeric_key =
  fixes key :: "'a \<Rightarrow> jsnum"
    and ok :: "'a \<Rightarrow> bool"
  assumes key_double: "ok x \<Longrightarrow> is_double (key x)"

sublocale numeric_key \<subseteq> asc: js_comparator "\<lambda>a b. key a - key b" ok
proof unfold_locales
  fix x y z
  assume "ok x" "ok y"
  then have d: "is_double (key x)" "is_double (key y)" by (simp_all add: key_double)
  show "0 < key x - key y \<Longrightarrow> \<not> 0 < key y - key x"
    using d by (auto simp: sign_minus_double is_double_def split: jsnum.splits)
  assume "ok z"
  then have "is_double (key z)" by (simp add: key_double)
  with d show "\<not> 0 < key x - key y \<Longrightarrow> \<not> 0 < key y - key z \<Longrightarrow> \<not> 0 < key x - key z"
    by (auto simp: sign_minus_double is_double_def split: jsnum.splits)
qed

sublocale numeric_key \<subseteq> desc: js_comparator "\<lambda>a b. key b - key a" ok
proof unfold_locales
  fix x y z
  assume "ok x" "ok y"
  then have d: "is_double (key x)" "is_double (key y)" by (simp_all add: key_double)
  show "0 < key y - key x \<Longrightarrow> \<not> 0 < key x - key y"
    using d by (auto simp: sign_minus_double is_double_def split: jsnum.splits)
  assume "ok z"
  then have "is_double (key z)" by (simp add: key_double)
  with d show "\<not> 0 < key y - key x \<Longrightarrow> \<not> 0 < key z - key y \<Longrightarrow> \<not> 0 < key z - key x"
    by (auto simp: sign_minus_double is_double_def split: jsnum.splits)
qed

text \<open>Differences of integer counts, which never round to a wrong sign.\<close>

lemma num_of_int_pos: "0 < num_of_int n \<longleftrightarrow> 0 < n"
proof
  assume "0 < num_of_int n"
  then have "0 < rnd (of_int n)" by (simp only: num_of_int_def to_num_pos_iff)
  moreover have "rnd (of_int n) \<le> 0" if "n \<le> 0" using rnd_mono [of "of_int n" 0] that by simp
  ultimately show "0 < n" by (meson not_less)
next
  assume "0 < n"
  then have "(1::rat) \<le> of_int n" by simp
  then have "rnd 1 \<le> rnd (of_int n)" by (rule rnd_mono)
  moreover have "rnd (1::rat) = 1" using rep_of_int [of 1] by simp
  ultimately show "0 < num_of_int n" unfolding num_of_int_def to_num_pos_iff by simp
qed

locale int_key =
  fixes key :: "'a \<Rightarrow> int"

sublocale int_key \<subseteq> asc: js_comparator "\<lambda>a b. num_of_int (key a - key b)" "\<lambda>_. True"
  by unfold_locales (auto simp: num_of_int_pos)

sublocale int_key \<subseteq> desc: js_comparator "\<lambda>a b. num_of_int (key b - key a)" "\<lambda>_. True"
  by unfold_locales (auto simp: num_of_int_pos)

interpretation numbers: numeric_key "\<lambda>x. x" is_double
  by unfold_locales simp

subsection \<open>Insertion-ordered maps\<close>

text \<open>
  \<open>Map\<close> enumerates its keys in the order they were first set; setting a key again replaces
  the value where it stands.
\<close>

fun map_set :: "'k \<Rightarrow> 'v \<Rightarrow> ('k \<times> 'v) list \<Rightarrow> ('k \<times> 'v) list" where
  "map_set k v [] = [(k, v)]"
| "map_set k v ((k', v') # m) = (if k' = k then (k, v) # m else (k', v') # map_set k v m)"

definition map_get :: "('k \<times> 'v) list \<Rightarrow> 'k \<Rightarrow> 'v option" where
  "map_get m k = map_of m k"

definition map_keys :: "('k \<times> 'v) list \<Rightarrow> 'k list" where
  "map_keys m = map fst m"

definition map_values :: "('k \<times> 'v) list \<Rightarrow> 'v list" where
  "map_values m = map snd m"

locale ordered_store =
  fixes empty :: 'm
    and store :: "'k \<Rightarrow> 'v \<Rightarrow> 'm \<Rightarrow> 'm"
    and lookup :: "'m \<Rightarrow> 'k \<Rightarrow> 'v option"
    and keys :: "'m \<Rightarrow> 'k list"
  assumes lookup_empty: "lookup empty k = None"
    and keys_empty: "keys empty = []"
    and lookup_store: "lookup (store k v m) k' = (if k' = k then Some v else lookup m k')"
    and keys_store: "keys (store k v m) = (if k \<in> set (keys m) then keys m else keys m @ [k])"
    and keys_lookup: "k \<in> set (keys m) \<longleftrightarrow> lookup m k \<noteq> None"
begin

text \<open>A loop that computes each new value from the item and the old entry.\<close>

definition upsert_all :: "('i \<Rightarrow> 'k) \<Rightarrow> ('i \<Rightarrow> 'v option \<Rightarrow> 'v) \<Rightarrow> 'i list \<Rightarrow> 'm \<Rightarrow> 'm" where
  "upsert_all key f xs m = foldl (\<lambda>m x. store (key x) (f x (lookup m (key x))) m) m xs"

lemma upsert_all_simps [simp]:
  "upsert_all key f [] m = m"
  "upsert_all key f (x # xs) m = upsert_all key f xs (store (key x) (f x (lookup m (key x))) m)"
  by (simp_all add: upsert_all_def)

lemma distinct_keys_upsert: "distinct (keys m) \<Longrightarrow> distinct (keys (upsert_all key f xs m))"
  by (induction xs arbitrary: m) (auto simp: keys_store)

lemma keys_upsert:
  "keys (upsert_all key f xs m) = keys m @ firsts_from (keys m) (map key xs)"
proof (induction xs arbitrary: m)
  case Nil
  then show ?case by simp
next
  case (Cons x xs)
  have cong: "firsts_from s zs = firsts_from s' zs" if "set s = set s'" for s s' and zs :: "'k list"
    using that by (rule firsts_from_cong)
  show ?case
    using cong [of "keys m @ [key x]" "key x # keys m"] by (simp add: Cons.IH keys_store)
qed

lemma lookup_upsert:
  "lookup (upsert_all key f xs m) k
     = foldl (\<lambda>v x. Some (f x v)) (lookup m k) (filter (\<lambda>x. key x = k) xs)"
  by (induction xs arbitrary: m) (auto simp: lookup_store)

end

lemma map_get_set: "map_get (map_set k v m) k' = (if k' = k then Some v else map_get m k')"
  by (induction k v m rule: map_set.induct) (auto simp: map_get_def)

lemma map_keys_set:
  "map_keys (map_set k v m) = (if k \<in> set (map_keys m) then map_keys m else map_keys m @ [k])"
  by (induction k v m rule: map_set.induct) (auto simp: map_keys_def)

lemma map_keys_iff: "k \<in> set (map_keys m) \<longleftrightarrow> map_get m k \<noteq> None"
  unfolding map_keys_def map_get_def map_of_eq_None_iff by simp

interpretation js_map: ordered_store "[]" map_set map_get map_keys
  by unfold_locales
    (rule map_get_set map_keys_set map_keys_iff | simp add: map_get_def map_keys_def)+

lemma map_values_get:
  "distinct (map_keys m) \<Longrightarrow> map_values m = map (\<lambda>k. the (map_get m k)) (map_keys m)"
  by (auto simp: map_values_def map_keys_def map_get_def)

end
