(* ===== verification/Js_String.thy ===== *)
theory Js_String
  imports Prelude "HOL-Library.List_Lexorder" "HOL-Library.Char_ord"
begin

text \<open>
  JavaScript strings over the code units 0 to 255, one \<open>char\<close> each, on which every
  library function used here is given exactly: case folding, trimming, searching, slicing,
  splitting and joining. The few literals outside this range that the panel displays (a dash,
  an ellipsis, an arrow) are written as their UTF-8 bytes and are never inspected.
\<close>

abbreviation code_unit :: "char \<Rightarrow> nat" where
  "code_unit c \<equiv> of_char c"

definition lower_char :: "char \<Rightarrow> char" where
  "lower_char c = (let n = code_unit c in
     if (65 \<le> n \<and> n \<le> 90) \<or> (192 \<le> n \<and> n \<le> 222 \<and> n \<noteq> 215) then char_of (n + 32) else c)"

definition to_lower :: "string \<Rightarrow> string" where
  "to_lower s = map lower_char s"

text \<open>\<open>toUpperCase\<close>; a sharp s becomes two letters, and the two letters whose capitals are
  outside this range (units 181 and 255) stay.\<close>

definition upper_char :: "char \<Rightarrow> string" where
  "upper_char c = (let n = code_unit c in
     if n = 223 then ''SS''
     else if (97 \<le> n \<and> n \<le> 122) \<or> (224 \<le> n \<and> n \<le> 254 \<and> n \<noteq> 247) then [char_of (n - 32)] else [c])"

definition to_upper :: "string \<Rightarrow> string" where
  "to_upper s = concat (map upper_char s)"

text \<open>White space and line terminators of the language, within this range.\<close>

definition is_space :: "char \<Rightarrow> bool" where
  "is_space c = (let n = code_unit c in (9 \<le> n \<and> n \<le> 13) \<or> n = 32 \<or> n = 160)"

definition trim :: "string \<Rightarrow> string" where
  "trim s = rev (dropWhile is_space (rev (dropWhile is_space s)))"

fun starts_with :: "string \<Rightarrow> string \<Rightarrow> bool" where
  "starts_with s [] = True"
| "starts_with [] (p # ps) = False"
| "starts_with (c # s) (p # ps) = (c = p \<and> starts_with s ps)"

fun index_from :: "nat \<Rightarrow> string \<Rightarrow> string \<Rightarrow> nat option" where
  "index_from i [] p = (if p = [] then Some i else None)"
| "index_from i (c # s) p = (if starts_with (c # s) p then Some i else index_from (Suc i) s p)"

text \<open>\<open>indexOf\<close>, with None for the result -1.\<close>

definition index_of :: "string \<Rightarrow> string \<Rightarrow> nat option" where
  "index_of s p = index_from 0 s p"

definition str_includes :: "string \<Rightarrow> string \<Rightarrow> bool" where
  "str_includes s p = (index_of s p \<noteq> None)"

definition slice :: "nat \<Rightarrow> nat \<Rightarrow> 'a list \<Rightarrow> 'a list" where
  "slice a b s = take (b - a) (drop a s)"

text \<open>\<open>split\<close> on a one-character separator: never the empty array.\<close>

fun split_on :: "char \<Rightarrow> string \<Rightarrow> string list" where
  "split_on c [] = [[]]"
| "split_on c (x # xs) =
     (if x = c then [] # split_on c xs
      else case split_on c xs of [] \<Rightarrow> [[x]] | y # ys \<Rightarrow> (x # y) # ys)"

fun join :: "string \<Rightarrow> string list \<Rightarrow> string" where
  "join sep [] = []"
| "join sep [x] = x"
| "join sep (x # y # ys) = x @ sep @ join sep (y # ys)"

subsection \<open>Decimal integers\<close>

definition digit_char :: "nat \<Rightarrow> char" where
  "digit_char n = char_of (48 + n)"

fun nat_digits :: "nat \<Rightarrow> string" where
  "nat_digits n = (if n < 10 then [digit_char n] else nat_digits (n div 10) @ [digit_char (n mod 10)])"

declare nat_digits.simps [simp del]

definition int_string :: "int \<Rightarrow> string" where
  "int_string i = (if i < 0 then CHR ''-'' # nat_digits (nat (- i)) else nat_digits (nat i))"

definition is_digit :: "char \<Rightarrow> bool" where
  "is_digit c = (let n = code_unit c in 48 \<le> n \<and> n \<le> 57)"

definition digit_val :: "char \<Rightarrow> nat" where
  "digit_val c = code_unit c - 48"

definition digits_val :: "string \<Rightarrow> nat" where
  "digits_val s = foldl (\<lambda>n c. 10 * n + digit_val c) 0 s"

subsection \<open>Facts\<close>

lemma starts_with_append [simp]: "starts_with (p @ s) p"
  by (induction p) auto

lemma starts_with_iff: "starts_with s p \<longleftrightarrow> (\<exists>t. s = p @ t)"
  by (induction s p rule: starts_with.induct) auto

lemma index_from_bounds:
  "index_from i s p = Some j \<Longrightarrow> i \<le> j \<and> j + length p \<le> i + length s \<and> starts_with (drop (j - i) s) p"
proof (induction i s p rule: index_from.induct)
  case (1 i p)
  then show ?case by (simp split: if_splits)
next
  case (2 i c s p)
  show ?case
  proof (cases "starts_with (c # s) p")
    case True
    with 2 have "j = i" by simp
    moreover obtain t where "c # s = p @ t" using True unfolding starts_with_iff by blast
    then have "length (c # s) = length p + length t" by (metis length_append)
    ultimately show ?thesis using True by simp
  next
    case False
    with 2 have "Suc i \<le> j \<and> j + length p \<le> Suc i + length s \<and> starts_with (drop (j - Suc i) s) p"
      by simp
    then show ?thesis by (auto simp: drop_Cons' Suc_diff_le)
  qed
qed

lemma index_of_split:
  assumes "index_of s p = Some j"
  shows "s = take j s @ p @ drop (j + length p) s"
proof -
  have "starts_with (drop j s) p" using index_from_bounds [of 0 s p j] assms by (simp add: index_of_def)
  then obtain t where t: "drop j s = p @ t" unfolding starts_with_iff by blast
  then have "t = drop (length p) (drop j s)" by simp
  then have "t = drop (j + length p) s" by (simp add: add.commute)
  with t show ?thesis by (metis append_take_drop_id)
qed

lemma index_from_first:
  "(\<forall>k<length a. \<not> starts_with (drop k (a @ p @ b)) p) \<Longrightarrow> index_from i (a @ p @ b) p = Some (i + length a)"
proof (induction a arbitrary: i)
  case Nil
  show ?case using starts_with_append [of p b] by (cases "p @ b") auto
next
  case (Cons c a)
  have "\<not> starts_with (c # a @ p @ b) p" using Cons.prems by (auto dest: spec [of _ 0])
  moreover have "\<forall>k<length a. \<not> starts_with (drop k (a @ p @ b)) p" using Cons.prems by force
  ultimately show ?case using Cons.IH [of "Suc i"] by simp
qed

lemma index_from_found: "index_from i (a @ p @ b) p \<noteq> None"
proof (induction a arbitrary: i)
  case Nil
  then show ?case using starts_with_append [of p b] by (cases "p @ b") auto
next
  case (Cons c a)
  then show ?case by simp
qed

lemma str_includes_iff: "str_includes s p \<longleftrightarrow> (\<exists>a b. s = a @ p @ b)"
proof
  assume "str_includes s p"
  then obtain j where "index_of s p = Some j" by (auto simp: str_includes_def)
  then show "\<exists>a b. s = a @ p @ b" by (blast dest: index_of_split)
next
  assume "\<exists>a b. s = a @ p @ b"
  then obtain a b where "s = a @ p @ b" by blast
  with index_from_found [of 0 a p b] show "str_includes s p" by (simp add: str_includes_def index_of_def)
qed

lemma split_on_neq_Nil [simp]: "split_on c s \<noteq> []"
  by (induction s) (auto split: list.splits)

lemma split_on_no_sep: "c \<notin> set s \<Longrightarrow> split_on c s = [s]"
  by (induction s) auto

lemma split_on_append: "c \<notin> set s \<Longrightarrow> split_on c (s @ c # t) = s # split_on c t"
  by (induction s) auto

lemma split_on_join:
  "xs \<noteq> [] \<Longrightarrow> \<forall>x\<in>set xs. c \<notin> set x \<Longrightarrow> split_on c (join [c] xs) = xs"
  by (induction "[c]" xs rule: join.induct) (auto simp: split_on_no_sep split_on_append)

lemma code_unit_digit_char: "n < 10 \<Longrightarrow> code_unit (digit_char n) = 48 + n"
  by (simp add: digit_char_def)

lemma is_digit_digit_char [simp]: "n < 10 \<Longrightarrow> is_digit (digit_char n)"
  by (simp add: is_digit_def code_unit_digit_char)

lemma digit_val_digit_char [simp]: "n < 10 \<Longrightarrow> digit_val (digit_char n) = n"
  by (simp add: digit_val_def code_unit_digit_char)

lemma digits_val_snoc [simp]: "digits_val (s @ [c]) = 10 * digits_val s + digit_val c"
  by (simp add: digits_val_def)

lemma digits_val_nat_digits [simp]: "digits_val (nat_digits n) = n"
proof (induction n rule: nat_digits.induct)
  case (1 n)
  show ?case
  proof (cases "n < 10")
    case True
    then have "nat_digits n = [digit_char n]" by (subst nat_digits.simps) simp
    with True show ?thesis by (simp add: digits_val_def)
  next
    case False
    then have "nat_digits n = nat_digits (n div 10) @ [digit_char (n mod 10)]"
      by (subst nat_digits.simps) simp
    with False 1 show ?thesis by simp
  qed
qed

lemma nat_digits_digits: "\<forall>c\<in>set (nat_digits n). is_digit c"
proof (induction n rule: nat_digits.induct)
  case (1 n)
  show ?case
  proof (cases "n < 10")
    case True
    then show ?thesis by (subst nat_digits.simps) simp
  next
    case False
    with 1 show ?thesis by (subst nat_digits.simps) auto
  qed
qed

lemma nat_digits_neq_Nil [simp]: "nat_digits n \<noteq> []"
  by (subst nat_digits.simps) simp

lemma is_digit_not_space: "is_digit c \<Longrightarrow> \<not> is_space c"
  by (auto simp: is_digit_def is_space_def Let_def)

lemma trim_id: "s \<noteq> [] \<Longrightarrow> \<not> is_space (hd s) \<Longrightarrow> \<not> is_space (last s) \<Longrightarrow> trim s = s"
proof -
  assume s: "s \<noteq> []" "\<not> is_space (hd s)" "\<not> is_space (last s)"
  then have "dropWhile is_space s = s" by (cases s) auto
  moreover have "dropWhile is_space (rev s) = rev s"
    using s by (cases "rev s") (auto simp: last_rev [symmetric] hd_rev)
  ultimately show ?thesis by (simp add: trim_def)
qed

lemma trim_idem [simp]: "trim (trim s) = trim s"
proof (cases "trim s = []")
  case True
  then show ?thesis by (simp only:) (simp add: trim_def)
next
  case False
  define u where "u = dropWhile is_space s"
  define v where "v = dropWhile is_space (rev u)"
  have t: "trim s = rev v" by (simp add: trim_def u_def v_def)
  have vn: "v \<noteq> []" using False t by simp
  then have "\<not> is_space (hd v)" unfolding v_def by (metis hd_dropWhile)
  then have last: "\<not> is_space (last (trim s))" using vn by (simp add: t last_rev)
  have un: "u \<noteq> []" using vn unfolding v_def by auto
  then have hu: "\<not> is_space (hd u)" unfolding u_def by (metis hd_dropWhile)
  obtain w where w: "rev u = w @ v" unfolding v_def by (metis takeWhile_dropWhile_id)
  then have "u = rev v @ rev w" by (metis rev_append rev_rev_ident)
  then have "hd u = hd (rev v)" using vn by simp
  with hu t have "\<not> is_space (hd (trim s))" by simp
  with False last show ?thesis by (intro trim_id)
qed

lemma length_nat_digits: "n < 10 ^ Suc k \<Longrightarrow> length (nat_digits n) \<le> Suc k"
proof (induction k arbitrary: n)
  case (Suc k)
  show ?case
  proof (cases "n < 10")
    case True
    then show ?thesis by (subst nat_digits.simps) simp
  next
    case False
    have "n div 10 < 10 ^ Suc k" using Suc.prems by (simp add: less_mult_imp_div_less mult.commute)
    with Suc.IH False show ?thesis by (subst nat_digits.simps) simp
  qed
qed (subst nat_digits.simps, simp)

end
