(* ===== verification/Js_Convert.thy ===== *)
theory Js_Convert
  imports Js_Array Js_String
begin

text \<open>
  Conversions between strings and numbers: \<open>Number(s)\<close> on strings, \<open>String(n)\<close> on numbers
  and \<open>toFixed\<close>. Both directions are the language's algorithms; for integers up to \<open>2^53\<close>
  they are shown to be inverse to each other, which is what the page numbers kept in the
  address bar need.
\<close>

subsection \<open>Number(s)\<close>

definition radix_digit :: "char \<Rightarrow> nat" where
  "radix_digit c = (let n = code_unit c in
     if 48 \<le> n \<and> n \<le> 57 then n - 48
     else if 65 \<le> n \<and> n \<le> 90 then n - 55
     else if 97 \<le> n \<and> n \<le> 122 then n - 87 else 99)"

definition radix_number :: "nat \<Rightarrow> string \<Rightarrow> jsnum" where
  "radix_number b s =
     (if s \<noteq> [] \<and> (\<forall>c\<in>set s. radix_digit c < b)
      then to_num (of_nat (foldl (\<lambda>n c. b * n + radix_digit c) 0 s)) else NaN)"

definition split_sign :: "string \<Rightarrow> bool \<times> string" where
  "split_sign s = (case s of
       [] \<Rightarrow> (False, [])
     | c # t \<Rightarrow> if c = CHR ''-'' then (True, t) else if c = CHR ''+'' then (False, t) else (False, s))"

text \<open>The exponent part: nothing, or \<open>e\<close> with an optional sign and digits up to the end.\<close>

definition exponent_of :: "string \<Rightarrow> int option" where
  "exponent_of s = (case s of
       [] \<Rightarrow> Some 0
     | c # t \<Rightarrow>
         (let (neg, ds) = split_sign t in
          if (c = CHR ''e'' \<or> c = CHR ''E'') \<and> ds \<noteq> [] \<and> (\<forall>d\<in>set ds. is_digit d)
          then Some (if neg then - int (digits_val ds) else int (digits_val ds)) else None))"

definition unsigned_decimal :: "string \<Rightarrow> rat option" where
  "unsigned_decimal s =
     (let ip = takeWhile is_digit s; r = dropWhile is_digit s;
          (fp, r') = (case r of c # t \<Rightarrow> if c = CHR ''.'' then (takeWhile is_digit t, dropWhile is_digit t)
                                       else ([], r) | [] \<Rightarrow> ([], []))
      in if ip = [] \<and> fp = [] then None
         else map_option (\<lambda>e. of_nat (digits_val (ip @ fp)) * 10 powi (e - int (length fp))) (exponent_of r'))"

definition decimal_number :: "string \<Rightarrow> jsnum" where
  "decimal_number s =
     (let (neg, t) = split_sign s in
      if t = ''Infinity'' then (if neg then NInf else PInf)
      else case unsigned_decimal t of None \<Rightarrow> NaN
           | Some x \<Rightarrow> to_num (if neg then - x else x))"

definition string_to_number :: "string \<Rightarrow> jsnum" where
  "string_to_number raw =
     (let s = trim raw in
      if s = [] then 0
      else case s of
        z # p # ds \<Rightarrow>
          if z = CHR ''0'' \<and> (p = CHR ''x'' \<or> p = CHR ''X'') then radix_number 16 ds
          else if z = CHR ''0'' \<and> (p = CHR ''o'' \<or> p = CHR ''O'') then radix_number 8 ds
          else if z = CHR ''0'' \<and> (p = CHR ''b'' \<or> p = CHR ''B'') then radix_number 2 ds
          else decimal_number s
      | _ \<Rightarrow> decimal_number s)"

subsection \<open>String(n)\<close>

text \<open>The \<open>n\<close> with \<open>10^(n-1) \<le> x < 10^n\<close>, from an estimate that is at most two too small.\<close>

definition dec_exp :: "rat \<Rightarrow> int" where
  "dec_exp x = (let e = (flog2 x * 30103) div 100000 in
     if x < 10 powi e then e else if x < 10 powi (e + 1) then e + 1 else e + 2)"

text \<open>The fewest digits that read back as \<open>x\<close>, the closest to \<open>x\<close> among those.\<close>

definition shortest_at :: "rat \<Rightarrow> int \<Rightarrow> nat \<Rightarrow> int option" where
  "shortest_at x n k =
     (let u = 10 powi (n - int k); lo = \<lfloor>x / u\<rfloor>; hi = lo + 1;
          ok = (\<lambda>s. rnd (of_int s * u) = x)
      in if ok lo \<and> (\<not> ok hi \<or> x - of_int lo * u \<le> of_int hi * u - x) then Some lo
         else if ok hi then Some hi else None)"

fun shortest_from :: "rat \<Rightarrow> int \<Rightarrow> nat \<Rightarrow> nat \<Rightarrow> int \<times> nat" where
  "shortest_from x n k 0 = (\<lfloor>x / 10 powi (n - int k)\<rfloor>, k)"
| "shortest_from x n k (Suc fuel) =
     (case shortest_at x n k of Some s \<Rightarrow> (s, k) | None \<Rightarrow> shortest_from x n (Suc k) fuel)"

definition strip_zeros :: "string \<Rightarrow> string" where
  "strip_zeros s = rev (dropWhile (\<lambda>c. c = CHR ''0'') (rev s))"

text \<open>The digits and the position of the decimal point, laid out as the language does.\<close>

definition layout_digits :: "string \<Rightarrow> int \<Rightarrow> string" where
  "layout_digits ds n =
     (let k = int (length ds); zeros = (\<lambda>m. replicate (nat m) (CHR ''0'')) in
      if k \<le> n \<and> n \<le> 21 then ds @ zeros (n - k)
      else if 0 < n \<and> n \<le> 21 then take (nat n) ds @ ''.'' @ drop (nat n) ds
      else if -6 < n \<and> n \<le> 0 then ''0.'' @ zeros (- n) @ ds
      else take 1 ds @ (if k = 1 then [] else ''.'' @ drop 1 ds) @ ''e''
             @ (if 0 < n - 1 then ''+'' else ''-'') @ nat_digits (nat \<bar>n - 1\<bar>))"

definition positive_string :: "rat \<Rightarrow> string" where
  "positive_string x =
     (if x = of_int \<lfloor>x\<rfloor> \<and> x \<le> 2 ^ 53 then nat_digits (nat \<lfloor>x\<rfloor>)
      else let n = dec_exp x; (s, k) = shortest_from x n 1 16; full = nat_digits (nat s)
           in layout_digits (strip_zeros full) (n - int k + int (length full)))"

definition num_string :: "jsnum \<Rightarrow> string" where
  "num_string a = (case a of
       NaN \<Rightarrow> ''NaN'' | PInf \<Rightarrow> ''Infinity'' | NInf \<Rightarrow> ''-Infinity''
     | Fin x \<Rightarrow> if x = 0 then ''0'' else if x < 0 then CHR ''-'' # positive_string (- x)
               else positive_string x)"

text \<open>\<open>toFixed(digits)\<close> below \<open>10^21\<close>.\<close>

definition fixed_digits :: "nat \<Rightarrow> nat \<Rightarrow> string" where
  "fixed_digits d n =
     (let s = nat_digits n; p = replicate (Suc d - length s) (CHR ''0'') @ s; k = length p - d
      in if d = 0 then s else take k p @ ''.'' @ drop k p)"

definition to_fixed :: "nat \<Rightarrow> jsnum \<Rightarrow> string" where
  "to_fixed d a = (case a of
       Fin x \<Rightarrow>
         if 10 ^ 21 \<le> \<bar>x\<bar> then num_string a
         else (let n = nat \<lfloor>\<bar>x\<bar> * 10 ^ d + 1/2\<rfloor>
               in (if x < 0 then CHR ''-'' # fixed_digits d n else fixed_digits d n))
     | _ \<Rightarrow> num_string a)"

subsection \<open>Integers survive the round trip\<close>

lemma digit_units: "is_digit c \<Longrightarrow> c \<noteq> CHR ''-'' \<and> c \<noteq> CHR ''+'' \<and> c \<noteq> CHR ''x'' \<and> c \<noteq> CHR ''X''
    \<and> c \<noteq> CHR ''o'' \<and> c \<noteq> CHR ''O'' \<and> c \<noteq> CHR ''b'' \<and> c \<noteq> CHR ''B'' \<and> c \<noteq> CHR ''I''"
  by (auto simp: is_digit_def)

lemma unsigned_decimal_digits:
  assumes "\<forall>c\<in>set s. is_digit c" "s \<noteq> []"
  shows "unsigned_decimal s = Some (of_nat (digits_val s))"
proof -
  have tw: "takeWhile is_digit s = s" and dw: "dropWhile is_digit s = []" using assms(1) by auto
  show ?thesis
    unfolding unsigned_decimal_def Let_def tw dw using assms(2) by (simp add: exponent_of_def)
qed

lemma decimal_number_digits:
  assumes "\<forall>c\<in>set s. is_digit c" "s \<noteq> []"
  shows "decimal_number s = to_num (of_nat (digits_val s))"
proof -
  obtain c t where s: "s = c # t" using assms(2) by (cases s) auto
  with assms(1) digit_units [of c] have "split_sign s = (False, s)" "s \<noteq> ''Infinity''"
    by (auto simp: split_sign_def)
  with unsigned_decimal_digits [OF assms] show ?thesis by (simp add: decimal_number_def)
qed

lemma string_to_number_digits:
  assumes "\<forall>c\<in>set s. is_digit c" "s \<noteq> []"
  shows "string_to_number s = to_num (of_nat (digits_val s))"
proof -
  have "\<not> is_space (hd s)" "\<not> is_space (last s)"
    using assms is_digit_not_space by auto
  then have t: "trim s = s" using assms(2) by (intro trim_id)
  have "decimal_number s = to_num (of_nat (digits_val s))" by (rule decimal_number_digits [OF assms])
  then show ?thesis
    using assms digit_units by (auto simp: string_to_number_def t split: list.split)
qed

lemma digit_char_zero: "digit_char 0 = CHR ''0''"
  by code_simp

lemma num_string_nat: "int n \<le> 2 ^ 53 \<Longrightarrow> num_string (Fin (of_nat n)) = nat_digits n"
proof -
  assume n: "int n \<le> 2 ^ 53"
  have "(of_nat n :: rat) = of_int (int n)" by simp
  also have "\<dots> \<le> of_int (2 ^ 53)" using n by (rule iffD2 [OF of_int_le_iff])
  finally have le: "(of_nat n :: rat) \<le> 2 ^ 53" by simp
  show ?thesis
  proof (cases "n = 0")
    case True
    then show ?thesis by (simp add: num_string_def nat_digits.simps digit_char_zero)
  next
    case False
    then show ?thesis using le by (simp add: num_string_def positive_string_def)
  qed
qed

lemma string_to_number_num_string:
  assumes "0 \<le> n" "n \<le> 2 ^ 53"
  shows "string_to_number (num_string (Fin (of_int n))) = Fin (of_int n)"
proof -
  obtain m where m: "n = int m" using assms(1) nonneg_int_cases by blast
  have "num_string (Fin (of_int n)) = nat_digits m"
    using num_string_nat [of m] assms by (simp add: m)
  moreover have "string_to_number (nat_digits m) = to_num (of_int n)"
    using string_to_number_digits [OF nat_digits_digits nat_digits_neq_Nil, of m] by (simp add: m)
  ultimately show ?thesis using assms to_num_of_int [of n] by simp
qed

end
