(* ===== verification/Ui.thy ===== *)
theory Ui
  imports Js_Convert
begin

text \<open>
  What the components render: a tree of elements with the attributes that carry behaviour
  (values, addresses, states for assistive technology, handlers) and text. Class names, icons
  and layout wrappers without content of their own are left out. A handler is data of the
  component's own type; what it does is a function of the component, and a parent names the
  handlers of a child with \<open>map_ui\<close>. A chart gets its rows as an attribute. \<open>opt\<close> is the
  \<open>cond ? x : null\<close> of JSX.
\<close>

datatype chart_value = CStr string | CNum jsnum

type_synonym chart_row = "(string \<times> chart_value) list"

datatype 'h attr = AStr string | ANum jsnum | ABool bool | AHandler 'h | ARows "chart_row list"

datatype 'h ui = Text string | El string "(string \<times> 'h attr) list" "'h ui list"

definition opt :: "bool \<Rightarrow> 'h ui \<Rightarrow> 'h ui list" where
  "opt c x = (if c then [x] else [])"

lemma opt_simps [simp]: "opt True x = [x]" "opt False x = []"
  by (simp_all add: opt_def)

lemma set_opt: "y \<in> set (opt c x) \<longleftrightarrow> c \<and> y = x"
  by (cases c) simp_all

text \<open>All elements of a tree, outermost first.\<close>

fun nodes :: "'h ui \<Rightarrow> 'h ui list" where
  "nodes (Text s) = [Text s]"
| "nodes (El n as cs) = El n as cs # concat (map nodes cs)"

fun node_attr :: "string \<Rightarrow> 'h ui \<Rightarrow> 'h attr option" where
  "node_attr k (Text s) = None"
| "node_attr k (El n as cs) = map_of as k"

fun node_is :: "string \<Rightarrow> 'h ui \<Rightarrow> bool" where
  "node_is n (Text s) = False"
| "node_is n (El m as cs) = (m = n)"

definition elements :: "string \<Rightarrow> 'h ui \<Rightarrow> 'h ui list" where
  "elements n u = filter (node_is n) (nodes u)"

text \<open>The addresses the links of a tree lead to, in order.\<close>

definition link_targets :: "'h ui \<Rightarrow> string list" where
  "link_targets u = concat (map (\<lambda>x. case node_attr ''to'' x of Some (AStr s) \<Rightarrow> [s] | _ \<Rightarrow> []) (elements ''Link'' u))"

definition node_texts :: "'h ui \<Rightarrow> string list" where
  "node_texts u = concat (map (\<lambda>x. case x of Text s \<Rightarrow> [s] | _ \<Rightarrow> []) (nodes u))"

definition button :: "bool \<Rightarrow> 'h \<Rightarrow> string \<Rightarrow> 'h ui" where
  "button dis h label = El ''Button'' [(''disabled'', ABool dis), (''onClick'', AHandler h)] [Text label]"

definition link :: "string \<Rightarrow> 'h ui list \<Rightarrow> 'h ui" where
  "link to cs = El ''Link'' [(''to'', AStr to)] cs"

definition badge :: "string \<Rightarrow> string \<Rightarrow> 'h ui" where
  "badge variant label = El ''Badge'' [(''variant'', AStr variant)] [Text label]"

definition el :: "string \<Rightarrow> 'h ui list \<Rightarrow> 'h ui" where
  "el n cs = El n [] cs"

definition skeleton :: "'h ui" where
  "skeleton = El ''Skeleton'' [] []"

text \<open>The dash shown for a missing value, and the ellipsis, as UTF-8.\<close>

definition dash :: string where
  "dash = [CHR 0xE2, CHR 0x80, CHR 0x94]"

definition ellipsis :: string where
  "ellipsis = [CHR 0xE2, CHR 0x80, CHR 0xA6]"

text \<open>Arguments of the translation function.\<close>

datatype targ = TStr string | TNum jsnum | TInt int

type_synonym translate = "string \<Rightarrow> (string \<times> targ) list \<Rightarrow> string"

end
