(* ===== verification/I18n.thy ===== *)
theory I18n
  imports Ui
begin

text \<open>
  \<open>i18n.ts\<close> and \<open>components/layout/language-switch.tsx\<close>: which language the panel starts in,
  and what changing it stores. Storage may refuse (\<open>localStorage\<close> throws when it is disabled),
  so it is a value that says whether it answers.
\<close>

definition LOCALE_KEY :: string where
  "LOCALE_KEY = ''argus.locale''"

definition locales :: "string list" where
  "locales = [''en'', ''pt-BR'']"

definition isAppLocale :: "string \<Rightarrow> bool" where
  "isAppLocale v \<longleftrightarrow> v = ''en'' \<or> v = ''pt-BR''"

text \<open>\<open>localStorage\<close>: None when every access throws.\<close>

type_synonym storage = "(string \<Rightarrow> string option) option"

definition storage_set :: "string \<Rightarrow> string \<Rightarrow> storage \<Rightarrow> storage" where
  "storage_set k v st = map_option (\<lambda>m. m(k \<mapsto> v)) st"

fun preferred_locale :: "string list \<Rightarrow> string" where
  "preferred_locale [] = ''en''"
| "preferred_locale (tag # tags) =
     (let lower = to_lower tag in
      if starts_with lower ''pt'' then ''pt-BR''
      else if starts_with lower ''en'' then ''en''
      else preferred_locale tags)"

text \<open>The browser's languages: None outside a browser; the list, or the single language.\<close>

definition navigator_tags :: "(string list option \<times> string) option \<Rightarrow> string list" where
  "navigator_tags nav = (case nav of None \<Rightarrow> [] | Some (languages, language) \<Rightarrow> coalesce languages [language])"

definition readStoredLocale :: "storage \<Rightarrow> (string list option \<times> string) option \<Rightarrow> string" where
  "readStoredLocale st nav =
     (case st of
        Some m \<Rightarrow>
          (case m LOCALE_KEY of
             Some raw \<Rightarrow> if raw \<noteq> [] \<and> isAppLocale raw then raw else preferred_locale (navigator_tags nav)
           | None \<Rightarrow> preferred_locale (navigator_tags nav))
      | None \<Rightarrow> preferred_locale (navigator_tags nav))"

definition localeBcp47 :: "string \<Rightarrow> string" where
  "localeBcp47 lng = (if lng = ''pt-BR'' then ''pt-BR'' else ''en'')"

text \<open>The listener of \<open>languageChanged\<close>: what is stored, and the language of the document.\<close>

definition language_changed :: "string \<Rightarrow> storage \<Rightarrow> storage \<times> string" where
  "language_changed lng st =
     (storage_set LOCALE_KEY (if isAppLocale lng then lng else ''en'') st, localeBcp47 lng)"

definition switch_current :: "string \<Rightarrow> string" where
  "switch_current language = (if starts_with language ''pt'' then ''pt-BR'' else ''en'')"

datatype switch_action = Set_Locale string

definition language_switch :: "translate \<Rightarrow> string \<Rightarrow> switch_action ui" where
  "language_switch t language =
     (let current = switch_current language in
      El ''div'' [(''role'', AStr ''group''), (''aria-label'', AStr (t ''shell.language'' []))]
        [El ''Button'' [(''variant'', AStr (if current = ''en'' then ''default'' else ''outline'')),
            (''aria-pressed'', ABool (current = ''en'')), (''onClick'', AHandler (Set_Locale ''en''))]
           [Text (t ''shell.en'' [])],
         El ''Button'' [(''variant'', AStr (if current = ''pt-BR'' then ''default'' else ''outline'')),
            (''aria-pressed'', ABool (current = ''pt-BR'')), (''onClick'', AHandler (Set_Locale ''pt-BR''))]
           [Text (t ''shell.pt'' [])]])"

subsection \<open>Start and session\<close>

text \<open>What the library is initialised with. The two catalogues are data; here they are their names.\<close>

record i18n_options =
  io_resources :: "(string \<times> string) list"
  io_lng :: string
  io_fallbackLng :: string
  io_escapeValue :: bool

definition i18n_init_options :: "storage \<Rightarrow> (string list option \<times> string) option \<Rightarrow> i18n_options" where
  "i18n_init_options st nav =
     \<lparr>io_resources = [(''en'', ''locales/en.json''), (''pt-BR'', ''locales/pt-BR.json'')],
      io_lng = readStoredLocale st nav, io_fallbackLng = ''en'', io_escapeValue = False\<rparr>"

record locale_session =
  se_language :: string
  se_storage :: storage
  se_html_lang :: string

text \<open>After the module is loaded; \<open>init_language\<close> is the language of the library after \<open>init\<close>.\<close>

definition i18n_start ::
  "(i18n_options \<Rightarrow> string) \<Rightarrow> storage \<Rightarrow> (string list option \<times> string) option \<Rightarrow> locale_session" where
  "i18n_start init_language st nav =
     (let lng = init_language (i18n_init_options st nav) in
      \<lparr>se_language = lng, se_storage = st, se_html_lang = localeBcp47 lng\<rparr>)"

text \<open>A click on the switch changes the language of the library, whose event runs the listener.\<close>

definition set_locale :: "switch_action \<Rightarrow> locale_session \<Rightarrow> locale_session" where
  "set_locale a s =
     (case a of Set_Locale lng \<Rightarrow>
        (let (st, html) = language_changed lng (se_storage s) in
         \<lparr>se_language = lng, se_storage = st, se_html_lang = html\<rparr>))"

lemma preferred_locale_app: "isAppLocale (preferred_locale tags)"
  by (induction tags) (auto simp: isAppLocale_def Let_def)

lemma readStoredLocale_app: "isAppLocale (readStoredLocale st nav)"
  by (auto simp: readStoredLocale_def preferred_locale_app split: option.split)

lemma localeBcp47_app: "isAppLocale (localeBcp47 lng)"
  by (simp add: localeBcp47_def isAppLocale_def)

lemma localeBcp47_no_bar: "CHR ''|'' \<notin> set (localeBcp47 lng)"
  by (simp add: localeBcp47_def)

subsection \<open>Properties\<close>

text \<open>The panel always starts in a language it has: the stored one when it is one of the
  two, and after the language is changed and storage works, the next start finds that language.\<close>

theorem stored_locale_round_trip:
  "isAppLocale (readStoredLocale st nav)
   \<and> readStoredLocale (fst (language_changed lng (Some m))) nav = (if isAppLocale lng then lng else ''en'')"
  by (simp add: readStoredLocale_app) (auto simp: readStoredLocale_def language_changed_def storage_set_def isAppLocale_def)

text \<open>What the buttons of a tree do when clicked; the session runs what the switch offers.\<close>

definition click_handlers :: "'h ui \<Rightarrow> 'h list" where
  "click_handlers u = concat (map (\<lambda>x. case node_attr ''onClick'' x of Some (AHandler h) \<Rightarrow> [h] | _ \<Rightarrow> []) (elements ''Button'' u))"

inductive locale_reach :: "(i18n_options \<Rightarrow> string) \<Rightarrow> storage \<Rightarrow> (string list option \<times> string) option \<Rightarrow> locale_session \<Rightarrow> bool"
  for init_language st nav where
  start: "locale_reach init_language st nav (i18n_start init_language st nav)"
| click: "locale_reach init_language st nav s \<Longrightarrow> a \<in> set (click_handlers (language_switch t (se_language s))) \<Longrightarrow> locale_reach init_language st nav (set_locale a s)"

lemma handlers_of_switch: "set (click_handlers (language_switch t lng)) = {Set_Locale ''en'', Set_Locale ''pt-BR''}"
  by (simp add: language_switch_def click_handlers_def elements_def Let_def)

lemma readStoredLocale_stored:
  "isAppLocale lng \<Longrightarrow> m LOCALE_KEY = Some lng \<Longrightarrow> readStoredLocale (Some m) nav = lng"
  by (auto simp: readStoredLocale_def isAppLocale_def)

text \<open>C19. In every state a session can reach, the language is one the panel has, the document says it, the switch
  shows it as the pressed one, and a start from the storage at that moment finds it again when storage
  works; when it does not, the session still runs.\<close>

theorem locale_session_type:
  assumes "locale_reach init_language st nav s" "\<And>options. init_language options = io_lng options"
  shows "se_language s \<in> set locales \<and> se_html_lang s = se_language s \<and> switch_current (se_language s) = se_language s
    \<and> (se_storage s \<noteq> None \<longrightarrow> se_language (i18n_start init_language (se_storage s) nav) = se_language s)
    \<and> (se_storage s = None \<longleftrightarrow> st = None)"
  using assms(1)
proof induction
  case start
  have a: "isAppLocale (readStoredLocale st nav)" by (rule readStoredLocale_app)
  then show ?case
    by (auto simp: i18n_start_def assms(2) i18n_init_options_def isAppLocale_def locales_def localeBcp47_def switch_current_def Let_def)
next
  case (click s a t)
  then obtain lng where a: "a = Set_Locale lng" "isAppLocale lng" by (auto simp: handlers_of_switch isAppLocale_def)
  then have t: "lng \<in> set locales" "localeBcp47 lng = lng" "switch_current lng = lng"
    by (auto simp: isAppLocale_def locales_def localeBcp47_def switch_current_def)
  have r: "readStoredLocale (Some (m(LOCALE_KEY \<mapsto> lng))) nav = lng" for m
    by (rule readStoredLocale_stored [OF a(2)]) simp
  show ?case using click.IH t r a
    by (cases "se_storage s") (simp_all add: set_locale_def language_changed_def storage_set_def i18n_start_def assms(2) i18n_init_options_def Let_def)
qed

lemma locale_session_type_witness:
  "se_html_lang (set_locale (Set_Locale ''pt-BR'') (i18n_start io_lng (Some Map.empty) None)) = ''pt-BR''
   \<and> se_language (i18n_start io_lng (se_storage (set_locale (Set_Locale ''pt-BR'') (i18n_start io_lng (Some Map.empty) None))) None) = ''pt-BR''"
proof -
  let ?s = "set_locale (Set_Locale ''pt-BR'') (i18n_start io_lng (Some Map.empty) None)"
  have "locale_reach io_lng (Some Map.empty) None ?s"
    by (intro locale_reach.intros) (simp add: handlers_of_switch)
  from locale_session_type [OF this refl] show ?thesis
    by (simp add: set_locale_def language_changed_def storage_set_def)
qed

end
