(* ===== verification/Url.thy ===== *)
theory Url
  imports Js_Array Js_String
begin

text \<open>
  What the language's library provides for addresses: \<open>encodeURIComponent\<close>, and the
  serialiser of \<open>URLSearchParams\<close> with the parser of the same format. The panel builds every
  request and every link from these; the last lemma says that what is written is read back.
\<close>

subsection \<open>Percent-encoding\<close>

definition hex_digit :: "nat \<Rightarrow> char" where
  "hex_digit n = char_of (if n < 10 then 48 + n else 55 + n)"

definition hex_val :: "char \<Rightarrow> nat option" where
  "hex_val c = (let n = code_unit c in
     if 48 \<le> n \<and> n \<le> 57 then Some (n - 48)
     else if 65 \<le> n \<and> n \<le> 70 then Some (n - 55)
     else if 97 \<le> n \<and> n \<le> 102 then Some (n - 87) else None)"

definition utf8 :: "char \<Rightarrow> nat list" where
  "utf8 c = (let n = code_unit c in if n < 128 then [n] else [192 + n div 64, 128 + n mod 64])"

definition percent_byte :: "nat \<Rightarrow> string" where
  "percent_byte b = [CHR ''%'', hex_digit (b div 16), hex_digit (b mod 16)]"

definition percent_char :: "char \<Rightarrow> string" where
  "percent_char c = concat (map percent_byte (utf8 c))"

definition is_alnum :: "char \<Rightarrow> bool" where
  "is_alnum c = (let n = code_unit c in
     (48 \<le> n \<and> n \<le> 57) \<or> (65 \<le> n \<and> n \<le> 90) \<or> (97 \<le> n \<and> n \<le> 122))"

definition encodeURIComponent :: "string \<Rightarrow> string" where
  "encodeURIComponent s =
     concat (map (\<lambda>c. if is_alnum c \<or> c \<in> set ''-_.!~*'' \<or> code_unit c \<in> {39, 40, 41}
                      then [c] else percent_char c) s)"

definition form_char :: "char \<Rightarrow> string" where
  "form_char c = (if is_alnum c \<or> c \<in> set ''*-._'' then [c]
                  else if c = CHR '' '' then ''+'' else percent_char c)"

definition form_encode :: "string \<Rightarrow> string" where
  "form_encode s = concat (map form_char s)"

type_synonym params = "(string \<times> string) list"

text \<open>\<open>URLSearchParams.prototype.toString\<close>.\<close>

definition params_string :: "params \<Rightarrow> string" where
  "params_string ps = join ''&'' (map (\<lambda>(k, v). form_encode k @ ''='' @ form_encode v) ps)"

text \<open>The parser of the same format, with None for text outside the modelled characters.\<close>

fun percent_decode :: "string \<Rightarrow> nat list" where
  "percent_decode (c # h # l # s) =
     (if c = CHR ''%'' then
        case (hex_val h, hex_val l) of
          (Some a, Some b) \<Rightarrow> (16 * a + b) # percent_decode s
        | _ \<Rightarrow> code_unit c # percent_decode (h # l # s)
      else code_unit c # percent_decode (h # l # s))"
| "percent_decode (c # s) = code_unit c # percent_decode s"
| "percent_decode [] = []"

fun utf8_decode :: "nat list \<Rightarrow> string option" where
  "utf8_decode [] = Some []"
| "utf8_decode (b # bs) =
     (if b < 128 then map_option ((#) (char_of b)) (utf8_decode bs)
      else if b = 194 \<or> b = 195 then
        (case bs of
           t # ts \<Rightarrow> if 128 \<le> t \<and> t < 192
                     then map_option ((#) (char_of ((b - 192) * 64 + (t - 128)))) (utf8_decode ts)
                     else None
         | [] \<Rightarrow> None)
      else None)"

definition form_decode :: "string \<Rightarrow> string option" where
  "form_decode s = utf8_decode (percent_decode (map (\<lambda>c. if c = CHR ''+'' then CHR '' '' else c) s))"

definition parse_pair :: "string \<Rightarrow> (string \<times> string) option" where
  "parse_pair s =
     (let k = takeWhile (\<lambda>c. c \<noteq> CHR ''='') s; v = drop (Suc (length k)) s
      in case (form_decode k, form_decode v) of (Some a, Some b) \<Rightarrow> Some (a, b) | _ \<Rightarrow> None)"

fun sequence :: "'a option list \<Rightarrow> 'a list option" where
  "sequence [] = Some []"
| "sequence (None # xs) = None"
| "sequence (Some x # xs) = map_option ((#) x) (sequence xs)"

definition parse_query :: "string \<Rightarrow> params option" where
  "parse_query s = sequence (map parse_pair (filter (\<lambda>p. p \<noteq> []) (split_on (CHR ''&'') s)))"

lemma code_unit_less: "code_unit c < 256"
  by (rule nat_of_char_less_256)

lemma code_unit_div: "code_unit c div 64 < 4"
proof -
  have "code_unit c < 4 * 64" using code_unit_less [of c] by simp
  then show ?thesis by (rule less_mult_imp_div_less)
qed

lemma hex_val_digit [simp]: "n < 16 \<Longrightarrow> hex_val (hex_digit n) = Some n"
  by (auto simp: hex_val_def hex_digit_def Let_def)

lemma percent_decode_byte [simp]:
  "b < 256 \<Longrightarrow> percent_decode (percent_byte b @ s) = b # percent_decode s"
  by (simp add: percent_byte_def)

lemma percent_decode_plain: "c \<noteq> CHR ''%'' \<Longrightarrow> percent_decode (c # s) = code_unit c # percent_decode s"
  by (cases s; cases "tl s") auto

lemma utf8_bytes: "b \<in> set (utf8 c) \<Longrightarrow> b < 256"
proof -
  assume b: "b \<in> set (utf8 c)"
  with code_unit_div [of c] show ?thesis by (auto simp: utf8_def Let_def split: if_splits)
qed

lemma percent_decode_bytes:
  "\<forall>b\<in>set bs. b < 256 \<Longrightarrow> percent_decode (concat (map percent_byte bs) @ s) = bs @ percent_decode s"
  by (induction bs) auto

lemma percent_decode_char: "percent_decode (percent_char c @ s) = utf8 c @ percent_decode s"
  using utf8_bytes unfolding percent_char_def by (intro percent_decode_bytes) blast

lemma utf8_decode_char: "utf8_decode (utf8 c @ bs) = map_option ((#) c) (utf8_decode bs)"
proof (cases "code_unit c < 128")
  case True
  then show ?thesis by (simp add: utf8_def)
next
  case False
  let ?n = "code_unit c"
  have d: "?n div 64 = 2 \<or> ?n div 64 = 3"
  proof -
    have "128 div 64 \<le> ?n div 64" using False by (intro div_le_mono) simp
    with code_unit_div [of c] show ?thesis by linarith
  qed
  have e: "(?n div 64) * 64 + ?n mod 64 = ?n" by (rule div_mult_mod_eq)
  have c: "char_of ((?n div 64) * 64 + ?n mod 64) = c" unfolding e by simp
  have u: "utf8 c = [192 + ?n div 64, 128 + ?n mod 64]" using False by (simp add: utf8_def Let_def)
  have t: "\<not> 192 + ?n div 64 < 128" "192 + ?n div 64 = 194 \<or> 192 + ?n div 64 = 195"
    "128 \<le> 128 + ?n mod 64" "128 + ?n mod 64 < 192" using d by auto
  have "utf8_decode ([b, w] @ bs) = map_option ((#) (char_of ((b - 192) * 64 + (w - 128)))) (utf8_decode bs)"
    if "\<not> b < 128" "b = 194 \<or> b = 195" "128 \<le> w" "w < 192" for b w
    using that by simp
  from this [OF t] show ?thesis unfolding u using c by simp
qed

lemma alnum_cases:
  assumes "is_alnum c \<or> c \<in> set ''*-._''"
  shows "c \<noteq> CHR ''%''" "c \<noteq> CHR ''+''" "c \<noteq> CHR ''&''" "c \<noteq> CHR ''=''" "utf8 c = [code_unit c]"
  using assms by (auto simp: is_alnum_def utf8_def Let_def)

lemma hex_digit_range:
  "n < 16 \<Longrightarrow> hex_digit n \<noteq> CHR ''+'' \<and> hex_digit n \<noteq> CHR ''&'' \<and> hex_digit n \<noteq> CHR ''=''"
proof -
  assume n: "n < 16"
  then have "hex_val (hex_digit n) \<noteq> None" by simp
  then show ?thesis by (auto simp: hex_val_def)
qed

lemma percent_byte_chars: "b < 256 \<Longrightarrow> set (percent_byte b) \<inter> {CHR ''+'', CHR ''&'', CHR ''=''} = {}"
  using hex_digit_range [of "b div 16"] hex_digit_range [of "b mod 16"]
  by (auto simp: percent_byte_def)

lemma percent_char_chars: "set (percent_char c) \<inter> {CHR ''+'', CHR ''&'', CHR ''=''} = {}"
  using percent_byte_chars utf8_bytes [of _ c] unfolding percent_char_def by auto

lemma form_char_chars: "CHR ''&'' \<notin> set (form_char c)" "CHR ''='' \<notin> set (form_char c)"
  using percent_char_chars [of c] alnum_cases [of c] by (auto simp: form_char_def split: if_splits)

lemma form_encode_chars: "CHR ''&'' \<notin> set (form_encode s)" "CHR ''='' \<notin> set (form_encode s)"
  using form_char_chars by (auto simp: form_encode_def)

lemma form_decode_encode [simp]: "form_decode (form_encode s) = Some s"
proof -
  let ?u = "map (\<lambda>c. if c = CHR ''+'' then CHR '' '' else c)"
  have pc: "?u (percent_char c) = percent_char c" for c
    using percent_char_chars [of c] by (intro map_idI) auto
  have step: "percent_decode (?u (form_char c) @ t) = utf8 c @ percent_decode t" for c t
  proof (cases "is_alnum c \<or> c \<in> set ''*-._''")
    case True
    then have "form_char c = [c]" by (simp add: form_char_def)
    with alnum_cases [OF True] show ?thesis by (simp add: percent_decode_plain)
  next
    case False
    show ?thesis
    proof (cases "c = CHR '' ''")
      case True
      with False show ?thesis by (simp add: form_char_def percent_decode_plain utf8_def)
    next
      case F2: False
      with False have "form_char c = percent_char c" by (auto simp: form_char_def)
      then show ?thesis by (simp only: pc percent_decode_char)
    qed
  qed
  have "utf8_decode (percent_decode (?u (form_encode s))) = Some s"
    by (induction s) (simp_all add: form_encode_def step utf8_decode_char)
  then show ?thesis by (simp add: form_decode_def)
qed

lemma parse_pair_encode: "parse_pair (form_encode k @ ''='' @ form_encode v) = Some (k, v)"
proof -
  have "takeWhile (\<lambda>c. c \<noteq> CHR ''='') (form_encode k @ ''='' @ form_encode v) = form_encode k"
    using form_encode_chars(2) [of k] by (subst takeWhile_append2) auto
  then show ?thesis by (simp add: parse_pair_def)
qed

text \<open>What \<open>toString\<close> writes, the parser reads back.\<close>

lemma parse_params_string: "parse_query (params_string ps) = Some ps"
proof (cases "ps = []")
  case True
  then show ?thesis by (simp add: parse_query_def params_string_def)
next
  case False
  let ?enc = "\<lambda>(k, v). form_encode k @ ''='' @ form_encode v"
  have "\<forall>x\<in>set (map ?enc ps). CHR ''&'' \<notin> set x"
    using form_encode_chars(1) by auto
  then have "split_on (CHR ''&'') (params_string ps) = map ?enc ps"
    unfolding params_string_def using False by (intro split_on_join) auto
  moreover have "filter (\<lambda>p. p \<noteq> []) (map ?enc ps) = map ?enc ps"
    by (rule filter_True) auto
  moreover have "sequence (map parse_pair (map ?enc ps)) = Some ps"
    using parse_pair_encode by (induction ps) auto
  ultimately show ?thesis by (simp add: parse_query_def)
qed

subsection \<open>Encoded values\<close>

lemma uri_plain_cases:
  assumes "is_alnum c \<or> c \<in> set ''-_.!~*'' \<or> code_unit c \<in> {39, 40, 41}"
  shows "c \<noteq> CHR ''%''" "c \<noteq> CHR ''+''" "c \<noteq> CHR ''&''" "c \<noteq> CHR ''=''" "utf8 c = [code_unit c]"
  using assms by (auto simp: is_alnum_def utf8_def Let_def)

definition uri_char :: "char \<Rightarrow> string" where
  "uri_char c = (if is_alnum c \<or> c \<in> set ''-_.!~*'' \<or> code_unit c \<in> {39, 40, 41} then [c] else percent_char c)"

lemma encodeURIComponent_uri: "encodeURIComponent s = concat (map uri_char s)"
  unfolding encodeURIComponent_def uri_char_def by (rule refl)

lemma uri_char_chars: "CHR ''&'' \<notin> set (uri_char c)" "CHR ''='' \<notin> set (uri_char c)"
  using uri_plain_cases(3,4) [of c] percent_char_chars [of c] by (auto simp: uri_char_def split: if_splits)

lemma encodeURIComponent_chars: "CHR ''&'' \<notin> set (encodeURIComponent s)" "CHR ''='' \<notin> set (encodeURIComponent s)"
  using uri_char_chars by (auto simp: encodeURIComponent_uri)

lemma form_decode_uri: "form_decode (encodeURIComponent s) = Some s"
proof -
  let ?p = "\<lambda>c. is_alnum c \<or> c \<in> set ''-_.!~*'' \<or> code_unit c \<in> {39, 40, 41}"
  let ?u = "map (\<lambda>c. if c = CHR ''+'' then CHR '' '' else c)"
  have step: "percent_decode (?u (uri_char c) @ r) = utf8 c @ percent_decode r" for c r
  proof (cases "?p c")
    case True
    then have "uri_char c = [c]" by (simp add: uri_char_def)
    with uri_plain_cases [OF True] show ?thesis by (simp add: percent_decode_plain)
  next
    case False
    then have "uri_char c = percent_char c" by (simp add: uri_char_def)
    moreover have "?u (percent_char c) = percent_char c" using percent_char_chars [of c] by (intro map_idI) auto
    ultimately show ?thesis by (simp only: percent_decode_char)
  qed
  have "utf8_decode (percent_decode (?u (concat (map uri_char s)))) = Some s"
    by (induction s) (simp_all add: step utf8_decode_char)
  then show ?thesis by (simp add: form_decode_def encodeURIComponent_uri)
qed

text \<open>Text that stands for itself in a query.\<close>

definition self_coded :: "string \<Rightarrow> bool" where
  "self_coded s \<longleftrightarrow> (\<forall>c\<in>set s. code_unit c < 128 \<and> c \<notin> set ''%+&='')"

lemma form_decode_self: "self_coded s \<Longrightarrow> form_decode s = Some s"
proof -
  assume s: "self_coded s"
  then have "map (\<lambda>c. if c = CHR ''+'' then CHR '' '' else c) s = s" by (intro map_idI) (auto simp: self_coded_def)
  moreover have "utf8_decode (percent_decode s) = Some s"
    using s by (induction s) (simp_all add: self_coded_def percent_decode_plain)
  ultimately show ?thesis by (simp add: form_decode_def)
qed

lemma self_coded_chars: "self_coded s \<Longrightarrow> CHR ''&'' \<notin> set s" "self_coded s \<Longrightarrow> CHR ''='' \<notin> set s"
  by (auto simp: self_coded_def)

subsection \<open>Queries written by hand\<close>

text \<open>What a template with encoded parts denotes to the parser.\<close>

definition coded :: "string \<Rightarrow> string \<Rightarrow> bool" where
  "coded s v \<longleftrightarrow> form_decode s = Some v \<and> CHR ''&'' \<notin> set s"

lemma coded_intros: "coded (encodeURIComponent s) s" "self_coded s \<Longrightarrow> coded s s"
  by (simp_all add: coded_def form_decode_uri form_decode_self encodeURIComponent_chars self_coded_chars)

definition query_text :: "(string \<times> string) list \<Rightarrow> string" where
  "query_text kvs = join ''&'' (map (\<lambda>(k, v). k @ ''='' @ v) kvs)"

lemma parse_pair_coded: "self_coded k \<Longrightarrow> coded v w \<Longrightarrow> parse_pair (k @ ''='' @ v) = Some (k, w)"
proof -
  assume k: "self_coded k" and v: "coded v w"
  have "takeWhile (\<lambda>c. c \<noteq> CHR ''='') (k @ ''='' @ v) = k"
    using self_coded_chars(2) [OF k] by (subst takeWhile_append2) auto
  then show ?thesis using v by (simp add: parse_pair_def form_decode_self [OF k] coded_def)
qed

lemma parse_query_text:
  assumes "kvs \<noteq> []" "list_all2 (\<lambda>(k, v) (k', w). k' = k \<and> self_coded k \<and> coded v w) kvs ps"
  shows "parse_query (query_text kvs) = Some ps"
proof -
  let ?t = "\<lambda>(k, v). k @ ''='' @ v"
  have pairs: "sequence (map parse_pair (map ?t kvs)) = Some ps"
    using assms(2) by (induction rule: list_all2_induct) (auto simp: parse_pair_coded [simplified])
  have "\<forall>x\<in>set (map ?t kvs). CHR ''&'' \<notin> set x"
    using assms(2) by (induction rule: list_all2_induct) (auto simp: coded_def self_coded_chars)
  then have "split_on (CHR ''&'') (query_text kvs) = map ?t kvs"
    unfolding query_text_def using assms(1) by (intro split_on_join) auto
  moreover have "filter (\<lambda>p. p \<noteq> []) (map ?t kvs) = map ?t kvs" by (rule filter_True) auto
  ultimately show ?thesis using pairs by (simp add: parse_query_def)
qed

end
