(* ===== verification/Query.thy ===== *)
theory Query
  imports Url
begin

text \<open>
  The address bar as state: the operations of \<open>URLSearchParams\<close>, the hooks of
  \<open>hooks/use-query-state.ts\<close> every page keeps its filters with, \<open>RedirectWithParams\<close> of
  \<open>components/layout/redirect.tsx\<close>, the route table of \<open>App.tsx\<close>, and the effect the list
  pages share that returns to the first page when a filter changes. The contract of a query
  string (\<open>query_store\<close>) is a locale met by the list of pairs that \<open>URLSearchParams\<close> keeps;
  what a patch does is proved once inside it.
\<close>

subsection \<open>The operations of URLSearchParams\<close>

definition params_get :: "params \<Rightarrow> string \<Rightarrow> string option" where
  "params_get ps k = map_of ps k"

definition params_has :: "params \<Rightarrow> string \<Rightarrow> bool" where
  "params_has ps k = (k \<in> set (map fst ps))"

definition params_delete :: "string \<Rightarrow> params \<Rightarrow> params" where
  "params_delete k ps = filter (\<lambda>(k', _). k' \<noteq> k) ps"

text \<open>\<open>set\<close> rewrites the first pair of that name, drops the others, and appends when there is
  none.\<close>

fun params_set :: "string \<Rightarrow> string \<Rightarrow> params \<Rightarrow> params" where
  "params_set k v [] = [(k, v)]"
| "params_set k v ((k', v') # ps) =
     (if k' = k then (k, v) # params_delete k ps else (k', v') # params_set k v ps)"

locale query_store =
  fixes get :: "'q \<Rightarrow> string \<Rightarrow> string option"
    and put :: "string \<Rightarrow> string \<Rightarrow> 'q \<Rightarrow> 'q"
    and delete :: "string \<Rightarrow> 'q \<Rightarrow> 'q"
  assumes get_put: "get (put k v q) k' = (if k' = k then Some v else get q k')"
    and get_delete: "get (delete k q) k' = (if k' = k then None else get q k')"
begin

text \<open>A loop that, for each entry, deletes the name or stores the value.\<close>

lemma get_fold_other:
  "k \<notin> fst ` set p \<Longrightarrow>
   get (foldl (\<lambda>q (k, v). if omit k v then delete k q else put k (val v) q) q p) k = get q k"
  by (induction p arbitrary: q) (auto simp: get_put get_delete)

lemma get_fold:
  "distinct (map fst p) \<Longrightarrow>
   get (foldl (\<lambda>q (k, v). if omit k v then delete k q else put k (val v) q) q p) k
     = (case map_of p k of None \<Rightarrow> get q k
        | Some v \<Rightarrow> if omit k v then None else Some (val v))"
proof (induction p arbitrary: q)
  case Nil
  then show ?case by simp
next
  case (Cons e p)
  obtain k' v' where e: "e = (k', v')" by (cases e)
  show ?case
  proof (cases "k = k'")
    case True
    with Cons.prems e show ?thesis by (auto simp: get_fold_other get_put get_delete)
  next
    case False
    with Cons e show ?thesis by (simp add: get_put get_delete split: option.split)
  qed
qed

text \<open>A loop that stores only the names that are missing.\<close>

lemma get_fold_missing:
  "get (foldl (\<lambda>q (k, v). if get q k \<noteq> None then q else put k v q) q p) k
     = (case get q k of Some v \<Rightarrow> Some v | None \<Rightarrow> map_of p k)"
proof (induction p arbitrary: q)
  case Nil
  then show ?case by (simp split: option.split)
next
  case (Cons e p)
  obtain k' v' where e: "e = (k', v')" by (cases e)
  show ?case
  proof (cases "get q k'")
    case None
    then show ?thesis unfolding e by (simp add: Cons.IH get_put del: not_None_eq split: option.split)
  next
    case (Some w)
    then show ?thesis unfolding e by (simp add: Cons.IH del: not_None_eq split: option.split)
  qed
qed

end

lemma params_get_delete: "params_get (params_delete k ps) k' = (if k' = k then None else params_get ps k')"
  by (induction ps) (auto simp: params_get_def params_delete_def)

lemma params_get_set: "params_get (params_set k v ps) k' = (if k' = k then Some v else params_get ps k')"
proof (induction k v ps rule: params_set.induct)
  case (1 k v)
  then show ?case by (simp add: params_get_def)
next
  case (2 k v l w ps)
  then show ?case using params_get_delete [of k ps k'] by (auto simp: params_get_def)
qed

interpretation url: query_store params_get params_set params_delete
  by unfold_locales (rule params_get_set params_get_delete)+

lemma params_has_iff: "params_has ps k \<longleftrightarrow> params_get ps k \<noteq> None"
  unfolding params_has_def params_get_def map_of_eq_None_iff by simp

subsection \<open>The hooks\<close>

text \<open>A patch names the parameters to change; None stands for null and undefined.\<close>

type_synonym patch = "(string \<times> string option) list"

definition elided :: "(string \<times> string) list \<Rightarrow> string \<Rightarrow> string option \<Rightarrow> bool" where
  "elided defaults key value =
     (case value of None \<Rightarrow> True | Some v \<Rightarrow> v = [] \<or> map_of defaults key = Some v)"

definition query_patch :: "patch \<Rightarrow> (string \<times> string) list \<Rightarrow> params \<Rightarrow> params" where
  "query_patch patch defaults prev =
     foldl (\<lambda>next (key, value).
              if elided defaults key value then params_delete key next
              else params_set key (the value) next) prev patch"

definition query_value :: "string \<Rightarrow> string \<Rightarrow> params \<Rightarrow> string" where
  "query_value key fallback ps = coalesce (params_get ps key) fallback"

definition query_set :: "string \<Rightarrow> string \<Rightarrow> string \<Rightarrow> params \<Rightarrow> params" where
  "query_set key fallback next ps = query_patch [(key, Some next)] [(key, fallback)] ps"

lemma params_get_patch:
  assumes "distinct (map fst p)"
  shows "params_get (query_patch p d ps) k =
    (case map_of p k of None \<Rightarrow> params_get ps k
     | Some v \<Rightarrow> if elided d k v then None else v)"
proof -
  have "params_get (query_patch p d ps) k =
      (case map_of p k of None \<Rightarrow> params_get ps k
       | Some v \<Rightarrow> if elided d k v then None else Some (the v))"
    unfolding query_patch_def by (rule url.get_fold [OF assms])
  then show ?thesis by (auto simp: elided_def split: option.splits)
qed

lemma query_value_set:
  "query_value key fallback (query_set key fallback v ps) = (if v = [] then fallback else v)"
  by (simp add: query_value_def query_set_def params_get_patch elided_def)

lemma query_value_set_other:
  "k \<noteq> key \<Longrightarrow> query_value k fb (query_set key fallback v ps) = query_value k fb ps"
  by (simp add: query_value_def query_set_def params_get_patch)

text \<open>A parameter at its default is not in the address.\<close>

lemma query_set_default: "params_get (query_set key fallback fallback ps) key = None"
  by (simp add: query_set_def params_get_patch elided_def)

subsection \<open>Back to the first page\<close>

text \<open>
  \<open>ContainersPage\<close>, \<open>LogLines\<close>, \<open>LogPatterns\<close>, \<open>TraceList\<close> and \<open>EventHistory\<close> keep the last
  filter they have seen in a ref, and set the page back when an effect finds another one.
\<close>

definition page_reset :: "string \<Rightarrow> string \<times> params \<Rightarrow> string \<times> params" where
  "page_reset filterKey st =
     (let (seen, ps) = st in
      if seen = filterKey then (seen, ps)
      else (filterKey, query_set ''page'' ''1'' ''1'' ps))"

lemma page_reset_idem: "page_reset key (page_reset key st) = page_reset key st"
  by (auto simp: page_reset_def Let_def split: prod.splits)

subsection \<open>Redirects and routes\<close>

definition redirect_params :: "(string \<times> string) list \<Rightarrow> params \<Rightarrow> params" where
  "redirect_params params search =
     foldl (\<lambda>s (key, value). if params_has s key then s else params_set key value s) search params"

definition redirect_target :: "string \<Rightarrow> (string \<times> string) list \<Rightarrow> params \<Rightarrow> string" where
  "redirect_target to params search =
     (let qs = params_string (redirect_params params search)
      in to @ (if qs \<noteq> [] then ''?'' @ qs else []))"

datatype page = OverviewPage | ProblemsPage | ContainersPage | MetricsPage | LogsPage
  | TracesPage | TopologyPage

datatype route = Render page | Redirect string "(string \<times> string) list" | NavigateHome

text \<open>The path as the router compares it: without its slashes at the ends, in lower case.\<close>

definition app_route :: "string \<Rightarrow> route" where
  "app_route path =
     (if path = '''' then Render OverviewPage
      else if path = ''problems'' then Render ProblemsPage
      else if path = ''containers'' then Render ContainersPage
      else if path = ''metrics'' then Render MetricsPage
      else if path = ''logs'' then Render LogsPage
      else if path = ''traces'' then Render TracesPage
      else if path = ''topology'' then Render TopologyPage
      else if path = ''workloads'' then Redirect ''/containers'' []
      else if path = ''fleet'' then Redirect ''/containers'' [(''view'', ''table'')]
      else if path = ''groups'' then Redirect ''/containers'' [(''panel'', ''groups'')]
      else if path = ''explorer'' then Redirect ''/metrics'' [(''mode'', ''compare'')]
      else if path = ''patterns'' then Redirect ''/logs'' [(''mode'', ''patterns'')]
      else if path = ''insights'' then Redirect ''/problems'' []
      else if path = ''slos'' then Redirect ''/problems'' [(''tab'', ''slos'')]
      else if path = ''events'' then Redirect ''/problems'' [(''tab'', ''history'')]
      else NavigateHome)"

text \<open>One navigation: the page shown, or the address the redirect replaces it with.\<close>

definition navigate :: "string \<times> params \<Rightarrow> (string \<times> params) + page" where
  "navigate loc =
     (case app_route (fst loc) of
        Render p \<Rightarrow> Inr p
      | Redirect to params \<Rightarrow> Inl (tl to, redirect_params params (snd loc))
      | NavigateHome \<Rightarrow> Inl ('''', []))"

lemma params_get_redirect:
  "params_get (redirect_params d ps) k =
     (case params_get ps k of Some v \<Rightarrow> Some v | None \<Rightarrow> map_of d k)"
  unfolding redirect_params_def params_has_iff by (rule url.get_fold_missing)

lemma parse_redirect_target:
  "parse_query (params_string (redirect_params d ps)) = Some (redirect_params d ps)"
  by (rule parse_params_string)

lemma navigate_twice: "navigate loc = Inl loc' \<Longrightarrow> \<exists>p. navigate loc' = Inr p"
  by (auto simp: navigate_def app_route_def split: if_splits)

subsection \<open>Properties\<close>

text \<open>Changing several filters at once sets each of them to its new value, takes those that
  are empty, missing or at their default out of the address, and keeps every other parameter.\<close>

theorem query_patch_functional:
  assumes "distinct (map fst p)"
  shows "params_get (query_patch p d ps) k =
    (case map_of p k of None \<Rightarrow> params_get ps k
     | Some v \<Rightarrow> if elided d k v then None else v)"
  using assms by (rule params_get_patch)

lemma query_patch_functional_witness:
  "params_get (query_patch [(''mode'', Some ''compare''), (''page'', None)] [(''mode'', ''now'')]
     [(''page'', ''3''), (''q'', ''x'')]) ''q'' = Some ''x''"
  using query_patch_functional
    [of "[(''mode'', Some ''compare''), (''page'', None)]" "[(''mode'', ''now'')]" "[(''page'', ''3''), (''q'', ''x'')]" "''q''"]
  by (simp add: params_get_def)

text \<open>C38. An old address is redirected once: the address it leads to is rendered, and in its
  query every parameter of the old address keeps its value while the ones the redirect adds are
  there when the old address did not have them.\<close>

theorem redirect_once:
  assumes "app_route path = Redirect to d"
  shows "\<exists>p. navigate (path, ps) = Inl (tl to, redirect_params d ps)
           \<and> navigate (tl to, redirect_params d ps) = Inr p
           \<and> parse_query (params_string (redirect_params d ps)) = Some (redirect_params d ps)
           \<and> (\<forall>k. params_get (redirect_params d ps) k
                 = (case params_get ps k of Some v \<Rightarrow> Some v | None \<Rightarrow> map_of d k))"
proof -
  have "navigate (path, ps) = Inl (tl to, redirect_params d ps)" using assms by (simp add: navigate_def)
  with navigate_twice [OF this] show ?thesis
    using params_get_redirect parse_redirect_target by blast
qed

lemma redirect_once_witness:
  "\<exists>p. navigate (''slos'', [(''group'', ''g1'')]) = Inl (tl ''/problems'', redirect_params [(''tab'', ''slos'')] [(''group'', ''g1'')])
     \<and> navigate (tl ''/problems'', redirect_params [(''tab'', ''slos'')] [(''group'', ''g1'')]) = Inr p
     \<and> parse_query (params_string (redirect_params [(''tab'', ''slos'')] [(''group'', ''g1'')]))
         = Some (redirect_params [(''tab'', ''slos'')] [(''group'', ''g1'')])
     \<and> (\<forall>k. params_get (redirect_params [(''tab'', ''slos'')] [(''group'', ''g1'')]) k
           = (case params_get [(''group'', ''g1'')] k of Some v \<Rightarrow> Some v | None \<Rightarrow> map_of [(''tab'', ''slos'')] k))"
  by (rule redirect_once) (simp add: app_route_def)

end
