(* ===== verification/Page.thy ===== *)
theory Page
  imports Query Json
begin

text \<open>
  \<open>lib/page.ts\<close> and the pager \<open>components/list-pager.tsx\<close>: the page number read from the
  address, the slice of rows a page shows, and the list page the hub returns. The code computes
  with numbers; \<open>pageSlice_eq\<close> shows that for arrays of fewer than \<open>2^32\<close> rows
  this is exact arithmetic on integers, and the other lemmas are about that specification.
\<close>

subsection \<open>Responses of unknown shape\<close>

text \<open>
  The body of a response whose shape the client examines: an array of rows, an object some of
  whose members may be such arrays, or anything else. Rows are opaque here, as the client's
  cast leaves them.
\<close>

datatype 'a field = Rows_Field "'a list" | Value_Field json

datatype 'a body = Rows "'a list" | Object "(string \<times> 'a field) list" | Scalar json

record 'a list_page =
  entries :: "'a list"
  total :: jsnum
  limit :: jsnum
  offset :: jsnum
  truncated :: bool

definition asArray :: "'a body \<Rightarrow> 'a list" where
  "asArray value = (case value of Rows xs \<Rightarrow> xs | _ \<Rightarrow> [])"

definition number_field :: "(string \<times> 'a field) list \<Rightarrow> string \<Rightarrow> jsnum \<Rightarrow> jsnum" where
  "number_field page key fallback =
     (case map_of page key of Some (Value_Field (JNum n)) \<Rightarrow> n | _ \<Rightarrow> fallback)"

definition truthy_field :: "(string \<times> 'a field) list \<Rightarrow> string \<Rightarrow> bool" where
  "truthy_field page key =
     (case map_of page key of None \<Rightarrow> False | Some (Value_Field v) \<Rightarrow> truthy_json v
      | Some (Rows_Field _) \<Rightarrow> True)"

definition length_num :: "'a list \<Rightarrow> jsnum" where
  "length_num xs = num_of_int (int (length xs))"

definition empty_page :: "'a list_page" where
  "empty_page = \<lparr>entries = [], total = 0, limit = 0, offset = 0, truncated = False\<rparr>"

definition asPage :: "'a body \<Rightarrow> 'a list_page" where
  "asPage value = (case value of
       Rows xs \<Rightarrow>
         \<lparr>entries = xs, total = length_num xs, limit = length_num xs, offset = 0, truncated = False\<rparr>
     | Object page \<Rightarrow>
         (case map_of page ''entries'' of
            Some (Rows_Field es) \<Rightarrow>
              \<lparr>entries = es,
               total = number_field page ''total'' (length_num es),
               limit = number_field page ''limit'' (length_num es),
               offset = number_field page ''offset'' 0,
               truncated = truthy_field page ''truncated''\<rparr>
          | _ \<Rightarrow> empty_page)
     | Scalar _ \<Rightarrow> empty_page)"


subsection \<open>Page numbers and slices\<close>

definition PAGE_SIZE :: jsnum where
  "PAGE_SIZE = Fin 25"

definition pageIndex :: "string \<Rightarrow> jsnum" where
  "pageIndex raw =
     (let n = string_to_number raw in if \<not> is_integer n \<or> n < 1 then 1 else n)"

text \<open>The index a number stands for in \<open>Array.prototype.slice\<close>.\<close>

definition slice_index :: "nat \<Rightarrow> jsnum \<Rightarrow> nat" where
  "slice_index len a = (case a of
       NaN \<Rightarrow> 0 | NInf \<Rightarrow> 0 | PInf \<Rightarrow> len
     | Fin x \<Rightarrow> (let k = (if 0 \<le> x then \<lfloor>x\<rfloor> else \<lceil>x\<rceil>)
                in if k < 0 then nat (max (int len + k) 0) else nat (min k (int len))))"

definition js_slice :: "'a list \<Rightarrow> jsnum \<Rightarrow> jsnum \<Rightarrow> 'a list" where
  "js_slice xs a b = slice (slice_index (length xs) a) (slice_index (length xs) b) xs"

record 'a page_slice =
  ps_page :: jsnum
  ps_rows :: "'a list"
  ps_total :: jsnum
  ps_start :: jsnum
  ps_end :: jsnum

definition pageSlice :: "'a list \<Rightarrow> jsnum \<Rightarrow> jsnum \<Rightarrow> 'a page_slice" where
  "pageSlice rows page sz =
     (let total = length_num rows;
          pages = math_max 1 (math_ceil (total / sz));
          safe = math_min (math_max page 1) pages;
          startIndex = (safe - 1) * sz;
          sl = js_slice rows startIndex (startIndex + sz)
      in \<lparr>ps_page = safe, ps_rows = sl, ps_total = total,
          ps_start = (if num_eq total 0 then 0 else startIndex + 1),
          ps_end = math_min total (startIndex + length_num sl)\<rparr>)"

text \<open>The same on integers.\<close>

definition page_count :: "nat \<Rightarrow> nat \<Rightarrow> nat" where
  "page_count n sz = max 1 ((n + sz - 1) div sz)"

definition clamp_page :: "nat \<Rightarrow> nat \<Rightarrow> int \<Rightarrow> nat" where
  "clamp_page n sz page = min (nat (max page 1)) (page_count n sz)"

definition page_rows :: "'a list \<Rightarrow> nat \<Rightarrow> nat \<Rightarrow> 'a list" where
  "page_rows rows sz p = take sz (drop ((p - 1) * sz) rows)"

lemma int_div_ceil:
  assumes "0 < d"
  shows "\<lceil>of_int n / (of_int d :: rat)\<rceil> = (n + d - 1) div d"
proof -
  define q where "q = (n + d - 1) div d"
  define r where "r = (n + d - 1) mod d"
  have "n + d - 1 = d * q + r" "0 \<le> r" "r < d" using assms by (simp_all add: q_def r_def)
  then have "- n = d * (- q) + (d - 1 - r)" "0 \<le> d - 1 - r" "d - 1 - r < d" by (simp_all add: algebra_simps)
  then have "(- n) div d = - q" by (rule int_div_pos_eq)
  then show ?thesis by (simp add: ceiling_divide_eq_div q_def)
qed

lemma num_le_simps [simp]: "(0::jsnum) = Fin 0" "(1::jsnum) = Fin 1"
  by (simp_all add: zero_jsnum_def one_jsnum_def)

lemma num_of_int_pos_Fin [simp]: "Fin 0 < num_of_int n \<longleftrightarrow> 0 < n"
  using num_of_int_pos [of n] by simp

lemma length_num_eq: "length xs < 2 ^ 32 \<Longrightarrow> length_num xs = Fin (of_int (int (length xs)))"
  unfolding length_num_def by (rule num_of_int_eq) simp

lemma pages_eq:
  assumes "length xs < 2 ^ 32" "0 < sz" "sz \<le> 2 ^ 20"
  shows "math_max 1 (math_ceil (length_num xs / Fin (of_int (int sz))))
       = Fin (of_int (int (page_count (length xs) sz)))"
proof -
  have "math_ceil (Fin (of_int (int (length xs))) / Fin (of_int (int sz)))
      = Fin (of_int \<lceil>of_int (int (length xs)) / (of_int (int sz) :: rat)\<rceil>)"
    using assms by (intro ceil_div_exact) simp_all
  also have "\<lceil>of_int (int (length xs)) / (of_int (int sz) :: rat)\<rceil> = (int (length xs) + int sz - 1) div int sz"
    using assms(2) by (intro int_div_ceil) simp
  also have "\<dots> = int ((length xs + sz - 1) div sz)"
    using assms(2) by (simp add: zdiv_int of_nat_diff)
  finally have "math_ceil (length_num xs / Fin (of_int (int sz))) = Fin (of_int (int ((length xs + sz - 1) div sz)))"
    unfolding length_num_eq [OF assms(1)] .
  then show ?thesis by (simp only: num_le_simps math_max_Fin) (simp add: page_count_def max_def)
qed

lemma page_count_le: "0 < sz \<Longrightarrow> page_count n sz \<le> max 1 n"
proof -
  assume sz: "0 < sz"
  have "(n + sz - 1) div sz \<le> n" if np: "0 < n"
  proof -
    obtain m where n: "n = Suc m" using np by (cases n) auto
    have "(m + sz) div sz = m div sz + 1" using sz by simp
    also have "\<dots> \<le> n" using div_le_dividend [of m sz] by (simp add: n)
    finally show ?thesis by (simp add: n)
  qed
  then show ?thesis using sz by (cases "n = 0") (auto simp: page_count_def max_def)
qed

lemma start_index_less:
  assumes "0 < sz" "0 < n" "p \<le> page_count n sz"
  shows "(p - 1) * sz < n"
proof (cases "p \<le> 1")
  case True
  then have "p - 1 = 0" by simp
  with assms(2) show ?thesis by simp
next
  case False
  then have "p \<le> (n + sz - 1) div sz" using assms(3) by (auto simp: page_count_def max_def split: if_splits)
  then have "p * sz \<le> n + sz - 1" using assms(1) by (simp add: less_eq_div_iff_mult_less_eq)
  moreover have "p * sz = (p - 1) * sz + sz" using False by (cases p) auto
  ultimately show ?thesis using assms by linarith
qed

lemma clamp_page_bounds:
  "1 \<le> clamp_page n sz k" "clamp_page n sz k \<le> page_count n sz"
  by (auto simp: clamp_page_def page_count_def)

lemma slice_index_nat: "slice_index len (Fin (of_int (int k))) = min k len"
  by (auto simp: slice_index_def Let_def min_def)

theorem pageSlice_eq:
  fixes rows :: "'a list" and k :: int
  assumes len: "length rows < 2 ^ 32" and sz: "0 < sz" "sz \<le> 2 ^ 20"
  defines "p \<equiv> clamp_page (length rows) sz k"
  shows "pageSlice rows (Fin (of_int k)) (Fin (of_int (int sz))) =
    \<lparr>ps_page = Fin (of_nat p), ps_rows = page_rows rows sz p, ps_total = Fin (of_nat (length rows)),
     ps_start = (if rows = [] then Fin 0 else Fin (of_nat ((p - 1) * sz + 1))),
     ps_end = Fin (of_nat (min (length rows) ((p - 1) * sz + length (page_rows rows sz p))))\<rparr>"
proof -
  let ?n = "length rows" and ?s = "int sz"
  let ?start = "(p - 1) * sz"
  have p1: "1 \<le> p" and pc: "p \<le> page_count ?n sz" using clamp_page_bounds by (simp_all add: p_def)
  have pn: "p \<le> max 1 ?n" using pc page_count_le [OF sz(1), of ?n] by simp
  have safe: "math_min (math_max (Fin (of_int k)) 1) (math_max 1 (math_ceil (length_num rows / Fin (of_int ?s))))
      = Fin (of_int (int p))"
    unfolding pages_eq [OF len sz] by (simp add: p_def clamp_page_def of_nat_min of_nat_max)
      (auto simp: min_def max_def)
  have st: "?start \<le> ?n"
    using start_index_less [OF sz(1), of ?n p] pc by (cases "?n = 0") (auto simp: page_count_def sz)
  have small: "int ?start + int sz \<le> 2 ^ 53" "int ?start \<le> 2 ^ 53" "int ?n \<le> 2 ^ 53" "int p \<le> 2 ^ 53"
  proof -
    have "?start + sz \<le> 2 ^ 53" "?start \<le> 2 ^ 53" "?n \<le> 2 ^ 53" "p \<le> 2 ^ 53"
    proof -
      have b: "(2::nat) ^ 32 + 2 ^ 20 \<le> 2 ^ 53" by simp
      have "p \<le> 1 + ?n" using pn by simp
      with b st len sz show "?start + sz \<le> 2 ^ 53" "?start \<le> 2 ^ 53" "?n \<le> 2 ^ 53" "p \<le> 2 ^ 53"
        by linarith+
    qed
    then have "int (?start + sz) \<le> int (2 ^ 53)" "int ?start \<le> int (2 ^ 53)"
      "int ?n \<le> int (2 ^ 53)" "int p \<le> int (2 ^ 53)" by (simp_all only: of_nat_le_iff)
    then show "int ?start + int sz \<le> 2 ^ 53" "int ?start \<le> 2 ^ 53" "int ?n \<le> 2 ^ 53" "int p \<le> 2 ^ 53"
      by (simp_all only: of_nat_add of_nat_power of_nat_numeral)
  qed
  have e1: "Fin (of_int (int p)) - Fin (of_int 1) = Fin (of_int (int p - 1))"
    using small p1 by (intro minus_of_int) simp
  have e2: "Fin (of_int (int p - 1)) * Fin (of_int ?s) = Fin (of_int (int ?start))"
  proof -
    have m: "(int p - 1) * ?s = int ?start" using p1 by (simp add: of_nat_diff)
    show ?thesis using small by (subst times_of_int) (simp_all only: m abs_of_nat)
  qed
  have e3: "Fin (of_int (int ?start)) + Fin (of_int ?s) = Fin (of_int (int (?start + sz)))"
    using small by (subst plus_of_int) simp_all
  have e4: "Fin (of_int (int ?start)) + Fin (of_int 1) = Fin (of_int (int (?start + 1)))"
    using small(1) sz(1) by (subst plus_of_int) simp_all
  have sl: "js_slice rows (Fin (of_int (int ?start))) (Fin (of_int (int (?start + sz)))) = page_rows rows sz p"
    using st unfolding js_slice_def slice_index_nat
    by (simp add: slice_def page_rows_def min_def take_all_iff)
  have sl_len: "length (page_rows rows sz p) \<le> ?n" by (simp add: page_rows_def)
  then have e5: "length_num (page_rows rows sz p) = Fin (of_int (int (length (page_rows rows sz p))))"
    using len by (intro length_num_eq) simp
  have e6: "Fin (of_int (int ?start)) + Fin (of_int (int (length (page_rows rows sz p))))
      = Fin (of_int (int (?start + length (page_rows rows sz p))))"
  proof -
    have "length (page_rows rows sz p) \<le> sz" by (simp add: page_rows_def)
    then have "int ?start + int (length (page_rows rows sz p)) \<le> 2 ^ 53" using small by linarith
    then show ?thesis by (subst plus_of_int) simp_all
  qed
  have one: "(1::jsnum) = Fin (of_int 1)" by simp
  show ?thesis
    unfolding pageSlice_def Let_def safe
    unfolding one e1 e2
    unfolding e3 sl e4
    unfolding e5 e6 length_num_eq [OF len]
    by (simp add: num_eq_def of_nat_min)
qed

subsection \<open>The pages of a list cover it\<close>

lemma concat_page_rows:
  "0 < sz \<Longrightarrow> concat (map (page_rows rows sz) [1..<Suc p]) = take (p * sz) rows"
proof (induction p)
  case 0
  then show ?case by simp
next
  case (Suc p)
  have "concat (map (page_rows rows sz) [1..<Suc (Suc p)])
      = concat (map (page_rows rows sz) [1..<Suc p]) @ page_rows rows sz (Suc p)"
    by simp
  also have "\<dots> = take (p * sz) rows @ take sz (drop (p * sz) rows)"
    unfolding Suc.IH [OF Suc.prems] by (simp add: page_rows_def)
  also have "\<dots> = take (Suc p * sz) rows" by (simp add: take_add [symmetric] add.commute)
  finally show ?case .
qed

lemma page_count_covers: "0 < sz \<Longrightarrow> n \<le> page_count n sz * sz"
proof -
  assume sz: "0 < sz"
  have "n + sz - 1 < (n + sz - 1) div sz * sz + sz"
    using dividend_less_div_times [OF sz, of "n + sz - 1"] by linarith
  then have "n \<le> (n + sz - 1) div sz * sz" using sz by linarith
  also have "\<dots> \<le> page_count n sz * sz" by (rule mult_le_mono1) (simp add: page_count_def)
  finally show ?thesis .
qed

lemma concat_all_pages: "0 < sz \<Longrightarrow> concat (map (page_rows rows sz) [1..<Suc (page_count (length rows) sz)]) = rows"
  using page_count_covers [of sz "length rows"] by (subst concat_page_rows) simp_all

lemma page_rows_nonempty:
  assumes "0 < sz" "rows \<noteq> []" "p \<le> page_count (length rows) sz"
  shows "page_rows rows sz p \<noteq> []"
  using start_index_less [of sz "length rows" p] assms by (auto simp: page_rows_def)

lemma pageIndex_cases: obtains k where "pageIndex raw = Fin (of_int k)" "1 \<le> k"
proof (cases "is_integer (string_to_number raw) \<and> \<not> string_to_number raw < 1")
  case True
  then obtain x where x: "string_to_number raw = Fin x" "x = of_int \<lfloor>x\<rfloor>" "1 \<le> x"
    by (auto simp: is_integer_def split: jsnum.splits)
  with True have "pageIndex raw = Fin (of_int \<lfloor>x\<rfloor>)" by (simp add: pageIndex_def Let_def)
  moreover have "1 \<le> \<lfloor>x\<rfloor>" using x(3) by simp
  ultimately show ?thesis by (rule that)
next
  case False
  then have "pageIndex raw = Fin (of_int 1)" by (auto simp: pageIndex_def Let_def)
  then show ?thesis by (rule that) simp
qed

lemma pageIndex_num_string:
  "1 \<le> n \<Longrightarrow> n \<le> 2 ^ 53 \<Longrightarrow> pageIndex (num_string (Fin (of_int n))) = Fin (of_int n)"
  by (simp add: pageIndex_def string_to_number_num_string is_integer_def)

subsection \<open>Properties\<close>

lemma PAGE_SIZE_nat: "PAGE_SIZE = Fin (of_int (int 25))"
  by (simp add: PAGE_SIZE_def)

text \<open>C15. The pages the pager walks through, one after the other, show every row of the list
  once and in order.\<close>

theorem pages_cover_rows:
  assumes "length rows < 2 ^ 32"
  shows "concat (map (\<lambda>p. ps_rows (pageSlice rows (Fin (of_int (int p))) PAGE_SIZE))
           [1..<Suc (page_count (length rows) 25)]) = rows"
proof -
  have "ps_rows (pageSlice rows (Fin (of_int (int p))) PAGE_SIZE) = page_rows rows 25 p"
    if "p \<in> set [1..<Suc (page_count (length rows) 25)]" for p
    using that unfolding PAGE_SIZE_nat
    by (subst pageSlice_eq [OF assms]) (auto simp: clamp_page_def min_def)
  then have "map (\<lambda>p. ps_rows (pageSlice rows (Fin (of_int (int p))) PAGE_SIZE))
        [1..<Suc (page_count (length rows) 25)]
      = map (page_rows rows 25) [1..<Suc (page_count (length rows) 25)]"
    by (intro map_cong) auto
  then show ?thesis by (simp only: concat_all_pages)
qed

lemma pages_cover_rows_witness:
  "concat (map (\<lambda>p. ps_rows (pageSlice [0..<60] (Fin (of_int (int p))) PAGE_SIZE)) [1..<4]) = [0..<60::nat]"
  using pages_cover_rows [of "[0..<60::nat]"] by (simp add: page_count_def)

text \<open>Whatever the address says the page is, the slice shown is the block of rows
  numbered from \<open>start\<close> to \<open>end\<close>, it is not empty when there are rows, has at most the page
  size, and the page reported is the one shown.\<close>

theorem any_address_shows_a_page:
  assumes "length rows < 2 ^ 32" "rows \<noteq> []"
  shows "\<exists>p start stop. pageSlice rows (pageIndex raw) PAGE_SIZE
      = \<lparr>ps_page = Fin (of_nat p), ps_rows = slice start stop rows, ps_total = Fin (of_nat (length rows)),
         ps_start = Fin (of_nat (start + 1)), ps_end = Fin (of_nat stop)\<rparr>
    \<and> start < stop \<and> stop \<le> length rows \<and> stop - start \<le> 25 \<and> start = (p - 1) * 25"
proof -
  obtain k where k: "pageIndex raw = Fin (of_int k)" by (rule pageIndex_cases)
  define p where "p = clamp_page (length rows) 25 k"
  define start where "start = (p - 1) * 25"
  define stop where "stop = min (length rows) (start + 25)"
  have less: "start < length rows"
    unfolding start_def p_def using assms(2) clamp_page_bounds(2) by (intro start_index_less) auto
  have rows: "page_rows rows 25 p = slice start stop rows"
    by (auto simp: page_rows_def slice_def start_def stop_def min_def)
  have stop': "min (length rows) (start + length (slice start stop rows)) = stop"
    using less by (auto simp: slice_def stop_def)
  have "pageSlice rows (pageIndex raw) PAGE_SIZE
      = \<lparr>ps_page = Fin (of_nat p), ps_rows = slice start stop rows, ps_total = Fin (of_nat (length rows)),
         ps_start = Fin (of_nat (start + 1)), ps_end = Fin (of_nat stop)\<rparr>"
    unfolding PAGE_SIZE_nat k
    by (subst pageSlice_eq [OF assms(1)])
      (use assms(2) stop' in \<open>simp_all add: p_def [symmetric] rows start_def\<close>)
  moreover have "start < stop" "stop \<le> length rows" "stop - start \<le> 25" using less by (auto simp: stop_def)
  ultimately show ?thesis using start_def by blast
qed

lemma any_address_shows_a_page_witness:
  "\<exists>p start stop. pageSlice ''abc'' (pageIndex ''7'') PAGE_SIZE
      = \<lparr>ps_page = Fin (of_nat p), ps_rows = slice start stop ''abc'', ps_total = Fin (of_nat (length ''abc'')),
         ps_start = Fin (of_nat (start + 1)), ps_end = Fin (of_nat stop)\<rparr>
    \<and> start < stop \<and> stop \<le> length ''abc'' \<and> stop - start \<le> 25 \<and> start = (p - 1) * 25"
  by (rule any_address_shows_a_page) simp_all

text \<open>The number a pager writes into the address is the number the page reads back.\<close>

theorem page_number_round_trip:
  assumes "1 \<le> n" "n \<le> 2 ^ 53"
  shows "pageIndex (query_value ''page'' ''1'' (query_set ''page'' ''1'' (num_string (Fin (of_int n))) ps))
           = Fin (of_int n)"
proof -
  have "num_string (Fin (of_int n)) \<noteq> []"
    using string_to_number_num_string [of n] assms by (auto simp: string_to_number_def trim_def)
  with pageIndex_num_string [OF assms] show ?thesis by (simp add: query_value_set)
qed

lemma page_number_round_trip_witness:
  "pageIndex (query_value ''page'' ''1'' (query_set ''page'' ''1'' (num_string (Fin (of_int 3))) [(''page'', ''2'')]))
     = Fin (of_int 3)"
  by (rule page_number_round_trip) simp_all

end
