(* ===== verification/Api.thy ===== *)
theory Api
  imports Page
begin

text \<open>
  \<open>lib/api.ts\<close>, the client of the hub. Its
  types are records (optional fields are options; a count, which the hub sends as an integer,
  is an int, a measured value a number); each endpoint is a function of the base address and of
  \<open>fetch\<close>, the parameter that stands for the network. A rejected promise is the left side of
  the sum.
\<close>

subsection \<open>Types\<close>

record health_status =
  h_status :: string

record series_point =
  p_ts :: string
  p_value :: jsnum

record container_series =
  s_container :: string
  s_entity_uid :: string
  s_points :: "series_point list option"

record metric_series_response =
  m_metric_name :: string
  m_series :: "container_series list option"

record workload_snapshot =
  w_container :: string
  w_entity_uid :: string
  w_stack :: "string option"
  w_service :: "string option"
  w_labels :: "(string \<times> string) list option"
  cpu_usage :: jsnum
  memory_usage :: jsnum
  memory_limit :: jsnum
  w_updated_at :: string

text \<open>The kind of a group is one of stack, service and custom.\<close>

record workload_group =
  g_id :: string
  g_name :: string
  g_kind :: string
  g_description :: "string option"
  g_label_key :: "string option"
  g_label_value :: "string option"
  g_containers :: "string list option"
  g_member_count :: "int option"
  g_created_at :: "string option"
  g_updated_at :: "string option"

record workload_group_input =
  i_name :: string
  i_kind :: string
  i_description :: "string option"
  i_label_key :: "string option"
  i_label_value :: "string option"
  i_containers :: "string list option"

record workload_group_summary =
  gs_group :: workload_group
  gs_member_count :: int
  gs_avg_cpu :: jsnum
  gs_avg_memory_pct :: jsnum
  gs_total_memory :: jsnum
  gs_members :: "workload_snapshot list"

record event_row =
  e_id :: string
  e_type :: string
  e_ts :: string
  e_severity :: string
  e_source :: string
  e_entity_uid :: string
  e_labels :: "(string \<times> string) list"
  e_payload :: "(string \<times> json) list option"

record log_row =
  l_ts :: string
  l_message :: string
  l_level :: string
  l_entity_uid :: string
  l_labels :: "(string \<times> string) list"
  l_fields :: "(string \<times> json) list option"

record log_search_params =
  ls_q :: "string option"
  ls_since :: "string option"
  ls_level :: "string option"
  ls_container :: "string option"
  ls_topic :: "string option"
  ls_group :: "string option"
  ls_trace_id :: "string option"
  ls_limit :: "jsnum option"
  ls_offset :: "jsnum option"

record metric_catalog_entry =
  c_name :: string
  c_label :: string
  c_unit :: string

record insight =
  in_id :: string
  in_theme :: string
  in_severity :: string
  in_title :: string
  in_summary :: string
  in_container :: string
  in_entity_uid :: string
  in_evidence :: "(string \<times> json) list"
  in_recommendations :: "string list"

record insights_response =
  ir_since :: string
  ir_insights :: "insight list option"

record container_fleet_status =
  f_container :: string
  f_entity_uid :: string
  f_service :: "string option"
  f_state :: string
  f_health :: "string option"
  restart_count :: int
  exit_code :: "int option"
  oom_killed :: "bool option"
  status_text :: "string option"
  disposition :: "string option"
  f_updated_at :: "string option"

record fleet_summary =
  fs_running :: int
  fs_exited :: int
  fs_restarting :: int
  fs_unhealthy :: int
  fs_dead :: int
  fs_total_restart_count :: int
  fs_replicas_up :: int
  fs_replicas_total :: int

record service_replica_status =
  sr_service :: string
  sr_replicas_up :: int
  sr_replicas_total :: int
  sr_unhealthy :: int
  sr_restarting :: int

record fleet_event_stats =
  restarts_24h :: int
  failures_24h :: int
  oom_24h :: int
  disconnect_24h :: int

record fleet_status_response =
  fr_updated_at :: string
  fr_summary :: fleet_summary
  fr_services :: "service_replica_status list"
  fr_containers :: "container_fleet_status list option"
  fr_events_24h :: fleet_event_stats

record http_service_summary =
  hs_service :: string
  hs_requests :: int
  hs_errors :: int
  error_rate :: jsnum
  avg_latency_ms :: jsnum
  max_latency_ms :: jsnum

record log_pattern =
  pt_key :: string
  pt_pattern :: string
  pt_container :: string
  pt_service :: string
  pt_count :: int
  pt_last_seen :: string
  pt_sample :: string

record log_pattern_params =
  lp_since :: "string option"
  lp_q :: "string option"
  lp_container :: "string option"
  lp_group :: "string option"

record topology_node =
  tn_id :: string
  tn_label :: string

record topology_edge =
  te_source :: string
  te_target :: string
  te_kind :: string
  te_count :: int
  te_origin :: "string option"
  te_port :: "int option"

record topology_graph =
  tg_nodes :: "topology_node list option"
  tg_edges :: "topology_edge list option"

record active_alert =
  a_rule_id :: string
  a_entity_uid :: string
  a_container :: string
  a_title :: string
  a_severity :: string
  a_summary :: string
  a_fired_at :: string
  a_value :: jsnum

record trace_span =
  sp_trace_id :: string
  sp_span_id :: string
  sp_parent_span_id :: "string option"
  sp_name :: string
  sp_service :: string
  sp_container :: string
  sp_entity_uid :: "string option"
  sp_start_ts :: string
  sp_end_ts :: string
  sp_duration_ms :: jsnum
  sp_status :: string
  sp_kind :: string
  sp_source :: string
  sp_attributes :: "(string \<times> json) list option"

record trace_detail =
  td_trace_id :: string
  td_source :: string
  td_start_ts :: "string option"
  td_end_ts :: "string option"
  td_duration_ms :: jsnum
  td_spans :: "trace_span list"

record trace_summary =
  ts_trace_id :: string
  ts_source :: string
  ts_service :: string
  ts_container :: string
  ts_name :: string
  ts_start_ts :: string
  ts_end_ts :: string
  ts_duration_ms :: jsnum
  ts_span_count :: int
  ts_error :: bool

record slo_definition =
  slo_id :: string
  slo_name :: string
  slo_service :: string
  slo_group_id :: "string option"
  sli_metric :: string
  slo_target :: jsnum
  window_hours :: int
  latency_threshold_ms :: jsnum
  slo_created_at :: "string option"

record slo_status =
  st_slo :: slo_definition
  compliance :: jsnum
  error_budget_remaining :: jsnum
  good_events :: int
  total_events :: int
  p95_latency_ms :: jsnum
  breached :: bool
  evaluated_at :: string

subsection \<open>Requests\<close>

text \<open>
  A response carries a status; \<open>ok\<close> is defined from it as the platform does (200 to 299), and
  its body may fail to parse. Errors are the network's, the message \<open>request\<close> throws on a
  status that is not ok, and the parser's.
\<close>

datatype api_error = Network_Error string | Http_Error string | Body_Error string

record request_init =
  ri_method :: string
  ri_headers :: "(string \<times> string) list"
  ri_body :: "string option"

record 'a response =
  res_status :: nat
  res_status_text :: string
  res_json :: "api_error + 'a"

definition res_ok :: "'a response \<Rightarrow> bool" where
  "res_ok res \<longleftrightarrow> 200 \<le> res_status res \<and> res_status res \<le> 299"

type_synonym 'a fetch = "string \<Rightarrow> request_init option \<Rightarrow> api_error + 'a response"

definition status_error :: "'a response \<Rightarrow> api_error" where
  "status_error res = Http_Error (nat_digits (res_status res) @ '' '' @ res_status_text res)"

definition request :: "'a fetch \<Rightarrow> string \<Rightarrow> string \<Rightarrow> request_init option \<Rightarrow> api_error + 'a" where
  "request fetch base path init =
     (case fetch (base @ path) init of
        Inl e \<Rightarrow> Inl e
      | Inr res \<Rightarrow> if \<not> res_ok res then Inl (status_error res) else res_json res)"

definition then_value :: "('a \<Rightarrow> 'b) \<Rightarrow> api_error + 'a \<Rightarrow> api_error + 'b" where
  "then_value f r = (case r of Inl e \<Rightarrow> Inl e | Inr x \<Rightarrow> Inr (f x))"

text \<open>\<open>if (v) p.set(k, v)\<close>, and the same for the filters whose "all" means no filter.\<close>

definition set_given :: "string \<Rightarrow> string option \<Rightarrow> params \<Rightarrow> params" where
  "set_given k v ps = (if truthy_str v then params_set k (the v) ps else ps)"

definition set_filter :: "string \<Rightarrow> string option \<Rightarrow> params \<Rightarrow> params" where
  "set_filter k v ps = (if truthy_str v \<and> v \<noteq> Some ''all'' then params_set k (the v) ps else ps)"

subsection \<open>Endpoints\<close>

definition getHealth :: "health_status fetch \<Rightarrow> string \<Rightarrow> api_error + health_status" where
  "getHealth fetch base = request fetch base ''/health'' None"

definition fetchMetricSeries ::
  "metric_series_response fetch \<Rightarrow> string \<Rightarrow> string \<Rightarrow> string option \<Rightarrow> string option \<Rightarrow> string option
     \<Rightarrow> api_error + metric_series_response" where
  "fetchMetricSeries fetch base metric since container grp =
     (let q = [(''metric'', metric), (''since'', coalesce since ''1h'')];
          q = set_given ''container'' container q;
          q = set_given ''group'' grp q
      in request fetch base (''/api/v1/metrics/series?'' @ params_string q) None)"

definition listWorkloads ::
  "workload_snapshot body fetch \<Rightarrow> string \<Rightarrow> string option \<Rightarrow> api_error + workload_snapshot list" where
  "listWorkloads fetch base since =
     then_value asArray
       (request fetch base (''/api/v1/workloads?since='' @ encodeURIComponent (coalesce since ''30m'')) None)"

definition listEvents ::
  "event_row body fetch \<Rightarrow> string \<Rightarrow> string option \<Rightarrow> string option \<Rightarrow> jsnum option \<Rightarrow> jsnum option
     \<Rightarrow> api_error + event_row list_page" where
  "listEvents fetch base entityUID since lmt off =
     (let q = [(''since'', coalesce since ''24h''), (''limit'', num_string (coalesce lmt (Fin 50))),
               (''offset'', num_string (coalesce off (Fin 0)))];
          q = set_given ''entity_uid'' entityUID q
      in then_value asPage (request fetch base (''/api/v1/events?'' @ params_string q) None))"

definition search_params :: "log_search_params \<Rightarrow> params" where
  "search_params params =
     (let p = [];
          p = params_set ''since'' (coalesce (ls_since params) ''1h'') p;
          p = params_set ''limit'' (num_string (coalesce (ls_limit params) (Fin 50))) p;
          p = params_set ''offset'' (num_string (coalesce (ls_offset params) (Fin 0))) p;
          p = set_given ''q'' (ls_q params) p;
          p = set_filter ''level'' (ls_level params) p;
          p = set_filter ''container'' (ls_container params) p;
          p = set_filter ''topic'' (ls_topic params) p;
          p = set_given ''group'' (ls_group params) p;
          p = set_given ''trace_id'' (ls_trace_id params) p
      in p)"

definition searchLogs ::
  "log_row body fetch \<Rightarrow> string \<Rightarrow> log_search_params \<Rightarrow> api_error + log_row list_page" where
  "searchLogs fetch base params =
     then_value asPage
       (request fetch base (''/api/v1/logs/search?'' @ params_string (search_params params)) None)"

definition listWorkloadGroups ::
  "workload_group body fetch \<Rightarrow> string \<Rightarrow> api_error + workload_group list" where
  "listWorkloadGroups fetch base = then_value asArray (request fetch base ''/api/v1/workload-groups'' None)"

definition discoverWorkloadGroups ::
  "workload_group body fetch \<Rightarrow> string \<Rightarrow> api_error + workload_group list" where
  "discoverWorkloadGroups fetch base =
     then_value asArray (request fetch base ''/api/v1/workload-groups/discover'' None)"

definition getWorkloadGroupSummary ::
  "workload_group_summary fetch \<Rightarrow> string \<Rightarrow> string \<Rightarrow> string option \<Rightarrow> api_error + workload_group_summary" where
  "getWorkloadGroupSummary fetch base gid since =
     request fetch base
       (''/api/v1/workload-groups/'' @ encodeURIComponent gid @ ''/summary?since=''
          @ encodeURIComponent (coalesce since ''30m'')) None"

text \<open>The object a group form submits, as \<open>JSON.stringify\<close> writes it.\<close>

definition group_input_json :: "workload_group_input \<Rightarrow> json" where
  "group_input_json input =
     JObj ([(''name'', JStr (i_name input)), (''kind'', JStr (i_kind input))]
       @ optional_member ''description'' JStr (i_description input)
       @ optional_member ''label_key'' JStr (i_label_key input)
       @ optional_member ''label_value'' JStr (i_label_value input)
       @ optional_member ''containers'' (\<lambda>xs. JArr (map JStr xs)) (i_containers input))"

definition createWorkloadGroup ::
  "workload_group fetch \<Rightarrow> string \<Rightarrow> workload_group_input \<Rightarrow> api_error + workload_group" where
  "createWorkloadGroup fetch base input =
     request fetch base ''/api/v1/workload-groups''
       (Some \<lparr>ri_method = ''POST'', ri_headers = [(''Content-Type'', ''application/json'')],
              ri_body = Some (json_stringify (group_input_json input))\<rparr>)"

definition deleteWorkloadGroup :: "'a fetch \<Rightarrow> string \<Rightarrow> string \<Rightarrow> api_error + unit" where
  "deleteWorkloadGroup fetch base gid =
     (case fetch (base @ ''/api/v1/workload-groups/'' @ encodeURIComponent gid)
             (Some \<lparr>ri_method = ''DELETE'', ri_headers = [], ri_body = None\<rparr>) of
        Inl e \<Rightarrow> Inl e
      | Inr res \<Rightarrow> if \<not> res_ok res then Inl (status_error res) else Inr ())"

definition fetchInsights ::
  "insights_response fetch \<Rightarrow> string \<Rightarrow> string option \<Rightarrow> string option \<Rightarrow> api_error + insights_response" where
  "fetchInsights fetch base since grp =
     (let q = [(''since'', coalesce since ''1h'')];
          q = set_given ''group'' grp q
      in request fetch base (''/api/v1/insights?'' @ params_string q) None)"

definition fetchFleetStatus :: "fleet_status_response fetch \<Rightarrow> string \<Rightarrow> api_error + fleet_status_response" where
  "fetchFleetStatus fetch base = request fetch base ''/api/v1/fleet/status'' None"

definition fetchMetricCatalog ::
  "metric_catalog_entry body fetch \<Rightarrow> string \<Rightarrow> api_error + metric_catalog_entry list" where
  "fetchMetricCatalog fetch base = then_value asArray (request fetch base ''/api/v1/metrics/catalog'' None)"

definition fetchHTTPSummary ::
  "http_service_summary body fetch \<Rightarrow> string \<Rightarrow> string option \<Rightarrow> api_error + http_service_summary list" where
  "fetchHTTPSummary fetch base since =
     then_value asArray
       (request fetch base (''/api/v1/metrics/http/summary?since='' @ encodeURIComponent (coalesce since ''1h'')) None)"

definition pattern_params :: "log_pattern_params \<Rightarrow> params" where
  "pattern_params params =
     (let p = [(''since'', coalesce (lp_since params) ''1h'')];
          p = set_given ''q'' (lp_q params) p;
          p = set_filter ''container'' (lp_container params) p;
          p = set_given ''group'' (lp_group params) p
      in p)"

definition fetchLogPatterns ::
  "log_pattern body fetch \<Rightarrow> string \<Rightarrow> log_pattern_params \<Rightarrow> api_error + log_pattern list" where
  "fetchLogPatterns fetch base params =
     then_value asArray
       (request fetch base (''/api/v1/logs/patterns?'' @ params_string (pattern_params params)) None)"

definition fetchTopology :: "topology_graph fetch \<Rightarrow> string \<Rightarrow> string option \<Rightarrow> api_error + topology_graph" where
  "fetchTopology fetch base since =
     request fetch base (''/api/v1/topology?since='' @ encodeURIComponent (coalesce since ''24h'')) None"

definition fetchActiveAlerts :: "active_alert body fetch \<Rightarrow> string \<Rightarrow> api_error + active_alert list" where
  "fetchActiveAlerts fetch base = then_value asArray (request fetch base ''/api/v1/alerts/active'' None)"

definition fetchTraces ::
  "trace_summary body fetch \<Rightarrow> string \<Rightarrow> string option \<Rightarrow> string option \<Rightarrow> jsnum option \<Rightarrow> jsnum option
     \<Rightarrow> api_error + trace_summary list_page" where
  "fetchTraces fetch base since service lmt off =
     (let q = [(''since'', coalesce since ''1h''), (''limit'', num_string (coalesce lmt (Fin 50))),
               (''offset'', num_string (coalesce off (Fin 0)))];
          q = set_given ''service'' service q
      in then_value asPage (request fetch base (''/api/v1/traces?'' @ params_string q) None))"

definition fetchTrace :: "trace_detail fetch \<Rightarrow> string \<Rightarrow> string \<Rightarrow> string option \<Rightarrow> api_error + trace_detail" where
  "fetchTrace fetch base traceId since =
     request fetch base
       (''/api/v1/traces/'' @ encodeURIComponent traceId @ ''?since=''
          @ encodeURIComponent (coalesce since ''24h'')) None"

definition fetchSLOs :: "slo_definition body fetch \<Rightarrow> string \<Rightarrow> api_error + slo_definition list" where
  "fetchSLOs fetch base = then_value asArray (request fetch base ''/api/v1/slos'' None)"

definition fetchSLOStatuses :: "slo_status body fetch \<Rightarrow> string \<Rightarrow> api_error + slo_status list" where
  "fetchSLOStatuses fetch base = then_value asArray (request fetch base ''/api/v1/slos/status'' None)"

subsection \<open>What a request sends and returns\<close>

lemma params_get_given:
  "params_get (set_given k v ps) k' =
     (if k' = k \<and> truthy_str v then v else params_get ps k')"
  by (cases v) (auto simp: set_given_def params_get_set)

lemma params_get_filter:
  "params_get (set_filter k v ps) k' =
     (if k' = k \<and> truthy_str v \<and> v \<noteq> Some ''all'' then v else params_get ps k')"
  by (cases v) (auto simp: set_filter_def params_get_set)

lemmas params_get_rules = params_get_set params_get_given params_get_filter

lemma request_Inr:
  "request fetch base path init = Inr x \<longleftrightarrow>
     (\<exists>res. fetch (base @ path) init = Inr res \<and> res_ok res \<and> res_json res = Inr x)"
  by (auto simp: request_def split: sum.split)

lemma request_status:
  "fetch (base @ path) init = Inr res \<Longrightarrow> \<not> res_ok res \<Longrightarrow>
     request fetch base path init = Inl (status_error res)"
  by (simp add: request_def)

lemma then_value_simps [simp]:
  "then_value f (Inl e) = Inl e" "then_value f (Inr x) = Inr (f x)"
  by (simp_all add: then_value_def)

subsection \<open>Properties\<close>

text \<open>What a log search asks the hub: the query the hub parses is the one the client built;
  the filters that say "all" or are empty are not in it, every other filter arrives unchanged, and
  the window and the page have their defaults.\<close>

theorem search_query_functional:
  "parse_query (params_string (search_params p)) = Some (search_params p)
   \<and> params_get (search_params p) ''since'' = Some (coalesce (ls_since p) ''1h'')
   \<and> params_get (search_params p) ''limit'' = Some (num_string (coalesce (ls_limit p) (Fin 50)))
   \<and> params_get (search_params p) ''offset'' = Some (num_string (coalesce (ls_offset p) (Fin 0)))
   \<and> params_get (search_params p) ''q'' = (if truthy_str (ls_q p) then ls_q p else None)
   \<and> params_get (search_params p) ''level''
       = (if truthy_str (ls_level p) \<and> ls_level p \<noteq> Some ''all'' then ls_level p else None)
   \<and> params_get (search_params p) ''container''
       = (if truthy_str (ls_container p) \<and> ls_container p \<noteq> Some ''all'' then ls_container p else None)
   \<and> params_get (search_params p) ''topic''
       = (if truthy_str (ls_topic p) \<and> ls_topic p \<noteq> Some ''all'' then ls_topic p else None)
   \<and> params_get (search_params p) ''group'' = (if truthy_str (ls_group p) then ls_group p else None)
   \<and> params_get (search_params p) ''trace_id'' = (if truthy_str (ls_trace_id p) then ls_trace_id p else None)"
  unfolding search_params_def Let_def
  by (intro conjI parse_params_string; simp add: params_get_rules; simp add: params_get_def)

text \<open>A search that answers with an error status is rejected with that status, never taken
  for an empty result; one that succeeds is the page its body describes.\<close>

theorem search_error_status:
  assumes "fetch (base @ ''/api/v1/logs/search?'' @ params_string (search_params p)) None = Inr res"
  shows "searchLogs fetch base p =
    (if 200 \<le> res_status res \<and> res_status res \<le> 299
     then (case res_json res of Inl e \<Rightarrow> Inl e | Inr b \<Rightarrow> Inr (asPage b))
     else Inl (Http_Error (nat_digits (res_status res) @ '' '' @ res_status_text res)))"
  using assms by (simp add: searchLogs_def request_def res_ok_def status_error_def then_value_def)

lemma search_error_status_witness:
  "searchLogs (\<lambda>_ _. Inr \<lparr>res_status = 503, res_status_text = ''Down'', res_json = Inr (Rows [])\<rparr>) ''''
     \<lparr>ls_q = None, ls_since = None, ls_level = None, ls_container = None, ls_topic = None, ls_group = None,
      ls_trace_id = None, ls_limit = None, ls_offset = None\<rparr>
   = Inl (Http_Error (nat_digits 503 @ '' '' @ ''Down''))"
  by (subst search_error_status [where res = "\<lparr>res_status = 503, res_status_text = ''Down'', res_json = Inr (Rows [])\<rparr>"])
    simp_all

end
