(* ===== verification/Js_Date.thy ===== *)
theory Js_Date
  imports Js_Convert
begin

text \<open>
  Instants as milliseconds since 1970 in UTC: the proleptic Gregorian calendar, the text
  \<open>toISOString\<close> writes, and the ISO form of \<open>new Date(text)\<close> with a zone of Z, which the
  examples use where a model takes the parser of the platform as a parameter.
\<close>

text \<open>Years start in March, in eras of 400 years, so that the leap day is the last of a year.\<close>

definition civil_from_days :: "int \<Rightarrow> int \<times> int \<times> int" where
  "civil_from_days days =
     (let z = days + 719468;
          era = z div 146097;
          doe = z mod 146097;
          yoe = (doe - doe div 1460 + doe div 36524 - doe div 146096) div 365;
          doy = doe - (365 * yoe + yoe div 4 - yoe div 100);
          mp = (5 * doy + 2) div 153;
          d = doy - (153 * mp + 2) div 5 + 1;
          m = (if mp < 10 then mp + 3 else mp - 9);
          y = yoe + era * 400 + (if m \<le> 2 then 1 else 0)
      in (y, m, d))"

definition days_from_civil :: "int \<Rightarrow> int \<Rightarrow> int \<Rightarrow> int" where
  "days_from_civil y m d =
     (let y' = (if m \<le> 2 then y - 1 else y);
          era = y' div 400;
          yoe = y' mod 400;
          mp = (if m > 2 then m - 3 else m + 9);
          doy = (153 * mp + 2) div 5 + d - 1;
          doe = yoe * 365 + yoe div 4 - yoe div 100 + doy
      in era * 146097 + doe - 719468)"

text \<open>\<open>String(n).padStart(w, "0")\<close> for a count.\<close>

definition pad_start :: "nat \<Rightarrow> string \<Rightarrow> string" where
  "pad_start w s = replicate (w - length s) (CHR ''0'') @ s"

definition pad_int :: "nat \<Rightarrow> int \<Rightarrow> string" where
  "pad_int w n = pad_start w (nat_digits (nat n))"

definition iso_year :: "int \<Rightarrow> string" where
  "iso_year y =
     (if 0 \<le> y \<and> y \<le> 9999 then pad_int 4 y
      else if y < 0 then ''-'' @ pad_int 6 (- y) else ''+'' @ pad_int 6 y)"

definition iso_date :: "int \<Rightarrow> string" where
  "iso_date days = (let (y, m, d) = civil_from_days days in iso_year y @ ''-'' @ pad_int 2 m @ ''-'' @ pad_int 2 d)"

definition to_iso :: "int \<Rightarrow> string" where
  "to_iso t =
     (let days = t div 86400000; ms = t mod 86400000
      in iso_date days @ ''T'' @ pad_int 2 (ms div 3600000) @ '':'' @ pad_int 2 (ms div 60000 mod 60)
           @ '':'' @ pad_int 2 (ms div 1000 mod 60) @ ''.'' @ pad_int 3 (ms mod 1000) @ ''Z'')"

text \<open>The whole milliseconds of a time value, which \<open>Date\<close> keeps as an integer.\<close>

definition time_int :: "jsnum \<Rightarrow> int" where
  "time_int t = (case t of Fin x \<Rightarrow> \<lfloor>x\<rfloor> | _ \<Rightarrow> 0)"

definition digits_int :: "string \<Rightarrow> int" where
  "digits_int s = int (digits_val s)"

text \<open>\<open>YYYY-MM-DDTHH:MM\<close>, then optional seconds and milliseconds, then an optional Z.\<close>

definition parse_iso :: "string \<Rightarrow> int option" where
  "parse_iso s =
     (let body = filter (\<lambda>c. is_digit c) s; n = length s
      in if n < 16 then None
         else let y = digits_int (slice 0 4 s); m = digits_int (slice 5 7 s); d = digits_int (slice 8 10 s);
                  h = digits_int (slice 11 13 s); mi = digits_int (slice 14 16 s);
                  sec = (if n \<ge> 19 then digits_int (slice 17 19 s) else 0);
                  ms = (if n \<ge> 23 then digits_int (slice 20 23 s) else 0)
              in if length body \<ge> 12 \<and> 1 \<le> m \<and> m \<le> 12 \<and> 1 \<le> d \<and> d \<le> 31 \<and> h \<le> 23 \<and> mi \<le> 59 \<and> sec \<le> 59
                 then Some (days_from_civil y m d * 86400000 + h * 3600000 + mi * 60000 + sec * 1000 + ms)
                 else None)"

definition iso_parser :: "string \<Rightarrow> jsnum" where
  "iso_parser s = (case parse_iso s of Some t \<Rightarrow> num_of_int t | None \<Rightarrow> NaN)"

lemma sample_instants:
  "iso_parser ''2026-10-06T14:00'' = Fin (of_int 1791295200000)"
  "iso_parser ''2026-10-06T15:00'' = Fin (of_int 1791298800000)"
proof -
  have "parse_iso ''2026-10-06T14:00'' = Some 1791295200000" "parse_iso ''2026-10-06T15:00'' = Some 1791298800000"
    by code_simp+
  then show "iso_parser ''2026-10-06T14:00'' = Fin (of_int 1791295200000)"
    "iso_parser ''2026-10-06T15:00'' = Fin (of_int 1791298800000)"
    by (simp_all only: iso_parser_def option.case num_of_int_eq [of 1791295200000, simplified]
        num_of_int_eq [of 1791298800000, simplified]) simp_all
qed

text \<open>The end of a text that an instant has: Z after a digit and its milliseconds.\<close>

lemma to_iso_ends:
  "\<exists>p. to_iso t = p @ ''.'' @ pad_int 3 (t mod 1000) @ ''Z''"
  by (simp add: to_iso_def Let_def mod_mod_cancel)

lemma length_pad_start: "length (pad_start w s) = max w (length s)"
  by (simp add: pad_start_def max_def)

end
