(* ===== verification/Format.thy ===== *)
theory Format
  imports I18n Api Js_Date
begin

text \<open>
  \<open>lib/format.ts\<close>. The formatters of \<open>Intl\<close> are the platform's: what one of them writes
  is a parameter (the fields \<open>intl_number\<close> and \<open>intl_date\<close> of \<open>env\<close>), which
  formatter is used is the code's. So are the clock with
  milliseconds of the traces (\<open>intl_clock_ms\<close>), the platform's reading of a date text (\<open>date_parse\<close>,
  NaN for a text that is no date), its time zone (\<open>tz_offset\<close>, the milliseconds local time is
  ahead of UTC at an instant) and its collation (\<open>locale_compare\<close>). The module keeps the formatters it has made in a cache that
  survives a change of language; the stateful functions carry it, and the lemmas show that what
  they return never depends on it, so the views use the pure \<open>formatNumber\<close> and its kin.
\<close>

datatype date_style = Hour_Minute | Hour_Minute_Second | Short_Medium

datatype formatter = Number_Format string nat | Date_Format string date_style

record env =
  tr :: translate
  lang :: string
  intl_number :: "string \<Rightarrow> nat \<Rightarrow> jsnum \<Rightarrow> string"
  intl_date :: "string \<Rightarrow> date_style \<Rightarrow> string \<Rightarrow> string"
  intl_clock_ms :: "string \<Rightarrow> string \<Rightarrow> string"
  date_parse :: "string \<Rightarrow> jsnum"
  tz_offset :: "int \<Rightarrow> int"
  locale_compare :: "string \<Rightarrow> string \<Rightarrow> jsnum"

text \<open>An environment for examples: keys for texts, UTC, the order of code units.\<close>

definition sample_env :: env where
  "sample_env = \<lparr>tr = (\<lambda>k _. k), lang = ''en'', intl_number = (\<lambda>_ _ _. ''#''), intl_date = (\<lambda>_ _ ts. ts), intl_clock_ms = (\<lambda>_ ts. ts),
     date_parse = iso_parser, tz_offset = (\<lambda>_. 0),
     locale_compare = (\<lambda>a b. if a = b then 0 else if a < b then - 1 else 1)\<rparr>"

subsection \<open>The cache\<close>

record format_state =
  language :: string
  fcache :: "(string \<times> formatter) list"

definition cached :: "string \<Rightarrow> (string \<Rightarrow> formatter) \<Rightarrow> format_state \<Rightarrow> formatter \<times> format_state" where
  "cached key mk st =
     (let locale = localeBcp47 (language st);
          id = locale @ ''|'' @ key
      in case map_get (fcache st) id of
           Some f \<Rightarrow> (f, st)
         | None \<Rightarrow> (let f = mk locale in (f, st\<lparr>fcache := map_set id f (fcache st)\<rparr>)))"

definition decimals :: "nat \<Rightarrow> format_state \<Rightarrow> formatter \<times> format_state" where
  "decimals digits = cached (''n'' @ nat_digits digits) (\<lambda>locale. Number_Format locale digits)"

definition date_key :: "date_style \<Rightarrow> string" where
  "date_key s = (case s of Hour_Minute \<Rightarrow> ''hm'' | Hour_Minute_Second \<Rightarrow> ''hms'' | Short_Medium \<Rightarrow> ''dt'')"

definition date_format :: "date_style \<Rightarrow> format_state \<Rightarrow> formatter \<times> format_state" where
  "date_format s = cached (date_key s) (\<lambda>locale. Date_Format locale s)"

text \<open>The operations on the cache, and their runs.\<close>

datatype format_op = Change_Language string | Use_Decimals nat | Use_Date date_style

fun format_step :: "format_op \<Rightarrow> format_state \<Rightarrow> format_state" where
  "format_step (Change_Language lng) st = st\<lparr>language := lng\<rparr>"
| "format_step (Use_Decimals d) st = snd (decimals d st)"
| "format_step (Use_Date s) st = snd (date_format s st)"

definition format_run :: "format_op list \<Rightarrow> format_state \<Rightarrow> format_state" where
  "format_run ops st = foldl (\<lambda>st op. format_step op st) st ops"

text \<open>Every entry is the formatter its identifier names.\<close>

definition cache_ok :: "(string \<times> formatter) list \<Rightarrow> bool" where
  "cache_ok c \<longleftrightarrow>
     (\<forall>id f. map_get c id = Some f \<longrightarrow>
        (\<exists>locale. CHR ''|'' \<notin> set locale \<and>
           ((\<exists>d. id = locale @ ''|n'' @ nat_digits d \<and> f = Number_Format locale d) \<or>
            (\<exists>s. id = locale @ ''|'' @ date_key s \<and> f = Date_Format locale s))))"

subsection \<open>Formatting\<close>

definition formatNumber :: "env \<Rightarrow> jsnum \<Rightarrow> nat \<Rightarrow> string" where
  "formatNumber e v digits = intl_number e (localeBcp47 (lang e)) digits v"

definition formatPercent :: "env \<Rightarrow> jsnum \<Rightarrow> nat \<Rightarrow> string" where
  "formatPercent e v digits = formatNumber e v digits @ ''%''"

text \<open>The no-break space between a value and its unit.\<close>

definition nbsp :: char where
  "nbsp = CHR 0xA0"

definition formatBytes :: "env \<Rightarrow> jsnum \<Rightarrow> string" where
  "formatBytes e v =
     (if v < Fin 1024 then formatNumber e (math_round v) 0 @ nbsp # ''B''
      else if v < Fin (1024 * 1024) then formatNumber e (v / Fin 1024) 1 @ nbsp # ''KiB''
      else if v < Fin (1024 * 1024 * 1024) then formatNumber e (v / Fin 1024 / Fin 1024) 1 @ nbsp # ''MiB''
      else formatNumber e (v / Fin 1024 / Fin 1024 / Fin 1024) 2 @ nbsp # ''GiB'')"

definition formatDuration :: "env \<Rightarrow> jsnum \<Rightarrow> string" where
  "formatDuration e ms =
     (if ms < Fin 1000 then formatNumber e ms 0 @ nbsp # ''ms''
      else formatNumber e (ms / Fin 1000) 2 @ nbsp # ''s'')"

definition formatTime :: "env \<Rightarrow> string \<Rightarrow> string" where
  "formatTime e ts = intl_date e (localeBcp47 (lang e)) Hour_Minute ts"

definition formatClock :: "env \<Rightarrow> string \<Rightarrow> string" where
  "formatClock e ts = intl_date e (localeBcp47 (lang e)) Hour_Minute_Second ts"

definition formatDateTime :: "env \<Rightarrow> string \<Rightarrow> string" where
  "formatDateTime e ts = intl_date e (localeBcp47 (lang e)) Short_Medium ts"

record chart_point =
  cp_i :: int
  cp_time :: string
  cp_value :: jsnum

definition chartPoints :: "env \<Rightarrow> series_point list \<Rightarrow> (jsnum \<Rightarrow> jsnum) option \<Rightarrow> chart_point list" where
  "chartPoints e points transform =
     map (\<lambda>(i, p). \<lparr>cp_i = int i, cp_time = formatTime e (p_ts p),
            cp_value = (case transform of Some f \<Rightarrow> f (p_value p) | None \<Rightarrow> p_value p)\<rparr>)
       (enumerate 0 points)"

subsection \<open>Terminal escape sequences\<close>

definition esc :: char where
  "esc = CHR 0x1B"

definition csi_param :: "char \<Rightarrow> bool" where
  "csi_param c = (let n = code_unit c in (48 \<le> n \<and> n \<le> 57) \<or> n = 59 \<or> n = 63)"

definition csi_inter :: "char \<Rightarrow> bool" where
  "csi_inter c = (let n = code_unit c in 32 \<le> n \<and> n \<le> 47)"

definition csi_final :: "char \<Rightarrow> bool" where
  "csi_final c = (let n = code_unit c in 64 \<le> n \<and> n \<le> 126)"

text \<open>
  One match of the regular expression at the front of the text: the rest after it. The three
  classes are disjoint, so the greedy match is the only one.
\<close>

definition csi_match :: "string \<Rightarrow> string option" where
  "csi_match s = (case s of
       e # b # t \<Rightarrow>
         if e = esc \<and> b = CHR ''['' then
           (case dropWhile csi_inter (dropWhile csi_param t) of
              f # rest \<Rightarrow> if csi_final f then Some rest else None
            | [] \<Rightarrow> None)
         else None
     | _ \<Rightarrow> None)"

lemma csi_match_shorter: "csi_match s = Some rest \<Longrightarrow> length rest < length s"
proof -
  assume m: "csi_match s = Some rest"
  then obtain e b t f where s: "s = e # b # t" and d: "dropWhile csi_inter (dropWhile csi_param t) = f # rest"
    by (auto simp: csi_match_def split: list.splits if_splits)
  have "length (f # rest) \<le> length (dropWhile csi_param t)" unfolding d [symmetric] by (rule length_dropWhile_le)
  also have "\<dots> \<le> length t" by (rule length_dropWhile_le)
  finally show ?thesis by (simp add: s)
qed

function strip_sequences :: "string \<Rightarrow> string" where
  "strip_sequences s =
     (case csi_match s of
        Some rest \<Rightarrow> strip_sequences rest
      | None \<Rightarrow> (case s of [] \<Rightarrow> [] | c # t \<Rightarrow> c # strip_sequences t))"
  by pat_completeness auto
termination
  by (relation "measure length") (auto dest: csi_match_shorter)

declare strip_sequences.simps [simp del]

definition stripAnsi :: "string \<Rightarrow> string" where
  "stripAnsi text = (if esc \<in> set text then strip_sequences text else text)"

subsection \<open>The cache is transparent\<close>

lemma bar_split:
  assumes "a @ CHR ''|'' # s = b @ CHR ''|'' # t" "CHR ''|'' \<notin> set a" "CHR ''|'' \<notin> set b"
  shows "a = b \<and> s = t"
proof -
  have "takeWhile (\<lambda>c. c \<noteq> CHR ''|'') (a @ CHR ''|'' # s) = a"
    using assms(2) by (subst takeWhile_append2) auto
  moreover have "takeWhile (\<lambda>c. c \<noteq> CHR ''|'') (b @ CHR ''|'' # t) = b"
    using assms(3) by (subst takeWhile_append2) auto
  ultimately have "a = b" using assms(1) by simp
  with assms(1) show ?thesis by simp
qed

lemma nat_digits_inject: "nat_digits a = nat_digits b \<Longrightarrow> a = b"
  by (metis digits_val_nat_digits)

lemma date_key_inject: "date_key a = date_key b \<Longrightarrow> a = b"
  by (cases a; cases b) (simp_all add: date_key_def)

lemma date_key_not_n: "date_key s \<noteq> CHR ''n'' # t"
  by (cases s) (simp_all add: date_key_def)

text \<open>What a cache entry under one of the two kinds of key can be.\<close>

lemma cache_ok_number:
  assumes ok: "cache_ok c" and bar: "CHR ''|'' \<notin> set locale"
    and get: "map_get c (locale @ ''|'' @ ''n'' @ nat_digits d) = Some f"
  shows "f = Number_Format locale d"
proof -
  obtain l where l: "CHR ''|'' \<notin> set l"
    and e: "(\<exists>k. locale @ CHR ''|'' # CHR ''n'' # nat_digits d = l @ CHR ''|'' # CHR ''n'' # nat_digits k \<and> f = Number_Format l k) \<or>
            (\<exists>s. locale @ CHR ''|'' # CHR ''n'' # nat_digits d = l @ CHR ''|'' # date_key s \<and> f = Date_Format l s)"
    using ok get unfolding cache_ok_def by fastforce
  from e show ?thesis
    using bar_split [OF _ bar l] nat_digits_inject date_key_not_n by (metis list.inject)
qed

lemma cache_ok_date:
  assumes ok: "cache_ok c" and bar: "CHR ''|'' \<notin> set locale"
    and get: "map_get c (locale @ ''|'' @ date_key s) = Some f"
  shows "f = Date_Format locale s"
proof -
  obtain l where l: "CHR ''|'' \<notin> set l"
    and e: "(\<exists>k. locale @ CHR ''|'' # date_key s = l @ CHR ''|'' # CHR ''n'' # nat_digits k \<and> f = Number_Format l k) \<or>
            (\<exists>s'. locale @ CHR ''|'' # date_key s = l @ CHR ''|'' # date_key s' \<and> f = Date_Format l s')"
    using ok get unfolding cache_ok_def by fastforce
  from e show ?thesis
    using bar_split [OF _ bar l] date_key_inject date_key_not_n by metis
qed

lemma cache_ok_Nil: "cache_ok []"
  by (simp add: cache_ok_def map_get_def)

lemma cache_ok_set:
  assumes "cache_ok c" "CHR ''|'' \<notin> set locale"
    and "(\<exists>d. ident = locale @ ''|n'' @ nat_digits d \<and> f = Number_Format locale d) \<or>
         (\<exists>s. ident = locale @ ''|'' @ date_key s \<and> f = Date_Format locale s)"
  shows "cache_ok (map_set ident f c)"
  using assms unfolding cache_ok_def map_get_set by (metis option.inject)

lemma decimals_result:
  assumes "cache_ok (fcache st)"
  shows "fst (decimals d st) = Number_Format (localeBcp47 (language st)) d"
proof (cases "map_get (fcache st) (localeBcp47 (language st) @ ''|'' @ ''n'' @ nat_digits d)")
  case None
  then show ?thesis by (simp add: decimals_def cached_def Let_def)
next
  case (Some f)
  then show ?thesis
    using cache_ok_number [OF assms localeBcp47_no_bar Some] by (simp add: decimals_def cached_def Let_def)
qed

lemma date_format_result:
  assumes "cache_ok (fcache st)"
  shows "fst (date_format s st) = Date_Format (localeBcp47 (language st)) s"
proof (cases "map_get (fcache st) (localeBcp47 (language st) @ ''|'' @ date_key s)")
  case None
  then show ?thesis by (simp add: date_format_def cached_def Let_def)
next
  case (Some f)
  then show ?thesis
    using cache_ok_date [OF assms localeBcp47_no_bar Some] by (simp add: date_format_def cached_def Let_def)
qed

lemma cache_ok_step: "cache_ok (fcache st) \<Longrightarrow> cache_ok (fcache (format_step op st))"
proof (cases op)
  case (Use_Decimals d)
  assume ok: "cache_ok (fcache st)"
  have "cache_ok (map_set (localeBcp47 (language st) @ ''|n'' @ nat_digits d) (Number_Format (localeBcp47 (language st)) d) (fcache st))"
    by (intro cache_ok_set [OF ok localeBcp47_no_bar]) blast
  with ok Use_Decimals show ?thesis
    by (simp add: decimals_def cached_def Let_def split: option.split)
next
  case (Use_Date s)
  assume ok: "cache_ok (fcache st)"
  have "cache_ok (map_set (localeBcp47 (language st) @ ''|'' @ date_key s) (Date_Format (localeBcp47 (language st)) s) (fcache st))"
    by (intro cache_ok_set [OF ok localeBcp47_no_bar]) blast
  with ok Use_Date show ?thesis
    by (simp add: date_format_def cached_def Let_def split: option.split)
qed simp

lemma cache_ok_run: "cache_ok (fcache st) \<Longrightarrow> cache_ok (fcache (format_run ops st))"
  unfolding format_run_def by (induction ops arbitrary: st) (auto intro: cache_ok_step)

subsection \<open>What stripping leaves\<close>

lemma csi_classes_disjoint:
  "csi_param c \<Longrightarrow> \<not> csi_inter c" "csi_final c \<Longrightarrow> \<not> csi_inter c" "csi_final c \<Longrightarrow> \<not> csi_param c"
  by (auto simp: csi_param_def csi_inter_def csi_final_def Let_def)

definition csi :: "string \<Rightarrow> string \<Rightarrow> char \<Rightarrow> string" where
  "csi ps is f = esc # CHR ''['' # ps @ is @ [f]"

lemma csi_match_csi:
  assumes "\<forall>c\<in>set ps. csi_param c" "\<forall>c\<in>set is. csi_inter c" "csi_final f"
  shows "csi_match (csi ps is f @ rest) = Some rest"
proof -
  have i: "dropWhile csi_inter (is @ f # rest) = f # rest"
    using assms(2,3) csi_classes_disjoint by (subst dropWhile_append2) auto
  have "dropWhile csi_param (ps @ is @ f # rest) = is @ f # rest"
  proof (cases "is")
    case Nil
    with assms(1,3) csi_classes_disjoint show ?thesis by (subst dropWhile_append2) auto
  next
    case (Cons a list)
    with assms(1,2) csi_classes_disjoint show ?thesis by (subst dropWhile_append2) auto
  qed
  with i assms(3) show ?thesis by (simp add: csi_def csi_match_def)
qed

lemma strip_plain: "esc \<notin> set s \<Longrightarrow> strip_sequences s = s"
proof (induction s)
  case Nil
  then show ?case by (subst strip_sequences.simps) (simp add: csi_match_def)
next
  case (Cons c s)
  then have "csi_match (c # s) = None" by (auto simp: csi_match_def split: list.split)
  with Cons show ?case by (subst strip_sequences.simps) simp
qed

lemma strip_plain_append: "esc \<notin> set s \<Longrightarrow> strip_sequences (s @ t) = s @ strip_sequences t"
proof (induction s)
  case Nil
  then show ?case by simp
next
  case (Cons c s)
  then have "csi_match (c # s @ t) = None" by (auto simp: csi_match_def split: list.split)
  with Cons show ?case by (subst strip_sequences.simps) simp
qed

text \<open>Plain text with escape sequences between its pieces, as a terminal program writes it.\<close>

fun ansi_render :: "(string \<times> string \<times> string \<times> char) list \<Rightarrow> string \<Rightarrow> string" where
  "ansi_render [] t = t"
| "ansi_render ((s, ps, is, f) # xs) t = s @ csi ps is f @ ansi_render xs t"

definition ansi_ok :: "(string \<times> string \<times> string \<times> char) list \<Rightarrow> string \<Rightarrow> bool" where
  "ansi_ok xs t \<longleftrightarrow> esc \<notin> set t \<and>
     (\<forall>(s, ps, is, f)\<in>set xs. esc \<notin> set s \<and> list_all csi_param ps \<and> list_all csi_inter is \<and> csi_final f)"

lemma strip_ansi_render:
  "ansi_ok xs t \<Longrightarrow> strip_sequences (ansi_render xs t) = concat (map fst xs) @ t"
proof (induction xs t rule: ansi_render.induct)
  case (1 t)
  then show ?case by (simp add: ansi_ok_def strip_plain)
next
  case (2 s ps "is" f xs t)
  then have "csi_match (csi ps is f @ ansi_render xs t) = Some (ansi_render xs t)"
    by (intro csi_match_csi) (simp_all add: ansi_ok_def list_all_iff)
  then have "strip_sequences (csi ps is f @ ansi_render xs t) = strip_sequences (ansi_render xs t)"
    by (subst strip_sequences.simps) simp
  with 2 show ?case by (simp add: strip_plain_append ansi_ok_def)
qed

lemma stripAnsi_eq: "stripAnsi s = strip_sequences s"
  by (simp add: stripAnsi_def strip_plain)

lemma strip_subset: "set (strip_sequences s) \<subseteq> set s"
proof (induction s rule: strip_sequences.induct)
  case (1 s)
  have sub: "set rest \<subseteq> set s" if "csi_match s = Some rest" for rest
  proof -
    from that obtain e b t f where s: "s = e # b # t"
      and d: "dropWhile csi_inter (dropWhile csi_param t) = f # rest"
      by (auto simp: csi_match_def split: list.splits if_splits)
    have "set (dropWhile csi_inter (dropWhile csi_param t)) \<subseteq> set t"
      by (meson set_dropWhileD subsetI)
    with d s show ?thesis by auto
  qed
  show ?case
  proof (cases "csi_match s")
    case None
    show ?thesis
    proof (cases s)
      case Nil
      with None show ?thesis by (subst strip_sequences.simps) simp
    next
      case (Cons c t)
      with 1(1) None have "set (strip_sequences t) \<subseteq> set t" by blast
      with None Cons show ?thesis by (subst strip_sequences.simps) auto
    qed
  next
    case (Some rest)
    with 1(2) sub show ?thesis by (subst strip_sequences.simps) auto
  qed
qed

subsection \<open>Properties\<close>

text \<open>C39. Caching never shows: after any sequence of language changes and uses, starting from the
  empty cache, the formatter returned is the one of the current language with the options asked
  for.\<close>

theorem formatter_cache_transparent:
  fixes ops :: "format_op list" and lng :: string
  shows "fst (decimals d (format_run ops \<lparr>language = lng, fcache = []\<rparr>))
           = Number_Format (localeBcp47 (language (format_run ops \<lparr>language = lng, fcache = []\<rparr>))) d
       \<and> fst (date_format s (format_run ops \<lparr>language = lng, fcache = []\<rparr>))
           = Date_Format (localeBcp47 (language (format_run ops \<lparr>language = lng, fcache = []\<rparr>))) s"
proof -
  have "cache_ok (fcache (format_run ops \<lparr>language = lng, fcache = []\<rparr>))"
    by (intro cache_ok_run) (simp add: cache_ok_Nil)
  then show ?thesis by (simp add: decimals_result date_format_result)
qed

text \<open>Stripping escape sequences keeps exactly the plain text: for text with control
  sequences anywhere between its plain pieces, what is left is the pieces.\<close>

theorem stripAnsi_keeps_text:
  assumes "ansi_ok xs t"
  shows "stripAnsi (ansi_render xs t) = concat (map fst xs) @ t"
  using assms by (simp add: stripAnsi_eq strip_ansi_render)

lemma stripAnsi_keeps_text_witness:
  "stripAnsi (ansi_render [(''a'', ''1;31'', [], CHR ''m''), (''b'', ''0'', [], CHR ''m'')] ''c'') = ''abc''"
  by (subst stripAnsi_keeps_text)
    (simp_all add: ansi_ok_def esc_def csi_param_def csi_final_def)

end
