(* ===== verification/Labels.thy ===== *)
theory Labels
  imports Format
begin

text \<open>
  The small vocabularies the views share: \<open>lib/meter.ts\<close>, \<open>lib/severity.ts\<close>,
  \<open>lib/slo.ts\<close>, \<open>lib/i18n-catalog.ts\<close>, \<open>lib/chart-colors.ts\<close> and
  \<open>lib/navigation.ts\<close> (without its icons). A lookup table is a function to an option; a key that
  names a member of \<open>Object.prototype\<close> is outside the model.
\<close>

subsection \<open>Meters\<close>

datatype meter_tone = Tone_Default | Tone_Warning | Tone_Critical

definition meterTone :: "jsnum \<Rightarrow> jsnum \<Rightarrow> jsnum \<Rightarrow> meter_tone" where
  "meterTone v warnAt criticalAt =
     (if v \<ge> criticalAt then Tone_Critical else if v \<ge> warnAt then Tone_Warning else Tone_Default)"

fun barTone :: "meter_tone \<Rightarrow> string" where
  "barTone Tone_Default = ''bg-primary''"
| "barTone Tone_Warning = ''bg-amber-500''"
| "barTone Tone_Critical = ''bg-destructive''"

fun textTone :: "meter_tone \<Rightarrow> string" where
  "textTone Tone_Default = ''''"
| "textTone Tone_Warning = ''text-amber-700 dark:text-amber-400''"
| "textTone Tone_Critical = ''text-destructive''"

subsection \<open>Severities\<close>

definition severityVariant :: "string \<Rightarrow> string option" where
  "severityVariant s = map_of
     [(''critical'', ''destructive''), (''warning'', ''secondary''), (''info'', ''outline''),
      (''debug'', ''outline'')] s"

definition severityLabel :: "translate \<Rightarrow> string \<Rightarrow> string" where
  "severityLabel t severity =
     (if severity = ''critical'' then t ''severity.critical'' []
      else if severity = ''warning'' then t ''severity.warning'' []
      else if severity = ''info'' then t ''severity.info'' []
      else if severity = ''debug'' then t ''severity.debug'' []
      else severity)"

subsection \<open>Objectives\<close>

definition budgetTone :: "jsnum \<Rightarrow> meter_tone" where
  "budgetTone pct =
     (if pct < Fin 10 then Tone_Critical else if pct < Fin 30 then Tone_Warning else Tone_Default)"

definition sloObjective :: "translate \<Rightarrow> slo_definition \<Rightarrow> string" where
  "sloObjective t s =
     (if sli_metric s = ''latency_p95''
      then t ''slo.latency'' [(''ms'', TNum (latency_threshold_ms s)), (''target'', TNum (slo_target s))]
      else t ''slo.availability'' [(''target'', TNum (slo_target s))])"

definition sloMetricsLink :: "slo_definition \<Rightarrow> string" where
  "sloMetricsLink s =
     (let metric = if sli_metric s = ''latency_p95'' then ''http.duration_ms'' else ''http.error_rate''
      in ''/metrics?mode=compare&metric='' @ metric @ ''&service='' @ encodeURIComponent (slo_service s))"

subsection \<open>The catalogue of translations\<close>

definition RULE_KEYS :: "string \<Rightarrow> string option" where
  "RULE_KEYS k = map_of [(''cpu-high'', ''alerts.cpuHigh''), (''memory-high'', ''alerts.memoryHigh'')] k"

definition METRIC_KEYS :: "string \<Rightarrow> string option" where
  "METRIC_KEYS k = map_of
     [(''cpu.usage'', ''metrics.cpuUsage''), (''memory.usage'', ''metrics.memoryUsage''),
      (''memory.usage_pct'', ''metrics.memoryPct''), (''memory.limit'', ''metrics.memoryLimit''),
      (''http.duration_ms'', ''metrics.httpDuration''), (''http.error_rate'', ''metrics.httpErrorRate''),
      (''http.requests'', ''metrics.httpRequests''), (''http.status'', ''metrics.httpStatus''),
      (''network.rx'', ''metrics.netRx''), (''network.tx'', ''metrics.netTx''),
      (''block.read'', ''metrics.diskRead''), (''block.write'', ''metrics.diskWrite'')] k"

definition localizeAlertTitle :: "translate \<Rightarrow> string \<Rightarrow> string \<Rightarrow> string" where
  "localizeAlertTitle t ruleId fallback =
     (case RULE_KEYS ruleId of Some key \<Rightarrow> t key [] | None \<Rightarrow> fallback)"

definition localizeAlertSummary :: "env \<Rightarrow> string \<Rightarrow> jsnum \<Rightarrow> string \<Rightarrow> string" where
  "localizeAlertSummary e ruleId v fallback =
     (if RULE_KEYS ruleId \<noteq> None then tr e ''alerts.valueNow'' [(''value'', TStr (formatPercent e v 1))]
      else fallback)"

definition localizeMetricLabel :: "translate \<Rightarrow> string \<Rightarrow> string \<Rightarrow> string" where
  "localizeMetricLabel t metricName fallback =
     (case METRIC_KEYS metricName of Some key \<Rightarrow> t key [] | None \<Rightarrow> fallback)"

definition localizeInsightTheme :: "translate \<Rightarrow> string \<Rightarrow> string" where
  "localizeInsightTheme t theme =
     (let key = ''insightTheme.'' @ theme; label = t key [] in if label = key then theme else label)"

subsection \<open>Colours\<close>

definition PALETTE :: "string list" where
  "PALETTE =
     [''var(--chart-1)'', ''var(--chart-2)'', ''var(--chart-3)'', ''var(--chart-4)'', ''var(--chart-5)'',
      ''hsl(262 83% 58%)'', ''hsl(173 58% 39%)'', ''hsl(43 74% 49%)'', ''hsl(0 72% 51%)'', ''hsl(199 89% 48%)'']"

definition containerColor :: "nat \<Rightarrow> string" where
  "containerColor index = PALETTE ! (index mod length PALETTE)"

subsection \<open>Navigation\<close>

record nav_item =
  nav_to :: string
  nav_label_key :: string
  nav_end :: "bool option"

definition navItems :: "nav_item list" where
  "navItems =
     [\<lparr>nav_to = ''/'', nav_label_key = ''nav.overview'', nav_end = Some True\<rparr>,
      \<lparr>nav_to = ''/problems'', nav_label_key = ''nav.problems'', nav_end = None\<rparr>,
      \<lparr>nav_to = ''/containers'', nav_label_key = ''nav.containers'', nav_end = None\<rparr>,
      \<lparr>nav_to = ''/metrics'', nav_label_key = ''nav.metrics'', nav_end = None\<rparr>,
      \<lparr>nav_to = ''/logs'', nav_label_key = ''nav.logs'', nav_end = None\<rparr>,
      \<lparr>nav_to = ''/traces'', nav_label_key = ''nav.traces'', nav_end = None\<rparr>,
      \<lparr>nav_to = ''/topology'', nav_label_key = ''nav.topology'', nav_end = None\<rparr>]"

definition isNavItemActive :: "nav_item \<Rightarrow> string \<Rightarrow> bool" where
  "isNavItemActive item pathname =
     (if coalesce (nav_end item) False then pathname = nav_to item else starts_with pathname (nav_to item))"

lemma meterTone_cases:
  "meterTone v w c = Tone_Critical \<longleftrightarrow> v \<ge> c"
  "meterTone v w c = Tone_Warning \<longleftrightarrow> \<not> v \<ge> c \<and> v \<ge> w"
  by (simp_all add: meterTone_def)

lemma containerColor_palette: "containerColor i \<in> set PALETTE"
  unfolding containerColor_def by (rule nth_mem) (simp add: PALETTE_def)

text \<open>Ten series in a row have ten colours.\<close>

lemma containerColor_distinct:
  assumes "containerColor i = containerColor j" "i \<le> j" "j < i + 10"
  shows "i = j"
proof -
  have d: "distinct PALETTE" by (simp add: PALETTE_def)
  have l: "length PALETTE = 10" by (simp add: PALETTE_def)
  have "i mod 10 = j mod 10"
    using assms(1) d by (simp add: containerColor_def l nth_eq_iff_index_eq)
  then have "10 dvd j - i" using mod_eq_dvd_iff_nat [OF assms(2), of 10] by simp
  then obtain k where "j - i = 10 * k" by (rule dvdE)
  then show ?thesis using assms(2,3) by (cases k) simp_all
qed

subsection \<open>Properties\<close>

text \<open>Every entry of the sidebar leads to a page, and on whatever path the panel is, at most
  one entry is highlighted; on the path of an entry it is that one.\<close>

theorem navigation_consistent:
  "list_all (\<lambda>i. (\<exists>p. app_route (tl (nav_to i)) = Render p) \<and> isNavItemActive i (nav_to i)) navItems
   \<and> length (filter (\<lambda>i. isNavItemActive i pathname) navItems) \<le> 1"
  by (auto simp: navItems_def app_route_def isNavItemActive_def starts_with_iff)

end
