(* ===== verification/Stack_Series.thy ===== *)
theory Stack_Series
  imports Labels
begin

text \<open>
  \<open>lib/series.ts\<close>: the rows of a stacked chart, one per minute, with the mean of each container's
  samples in it. The buckets are maps in insertion order; the specification speaks of the samples
  the loop accepts. Counts are naturals (a cell cannot count \<open>2^53\<close> samples).
\<close>

record stack_series =
  sk_container :: string
  sk_points :: "series_point list option"

record stack_cell =
  cell_sum :: jsnum
  cell_n :: nat

type_synonym stack_row = "(string \<times> stack_cell) list"

definition empty_cell :: stack_cell where
  "empty_cell = \<lparr>cell_sum = 0, cell_n = 0\<rparr>"

definition add_cell :: "jsnum \<Rightarrow> stack_cell \<Rightarrow> stack_cell" where
  "add_cell v cell = \<lparr>cell_sum = cell_sum cell + v, cell_n = cell_n cell + 1\<rparr>"

definition stack_minute :: "env \<Rightarrow> string \<Rightarrow> jsnum" where
  "stack_minute e ts = math_floor (date_parse e ts / Fin 60000) * Fin 60000"

text \<open>One pass of the inner loop.\<close>

definition stack_point ::
  "env \<Rightarrow> (jsnum \<Rightarrow> jsnum) option \<Rightarrow> string \<Rightarrow> (jsnum \<times> stack_row) list \<Rightarrow> series_point \<Rightarrow> (jsnum \<times> stack_row) list" where
  "stack_point e transform container buckets p =
     (let minute = stack_minute e (p_ts p) in
      if \<not> is_finite minute then buckets
      else let v = (case transform of Some f \<Rightarrow> f (p_value p) | None \<Rightarrow> p_value p) in
        if \<not> is_finite v then buckets
        else let row = coalesce (map_get buckets minute) [];
                 cell = coalesce (map_get row container) empty_cell
             in map_set minute (map_set container (add_cell v cell) row) buckets)"

definition stack_buckets ::
  "env \<Rightarrow> (jsnum \<Rightarrow> jsnum) option \<Rightarrow> stack_series list \<Rightarrow> (jsnum \<times> stack_row) list" where
  "stack_buckets e transform series =
     foldl (\<lambda>buckets s. foldl (stack_point e transform (sk_container s)) buckets (coalesce (sk_points s) []))
       [] series"

definition cell_value :: "stack_cell option \<Rightarrow> jsnum" where
  "cell_value cell = (case cell of
       Some c \<Rightarrow> if cell_n c > 0 then cell_sum c / num_of_int (int (cell_n c)) else 0
     | None \<Rightarrow> 0)"

definition mergeStacked ::
  "env \<Rightarrow> stack_series list \<Rightarrow> (jsnum \<Rightarrow> jsnum) option \<Rightarrow> chart_row list" where
  "mergeStacked e series transform =
     (let buckets = stack_buckets e transform series;
          names = map sk_container series
      in map (\<lambda>minute.
            let cells = coalesce (map_get buckets minute) []
            in foldl (\<lambda>out name. map_set name (CNum (cell_value (map_get cells name))) out)
                 [(''time'', CStr (formatTime e (to_iso (time_int minute))))] names)
          (js_sort (\<lambda>a b. a - b) (map_keys buckets)))"

subsection \<open>The samples a chart is made of\<close>

definition accepted ::
  "env \<Rightarrow> (jsnum \<Rightarrow> jsnum) option \<Rightarrow> stack_series \<Rightarrow> (jsnum \<times> string \<times> jsnum) list" where
  "accepted e transform s =
     filter (\<lambda>(m, c, v). is_finite m \<and> is_finite v)
       (map (\<lambda>p. (stack_minute e (p_ts p), sk_container s,
                  case transform of Some f \<Rightarrow> f (p_value p) | None \<Rightarrow> p_value p))
          (coalesce (sk_points s) []))"

definition stack_samples ::
  "env \<Rightarrow> (jsnum \<Rightarrow> jsnum) option \<Rightarrow> stack_series list \<Rightarrow> (jsnum \<times> string \<times> jsnum) list" where
  "stack_samples e transform series = concat (map (accepted e transform) series)"

definition samples_of :: "(jsnum \<times> string \<times> jsnum) list \<Rightarrow> jsnum \<Rightarrow> string \<Rightarrow> jsnum list" where
  "samples_of xs minute name = map (snd \<circ> snd) (filter (\<lambda>(m, c, _). m = minute \<and> c = name) xs)"

definition mean :: "jsnum list \<Rightarrow> jsnum" where
  "mean vs = (if vs = [] then 0 else foldl (+) 0 vs / length_num vs)"

definition cell_step :: "jsnum \<times> string \<times> jsnum \<Rightarrow> stack_cell option \<Rightarrow> stack_cell" where
  "cell_step x old = add_cell (snd (snd x)) (coalesce old empty_cell)"

definition row_step :: "jsnum \<times> string \<times> jsnum \<Rightarrow> stack_row option \<Rightarrow> stack_row" where
  "row_step x old =
     (let row = coalesce old [] in map_set (fst (snd x)) (cell_step x (map_get row (fst (snd x)))) row)"

lemma stack_points_samples:
  "foldl (stack_point e f c) b ps
     = js_map.upsert_all fst row_step (accepted e f \<lparr>sk_container = c, sk_points = Some ps\<rparr>) b"
  by (induction ps arbitrary: b)
    (simp_all add: accepted_def stack_point_def row_step_def cell_step_def Let_def)

lemma upsert_all_append:
  "js_map.upsert_all key f (xs @ ys) m = js_map.upsert_all key f ys (js_map.upsert_all key f xs m)"
  by (simp add: js_map.upsert_all_def)

lemma accepted_points:
  "accepted e f \<lparr>sk_container = sk_container s, sk_points = Some (coalesce (sk_points s) [])\<rparr> = accepted e f s"
  by (simp add: accepted_def)

lemma stack_buckets_samples:
  "stack_buckets e f series = js_map.upsert_all fst row_step (stack_samples e f series) []"
proof -
  have "foldl (\<lambda>b s. foldl (stack_point e f (sk_container s)) b (coalesce (sk_points s) [])) b series
      = js_map.upsert_all fst row_step (stack_samples e f series) b" for b
    by (induction series arbitrary: b)
      (simp_all add: stack_samples_def stack_points_samples accepted_points upsert_all_append)
  then show ?thesis by (simp add: stack_buckets_def)
qed

text \<open>A loop over options that starts from nothing.\<close>

lemma foldl_option:
  assumes "\<And>x v. f x v = g x (coalesce v d)"
  shows "foldl (\<lambda>v x. Some (f x v)) (Some v) xs = Some (foldl (\<lambda>v x. g x v) v xs)"
    and "foldl (\<lambda>v x. Some (f x v)) None xs = (if xs = [] then None else Some (foldl (\<lambda>v x. g x v) d xs))"
proof -
  show some: "foldl (\<lambda>v x. Some (f x v)) (Some v) xs = Some (foldl (\<lambda>v x. g x v) v xs)" for v
    by (induction xs arbitrary: v) (simp_all add: assms)
  show "foldl (\<lambda>v x. Some (f x v)) None xs = (if xs = [] then None else Some (foldl (\<lambda>v x. g x v) d xs))"
  proof (cases xs)
    case (Cons y ys)
    have "foldl (\<lambda>v x. Some (f x v)) (Some w) ys = Some (foldl (\<lambda>v x. g x v) w ys)" for w
      by (induction ys arbitrary: w) (simp_all add: assms)
    with Cons show ?thesis by (simp add: assms)
  qed simp
qed

lemma bucket_row:
  "coalesce (map_get (js_map.upsert_all fst row_step xs []) m) []
     = js_map.upsert_all (fst \<circ> snd) cell_step (filter (\<lambda>x. fst x = m) xs) []"
proof -
  have "foldl (\<lambda>v x. Some (row_step x v)) None ys
      = (if ys = [] then None else Some (js_map.upsert_all (fst \<circ> snd) cell_step ys []))" for ys
    unfolding js_map.upsert_all_def
    by (subst foldl_option(2) [where d = "[]" and g = "\<lambda>x row. map_set (fst (snd x)) (cell_step x (map_get row (fst (snd x)))) row"])
      (simp_all add: row_step_def Let_def)
  then show ?thesis unfolding js_map.lookup_upsert by (simp add: map_get_def)
qed

lemma add_cells:
  "foldl (\<lambda>c x. add_cell (snd (snd x)) c) c xs
     = \<lparr>cell_sum = foldl (+) (cell_sum c) (map (snd \<circ> snd) xs), cell_n = cell_n c + length xs\<rparr>"
  by (induction xs arbitrary: c) (simp_all add: add_cell_def)

lemma bucket_cell:
  "cell_value (map_get (js_map.upsert_all (fst \<circ> snd) cell_step xs []) n)
     = mean (map (snd \<circ> snd) (filter (\<lambda>x. fst (snd x) = n) xs))"
proof -
  let ?ys = "filter (\<lambda>x. (fst \<circ> snd) x = n) xs"
  have "foldl (\<lambda>v x. Some (cell_step x v)) None ?ys
      = (if ?ys = [] then None else Some (foldl (\<lambda>c x. add_cell (snd (snd x)) c) empty_cell ?ys))"
    by (rule foldl_option(2)) (simp add: cell_step_def)
  then show ?thesis
    unfolding js_map.lookup_upsert
    by (simp add: map_get_def add_cells cell_value_def mean_def empty_cell_def length_num_def)
qed

lemma map_get_names:
  "map_get (foldl (\<lambda>out n. map_set n (g n) out) out ns) k = (if k \<in> set ns then Some (g k) else map_get out k)"
  by (induction ns arbitrary: out) (auto simp: map_get_set)

lemma minute_double: "is_finite (stack_minute e ts) \<Longrightarrow> is_double (stack_minute e ts)"
proof -
  have "is_double (x * Fin b)" if "is_finite (x * Fin b)" for x b
    using that to_num_Fin by (cases x) (auto simp: is_finite_def is_double_def inf_of_sign_def split: jsnum.splits if_splits)
  then show "is_finite (stack_minute e ts) \<Longrightarrow> is_double (stack_minute e ts)" by (simp add: stack_minute_def)
qed

lemma samples_double: "x \<in> set (stack_samples e f series) \<Longrightarrow> is_double (fst x)"
  by (auto simp: stack_samples_def accepted_def minute_double)

definition stack_minutes :: "env \<Rightarrow> (jsnum \<Rightarrow> jsnum) option \<Rightarrow> stack_series list \<Rightarrow> jsnum list" where
  "stack_minutes e f series = js_sort (\<lambda>a b. a - b) (firsts (map fst (stack_samples e f series)))"

lemma stack_minutes_set: "set (stack_minutes e f series) = fst ` set (stack_samples e f series)"
  by (simp add: stack_minutes_def)

lemma stack_minutes_sorted: "sorted_wrt (<) (stack_minutes e f series)"
proof -
  let ?ms = "stack_minutes e f series"
  have d: "\<forall>m\<in>set ?ms. is_double m" using samples_double by (auto simp: stack_minutes_set)
  have "sorted_wrt (\<lambda>x y. \<not> 0 < x - y) ?ms"
    unfolding stack_minutes_def using d
    by (intro numbers.asc.sorted_js_sort) (simp add: stack_minutes_def)
  moreover have "distinct ?ms"
    unfolding stack_minutes_def using distinct_map_js_sort [of "\<lambda>x. x" "\<lambda>a b. a - b"] by simp
  ultimately have s: "sorted_wrt (\<lambda>x y. \<not> 0 < x - y \<and> x \<noteq> y) ?ms"
    by (simp add: sorted_wrt_iff_nth_less nth_eq_iff_index_eq)
  have lt: "x < y" if "is_double x" "is_double y" "\<not> 0 < x - y \<and> x \<noteq> y" for x y
  proof -
    have "\<not> y < x" using that sign_minus_double [of x y] by blast
    with that show ?thesis by (auto simp: is_double_def split: jsnum.splits)
  qed
  show ?thesis by (rule sorted_wrt_mono_rel [OF _ s]) (use lt d in blast)
qed

lemma mergeStacked_rows:
  "mergeStacked e series f = map (\<lambda>m.
      foldl (\<lambda>out n. map_set n (CNum (mean (samples_of (stack_samples e f series) m n))) out)
        [(''time'', CStr (formatTime e (to_iso (time_int m))))] (map sk_container series))
     (stack_minutes e f series)"
proof -
  have keys: "map_keys (stack_buckets e f series) = firsts (map fst (stack_samples e f series))"
    unfolding stack_buckets_samples js_map.keys_upsert by (simp add: firsts_def map_keys_def)
  have "cell_value (map_get (coalesce (map_get (stack_buckets e f series) m) []) n)
      = mean (samples_of (stack_samples e f series) m n)" for m n
    unfolding stack_buckets_samples bucket_row bucket_cell
    by (simp add: samples_of_def case_prod_unfold conj_commute)
  then show ?thesis
    unfolding mergeStacked_def Let_def keys stack_minutes_def by simp
qed

subsection \<open>Properties\<close>

text \<open>C8. A stacked chart has one row for each minute some container has a sample in, in
  increasing time; in each row every container of the chart has a value, the mean of its samples of
  that minute, zero when it has none.\<close>

theorem stacked_rows_functional:
  "\<exists>minutes. sorted_wrt (<) minutes \<and> set minutes = fst ` set (stack_samples e f series)
     \<and> length (mergeStacked e series f) = length minutes
     \<and> (\<forall>i < length minutes. \<forall>n.
          map_get (mergeStacked e series f ! i) n =
            (if n \<in> sk_container ` set series
             then Some (CNum (mean (samples_of (stack_samples e f series) (minutes ! i) n)))
             else if n = ''time'' then Some (CStr (formatTime e (to_iso (time_int (minutes ! i))))) else None))"
proof (intro exI conjI allI impI)
  show "sorted_wrt (<) (stack_minutes e f series)" by (rule stack_minutes_sorted)
  show "set (stack_minutes e f series) = fst ` set (stack_samples e f series)" by (rule stack_minutes_set)
  show "length (mergeStacked e series f) = length (stack_minutes e f series)" by (simp add: mergeStacked_rows)
  fix i n
  assume "i < length (stack_minutes e f series)"
  then show "map_get (mergeStacked e series f ! i) n =
      (if n \<in> sk_container ` set series
       then Some (CNum (mean (samples_of (stack_samples e f series) (stack_minutes e f series ! i) n)))
       else if n = ''time'' then Some (CStr (formatTime e (to_iso (time_int (stack_minutes e f series ! i))))) else None)"
    by (simp add: mergeStacked_rows map_get_names) (simp add: map_get_def)
qed

lemma stacked_rows_functional_witness:
  "\<exists>minutes. sorted_wrt (<) minutes
     \<and> set minutes = fst ` set (stack_samples sample_env None
          [\<lparr>sk_container = ''a'', sk_points = Some [\<lparr>p_ts = ''2026-10-06T18:01:10Z'', p_value = Fin 10\<rparr>]\<rparr>])
     \<and> length (mergeStacked sample_env
          [\<lparr>sk_container = ''a'', sk_points = Some [\<lparr>p_ts = ''2026-10-06T18:01:10Z'', p_value = Fin 10\<rparr>]\<rparr>] None)
        = length minutes"
  using stacked_rows_functional [of sample_env None
    "[\<lparr>sk_container = ''a'', sk_points = Some [\<lparr>p_ts = ''2026-10-06T18:01:10Z'', p_value = Fin 10\<rparr>]\<rparr>]"]
  by blast

end
