(* ===== verification/Stats.thy ===== *)
theory Stats
  imports Labels
begin

text \<open>
  \<open>lib/stats.ts\<close>: the summary of a series the compare view shows, the average, the maximum or a
  percentile interpolated between the two closest ranks, in binary64.
\<close>

datatype stat_mode = Avg | P85 | P90 | P95 | Max

definition STAT_MODES :: "stat_mode list" where
  "STAT_MODES = [Avg, P85, P90, P95, Max]"

fun mode_string :: "stat_mode \<Rightarrow> string" where
  "mode_string Avg = ''avg''"
| "mode_string P85 = ''p85''"
| "mode_string P90 = ''p90''"
| "mode_string P95 = ''p95''"
| "mode_string Max = ''max''"

definition parseStatMode :: "string \<Rightarrow> stat_mode" where
  "parseStatMode v =
     (case List.find (\<lambda>m. mode_string m = v) STAT_MODES of Some m \<Rightarrow> m | None \<Rightarrow> Avg)"

fun PERCENTILE :: "stat_mode \<Rightarrow> jsnum option" where
  "PERCENTILE P85 = Some (to_num (85 / 100))"
| "PERCENTILE P90 = Some (to_num (90 / 100))"
| "PERCENTILE P95 = Some (to_num (95 / 100))"
| "PERCENTILE _ = None"

text \<open>\<open>a[i]\<close> for a number: undefined outside the array, which arithmetic turns into NaN.\<close>

definition elem_at :: "jsnum list \<Rightarrow> jsnum \<Rightarrow> jsnum" where
  "elem_at xs i = (case i of
       Fin x \<Rightarrow> if x = of_int \<lfloor>x\<rfloor> \<and> 0 \<le> x \<and> \<lfloor>x\<rfloor> < int (length xs) then xs ! nat \<lfloor>x\<rfloor> else NaN
     | _ \<Rightarrow> NaN)"

definition summarize :: "jsnum list \<Rightarrow> stat_mode \<Rightarrow> jsnum option" where
  "summarize values mode =
     (if values = [] then None
      else if mode = Max then Some (foldl (\<lambda>a b. if b > a then b else a) (hd values) values)
      else case PERCENTILE mode of
          None \<Rightarrow> Some (foldl (+) 0 values / length_num values)
        | Some q \<Rightarrow>
            (let sorted = js_sort (\<lambda>a b. a - b) values;
                 rank = q * (length_num sorted - 1);
                 low = math_floor rank;
                 high = math_ceil rank
             in Some (elem_at sorted low + (elem_at sorted high - elem_at sorted low) * (rank - low))))"

definition statLabel :: "translate \<Rightarrow> stat_mode \<Rightarrow> string" where
  "statLabel t mode = t (''chart.stats.'' @ mode_string mode) []"

lemma parseStatMode_string [simp]: "parseStatMode (mode_string m) = m"
  by (cases m) (simp_all add: parseStatMode_def STAT_MODES_def)

lemma summarize_None: "summarize values mode = None \<longleftrightarrow> values = []"
  by (auto simp: summarize_def Let_def split: option.split)

subsection \<open>The maximum\<close>

lemma foldl_max:
  assumes "is_double a" "\<forall>v\<in>set vs. is_double v"
  shows "foldl (\<lambda>a b. if b > a then b else a) a vs \<in> insert a (set vs)
       \<and> (\<forall>v\<in>insert a (set vs). v \<le> foldl (\<lambda>a b. if b > a then b else a) a vs)"
  using assms
proof (induction vs arbitrary: a)
  case Nil
  then show ?case by (auto simp: is_double_def split: jsnum.splits)
next
  case (Cons b vs)
  let ?m = "if b > a then b else a"
  have d: "is_double ?m" using Cons.prems by simp
  have ab: "a \<le> ?m" "b \<le> ?m" using Cons.prems by (auto simp: is_double_def split: jsnum.splits)
  have "\<forall>v\<in>set vs. is_double v" using Cons.prems by simp
  note ih = Cons.IH [OF d this]
  have tr: "x \<le> z" if "x \<le> ?m" "?m \<le> z" for x z
    using that by (cases x; cases "?m"; cases z) auto
  have "?m \<le> foldl (\<lambda>a b. if b > a then b else a) ?m vs" using ih by blast
  with ab tr ih show ?case by (auto split: if_splits)
qed

subsection \<open>Percentiles\<close>

text \<open>Sorting doubles with the code's comparator gives the sorted permutation.\<close>

abbreviation ascending :: "jsnum list \<Rightarrow> jsnum list" where
  "ascending values \<equiv> js_sort (\<lambda>a b. a - b) values"

lemma ascending_sorted:
  assumes "\<forall>v\<in>set values. is_double v"
  shows "sorted_wrt (\<le>) (ascending values)"
proof -
  have "sorted_wrt (\<lambda>x y. \<not> 0 < x - y) (ascending values)"
    using numbers.asc.sorted_js_sort [OF assms] .
  moreover have "\<forall>v\<in>set (ascending values). is_double v" using assms by simp
  moreover have "x \<le> y" if "is_double x" "is_double y" "\<not> 0 < x - y" for x y
  proof -
    have "\<not> y < x" using that sign_minus_double [of x y] by blast
    with that(1,2) show ?thesis by (auto simp: is_double_def split: jsnum.splits)
  qed
  ultimately show ?thesis by (metis (no_types, lifting) sorted_wrt_mono_rel)
qed

lemma sorted_doubles_unique:
  "sorted_wrt (\<le>) xs \<Longrightarrow> sorted_wrt (\<le>) ys \<Longrightarrow> mset xs = mset ys \<Longrightarrow> \<forall>v\<in>set xs. is_double v \<Longrightarrow> xs = ys"
proof (induction xs arbitrary: ys)
  case Nil
  then show ?case by simp
next
  case (Cons x xs)
  then obtain y ys' where ys: "ys = y # ys'" by (cases ys) auto
  have "x \<in> set ys" "y \<in> set (x # xs)"
    using Cons.prems(3) by (metis list.set_intros(1) set_mset_mset, metis ys list.set_intros(1) set_mset_mset)
  then have "x \<le> y" "y \<le> x"
    using Cons.prems ys by (auto simp: is_double_def split: jsnum.splits)
  then have xy: "x = y" by (cases x; cases y) auto
  then have "mset xs = mset ys'" using Cons.prems(3) ys by simp
  with Cons ys xy show ?case by simp
qed

lemma ascending_unique:
  assumes "mset xs = mset ys" "\<forall>v\<in>set xs. is_double v"
  shows "ascending xs = ascending ys"
proof (rule sorted_doubles_unique)
  have "set ys = set xs" using assms(1) by (metis set_mset_mset)
  with assms show "sorted_wrt (\<le>) (ascending xs)" "sorted_wrt (\<le>) (ascending ys)"
    by (simp_all add: ascending_sorted)
qed (use assms in simp_all)

lemma percentile_unit:
  assumes "PERCENTILE mode = Some q"
  obtains y where "q = Fin y" "0 \<le> y" "y \<le> 1"
proof -
  have one: "rep 1" "\<bar>1::rat\<bar> < 2 ^ 1024" using rep_of_int [of 1] by simp_all
  obtain x where x: "q = to_num x" "0 \<le> x" "x \<le> 1"
    using assms by (cases mode) auto
  then show ?thesis using to_num_between [of 0 1 x] one that by (auto elim: to_num_between)
qed

lemma rank_in_range:
  assumes "PERCENTILE mode = Some q" "values \<noteq> []" "length values < 2 ^ 32"
  obtains r where "q * (length_num values - 1) = Fin r" "0 \<le> r" "r \<le> of_nat (length values - 1)" "rep r"
proof -
  let ?n = "int (length values)"
  obtain y where y: "q = Fin y" "0 \<le> y" "y \<le> 1" using assms(1) by (rule percentile_unit)
  have n: "1 \<le> ?n" "\<bar>?n\<bar> \<le> 2 ^ 53" "\<bar>?n - 1\<bar> \<le> 2 ^ 53" using assms(2,3) by (cases "values"; simp)+
  have ln: "length_num values - 1 = Fin (of_int (?n - 1))"
    using minus_of_int [of ?n 1] n by (simp add: length_num_def num_of_int_eq)
  have b: "rep (of_int (?n - 1))" using n(3) by (rule rep_of_int)
  have "of_int (?n - 1) \<le> (2::rat) ^ 53"
    using n(3) by (metis abs_le_D1 of_int_le_iff of_int_numeral of_int_power)
  then have lt: "\<bar>of_int (?n - 1) :: rat\<bar> < 2 ^ 1024" using n(1) pow2_53_small by simp
  have pos: "0 \<le> (of_int (?n - 1) :: rat)" using n(1) by simp
  obtain r where "to_num (y * of_int (?n - 1)) = Fin r" "0 \<le> r" "r \<le> of_int (?n - 1)" "rep r"
    by (rule to_num_between [of 0 "of_int (?n - 1)" "y * of_int (?n - 1)"])
      (use b lt pos y mult_right_mono [OF y(3) pos] in auto)
  moreover have "of_int (?n - 1) = (of_nat (length values - 1) :: rat)"
    using n(1) by (simp add: of_nat_diff)
  moreover have "q * (length_num values - 1) = to_num (y * of_int (?n - 1))" unfolding y(1) ln by simp
  ultimately show ?thesis using that by simp
qed

lemma elem_at_index: "i < length xs \<Longrightarrow> elem_at xs (Fin (of_int (int i))) = xs ! i"
  by (simp add: elem_at_def)

text \<open>Interpolating between two ranks never goes below the lower one, and is a number.\<close>

lemma interpolate_ge:
  assumes "is_double (Fin a)" "is_double (Fin b)" "a \<le> b" "rep r" "0 \<le> r" "r \<le> 2 ^ 53" "r = of_int \<lfloor>r\<rfloor> \<longrightarrow> a = b"
  shows "Fin a \<le> Fin a + (Fin b - Fin a) * (Fin r - Fin (of_int \<lfloor>r\<rfloor>))"
proof -
  have one: "rep 1" "\<bar>1::rat\<bar> < 2 ^ 1024" using rep_of_int [of 1] by simp_all
  obtain f where f: "Fin r - Fin (of_int \<lfloor>r\<rfloor>) = Fin f" "0 \<le> f" "f = rnd (r - of_int \<lfloor>r\<rfloor>)"
    unfolding minus_Fin
    by (rule to_num_between [of 0 1 "r - of_int \<lfloor>r\<rfloor>"]) (use one in \<open>auto, linarith\<close>)
  have fl: "\<bar>\<lfloor>r\<rfloor>\<bar> \<le> 2 ^ 53" using assms(5,6) by (simp add: floor_le_iff)
  have fpos: "0 < f" if "a < b"
    using that assms(4,7) f(3) diff_pos_rnd [of "of_int \<lfloor>r\<rfloor>" r] rep_of_int [OF fl] by simp linarith
  have ba: "Fin 0 \<le> Fin b - Fin a"
    unfolding minus_Fin using assms(3) by (intro to_num_ge) simp_all
  have "Fin 0 \<le> (Fin b - Fin a) * Fin f"
  proof (cases "Fin b - Fin a")
    case (Fin d)
    with ba f(2) show ?thesis by (auto intro: to_num_ge)
  next
    case PInf
    have "a < b"
    proof (rule ccontr)
      assume "\<not> a < b"
      then have "Fin b - Fin a = Fin 0" using assms(3) by (simp add: minus_Fin to_num_rep)
      with PInf show False by simp
    qed
    with fpos PInf show ?thesis by (simp add: inf_of_sign_def)
  qed (use ba in simp_all)
  then show ?thesis unfolding f(1)
    using assms(1) by (cases "(Fin b - Fin a) * Fin f") (auto simp: is_double_def intro: to_num_ge)
qed

lemma ascending_rank:
  assumes d: "\<forall>v\<in>set values. is_double v" and r: "0 \<le> r" "r \<le> of_nat (length values - 1)" and ne: "values \<noteq> []"
  obtains a b where "elem_at (ascending values) (math_floor (Fin r)) = Fin a" "is_double (Fin a)"
    "elem_at (ascending values) (math_ceil (Fin r)) = Fin b" "is_double (Fin b)" "a \<le> b"
    "r = of_int \<lfloor>r\<rfloor> \<longrightarrow> a = b" "ascending values ! nat \<lfloor>r\<rfloor> = Fin a"
proof -
  let ?s = "ascending values"
  define i j where "i = nat \<lfloor>r\<rfloor>" and "j = nat \<lceil>r\<rceil>"
  have "\<lceil>r\<rceil> \<le> int (length values - 1)" using r(2) by (simp add: ceiling_le_iff)
  then have "j \<le> length values - 1" by (simp add: j_def nat_le_iff)
  moreover have "0 < length values" using ne by simp
  ultimately have j: "j < length ?s" unfolding length_js_sort by linarith
  have ij: "i \<le> j" unfolding i_def j_def by (intro nat_mono) linarith
  have fi: "Fin (of_int \<lfloor>r\<rfloor>) = Fin (of_int (int i))" "Fin (of_int \<lceil>r\<rceil>) = Fin (of_int (int j))"
    using r(1) by (simp_all add: i_def j_def)
  have "is_double (?s ! i)" "is_double (?s ! j)"
    using d j ij by (metis nth_mem le_less_trans set_js_sort)+
  then obtain a b where ab: "?s ! i = Fin a" "is_double (Fin a)" "?s ! j = Fin b" "is_double (Fin b)"
    by (auto simp: is_double_def split: jsnum.splits)
  have "Fin a \<le> Fin b"
  proof (cases "i = j")
    case True
    with ab show ?thesis by simp
  next
    case False
    then have "?s ! i \<le> ?s ! j"
      using sorted_wrt_nth_less [OF ascending_sorted [OF d], of i j] ij j by simp
    with ab show ?thesis by simp
  qed
  then have le: "a \<le> b" by simp
  have "a = b" if "r = of_int \<lfloor>r\<rfloor>"
  proof -
    have "\<lceil>r\<rceil> = \<lfloor>r\<rfloor>" by (subst that) simp
    then have "i = j" by (simp add: i_def j_def)
    with ab show ?thesis by simp
  qed
  with ab le show ?thesis
    using that elem_at_index [of i ?s] elem_at_index [of j ?s] j ij fi by (simp add: i_def)
qed

lemma percentile_value:
  assumes m: "PERCENTILE mode = Some q" and d: "\<forall>v\<in>set values. is_double v"
    and ne: "values \<noteq> []" and len: "length values < 2 ^ 32"
  obtains r v where "q * (length_num values - 1) = Fin r" "0 \<le> r" "r \<le> of_nat (length values - 1)"
    "summarize values mode = Some v" "ascending values ! nat \<lfloor>r\<rfloor> \<le> v"
proof -
  obtain r where r: "q * (length_num values - 1) = Fin r" "0 \<le> r" "r \<le> of_nat (length values - 1)" "rep r"
    by (rule rank_in_range [OF m ne len])
  obtain a b where ab: "elem_at (ascending values) (math_floor (Fin r)) = Fin a" "is_double (Fin a)"
    "elem_at (ascending values) (math_ceil (Fin r)) = Fin b" "is_double (Fin b)" "a \<le> b"
    "r = of_int \<lfloor>r\<rfloor> \<longrightarrow> a = b" "ascending values ! nat \<lfloor>r\<rfloor> = Fin a"
    by (rule ascending_rank [OF d r(2,3) ne])
  have "length values - 1 \<le> 2 ^ 53" using len by simp
  then have "(of_nat (length values - 1) :: rat) \<le> of_nat (2 ^ 53)" by (simp only: of_nat_le_iff)
  then have r53: "r \<le> 2 ^ 53" using r(3) by simp
  define v where "v = Fin a + (Fin b - Fin a) * (Fin r - Fin (of_int \<lfloor>r\<rfloor>))"
  have mx: "mode \<noteq> Max" using m by auto
  have "length_num (ascending values) = length_num values" by (simp add: length_num_def)
  then have "summarize values mode = Some v"
    using m ne mx ab(1,3) r(1) by (simp add: summarize_def v_def Let_def)
  moreover have "ascending values ! nat \<lfloor>r\<rfloor> \<le> v"
    unfolding ab(7) v_def by (rule interpolate_ge [OF ab(2,4,5) r(4,2) r53 ab(6)])
  ultimately show ?thesis using that r(1-3) by blast
qed

lemma summarize_percentile_cong:
  assumes "PERCENTILE mode = Some q" "ascending xs = ascending ys" "mode \<noteq> Max"
  shows "summarize xs mode = summarize ys mode"
proof -
  have "length xs = length ys" using assms(2) by (metis length_js_sort)
  then have "xs = [] \<longleftrightarrow> ys = []" by (cases xs; cases ys) simp_all
  with assms show ?thesis by (simp add: summarize_def)
qed

lemma summarize_max:
  assumes "values \<noteq> []" "\<forall>v\<in>set values. is_double v"
  obtains m where "summarize values Max = Some m" "m \<in> set values" "\<forall>v\<in>set values. v \<le> m"
proof -
  obtain x xs where v: "values = x # xs" using assms(1) by (cases "values") auto
  with assms(2) foldl_max [of x "values"] that show ?thesis by (auto simp: summarize_def)
qed

lemma double_le_antisym: "x \<le> y \<Longrightarrow> y \<le> x \<Longrightarrow> x = (y::jsnum)"
  by (cases x; cases y) auto

subsection \<open>Properties\<close>

text \<open>The peak of a non-empty series is one of its samples and no sample exceeds it; a summary
  is missing only for an empty series.\<close>

theorem peak_is_greatest:
  assumes "values \<noteq> []" "\<forall>v\<in>set values. is_double v"
  shows "(\<exists>m. summarize values Max = Some m \<and> m \<in> set values \<and> (\<forall>v\<in>set values. v \<le> m))
       \<and> summarize values mode \<noteq> None \<and> summarize [] mode = None"
  using summarize_max [OF assms] assms(1) by (metis summarize_None)

lemma peak_is_greatest_witness:
  "(\<exists>m. summarize [Fin 2, Fin 1] Max = Some m \<and> m \<in> set [Fin 2, Fin 1] \<and> (\<forall>v\<in>set [Fin 2, Fin 1]. v \<le> m))
       \<and> summarize [Fin 2, Fin 1] Avg \<noteq> None \<and> summarize [] Avg = None"
  using rep_of_int [of 2] rep_of_int [of 1] by (intro peak_is_greatest) (simp_all add: is_double_def)

text \<open>C25. The peak and the percentiles do not depend on the order the samples arrive in.\<close>

theorem summary_order_independent:
  assumes "mset xs = mset ys" "\<forall>v\<in>set xs. is_double v" "mode \<noteq> Avg"
  shows "summarize xs mode = summarize ys mode"
proof (cases "xs = []")
  case True
  with assms(1) show ?thesis by simp
next
  case False
  have set: "set ys = set xs" using assms(1) by (metis set_mset_mset)
  then have ne: "ys \<noteq> []" using False by auto
  show ?thesis
  proof (cases "mode = Max")
    case True
    have dy: "\<forall>v\<in>set ys. is_double v" using assms(2) set by simp
    obtain m n where "summarize xs Max = Some m" "m \<in> set xs" "\<forall>v\<in>set xs. v \<le> m"
      "summarize ys Max = Some n" "n \<in> set ys" "\<forall>v\<in>set ys. v \<le> n"
      using summarize_max [OF False assms(2)] summarize_max [OF ne dy] by metis
    with set True show ?thesis using double_le_antisym [of m n] by auto
  next
    case nm: False
    with assms(3) obtain q where "PERCENTILE mode = Some q" by (cases mode) auto
    from summarize_percentile_cong [OF this ascending_unique [OF assms(1,2)] nm] show ?thesis .
  qed
qed

lemma summary_order_independent_witness:
  "summarize [Fin 1, Fin 2] P95 = summarize [Fin 2, Fin 1] P95"
  using rep_of_int [of 2] rep_of_int [of 1] by (intro summary_order_independent) (simp_all add: is_double_def)

text \<open>C36. A percentile is always a number: its rank falls inside the sorted samples, and the value
  is at least the sample of that rank, so at least that share of the samples do not exceed it.\<close>

theorem percentile_at_least_rank:
  assumes "PERCENTILE mode = Some q" "\<forall>v\<in>set values. is_double v" "values \<noteq> []" "length values < 2 ^ 32"
  shows "\<exists>r v. q * (length_num values - 1) = Fin r \<and> 0 \<le> r \<and> r \<le> of_nat (length values - 1)
    \<and> summarize values mode = Some v \<and> js_sort (\<lambda>a b. a - b) values ! nat \<lfloor>r\<rfloor> \<le> v
    \<and> sorted_wrt (\<le>) (js_sort (\<lambda>a b. a - b) values) \<and> mset (js_sort (\<lambda>a b. a - b) values) = mset values"
  using percentile_value [OF assms] ascending_sorted [OF assms(2)] by (metis mset_js_sort)

lemma percentile_at_least_rank_witness:
  "\<exists>r v. to_num (95 / 100) * (length_num [Fin 20, Fin 10] - 1) = Fin r \<and> 0 \<le> r \<and> r \<le> of_nat (length [Fin 20, Fin 10] - 1)
    \<and> summarize [Fin 20, Fin 10] P95 = Some v \<and> js_sort (\<lambda>a b. a - b) [Fin 20, Fin 10] ! nat \<lfloor>r\<rfloor> \<le> v
    \<and> sorted_wrt (\<le>) (js_sort (\<lambda>a b. a - b) [Fin 20, Fin 10])
    \<and> mset (js_sort (\<lambda>a b. a - b) [Fin 20, Fin 10]) = mset [Fin 20, Fin 10]"
  using rep_of_int [of 20] rep_of_int [of 10] by (intro percentile_at_least_rank) (simp_all add: is_double_def)

end
