(* ===== verification/Observability.thy ===== *)
theory Observability
  imports Labels
begin

text \<open>
  \<open>lib/observability.ts\<close>: the choices of the filters, and which containers belong to a service.
\<close>

definition LOG_TOPICS :: "string list" where
  "LOG_TOPICS = [''all'', ''gc'', ''memory'', ''oom'', ''error'', ''performance'', ''trace'']"

definition LOG_LEVELS :: "string list" where
  "LOG_LEVELS = [''all'', ''error'', ''warn'', ''info'', ''debug'']"

definition TIME_RANGES :: "string list" where
  "TIME_RANGES = [''15m'', ''1h'', ''6h'', ''24h'']"

definition matchesService :: "string \<Rightarrow> string option \<Rightarrow> string \<Rightarrow> bool" where
  "matchesService container service target =
     (if target = [] then True
      else service = Some target \<or> container = target \<or> str_includes container (''-'' @ target @ ''-'')
           \<or> starts_with container (target @ ''-''))"

lemma matchesService_empty [simp]: "matchesService c s []"
  by (simp add: matchesService_def)

lemma matchesService_own: "matchesService c (Some t) t" "matchesService t s t"
  by (simp_all add: matchesService_def)

text \<open>The replicas Compose numbers belong to their service.\<close>

lemma matchesService_replica:
  "matchesService (t @ ''-'' @ n) s t" "matchesService (p @ ''-'' @ t @ ''-'' @ n) s t"
proof -
  show "matchesService (t @ ''-'' @ n) s t"
    using starts_with_append [of "t @ ''-''" n] by (simp add: matchesService_def)
  have "str_includes (p @ (''-'' @ t @ ''-'') @ n) (''-'' @ t @ ''-'')"
    unfolding str_includes_iff by blast
  then show "matchesService (p @ ''-'' @ t @ ''-'' @ n) s t" by (simp add: matchesService_def)
qed

end
