(* ===== verification/Time_Range.thy ===== *)
theory Time_Range
  imports Observability
begin

text \<open>
  \<open>lib/time-range.ts\<close> and the picker \<open>components/filters/time-range-picker.tsx\<close>. A window is
  a preset or \<open>start..end\<close>, two instants in UTC; the inputs of the picker hold local time. What
  the platform reads from a text is \<open>date_parse\<close>, the time zone is \<open>tz_offset\<close>.
\<close>

definition MAX_MS :: jsnum where
  "MAX_MS = Fin 86400000"

definition isCustomRange :: "string \<Rightarrow> bool" where
  "isCustomRange v = str_includes v ''..''"

definition splitRange :: "string \<Rightarrow> (string \<times> string) option" where
  "splitRange v =
     (case index_of v ''..'' of
        None \<Rightarrow> None
      | Some i \<Rightarrow>
          if i = 0 then None
          else let start = slice 0 i v; fin = drop (i + 2) v
               in if start = [] \<or> fin = [] then None else Some (start, fin))"

definition pad2 :: "int \<Rightarrow> string" where
  "pad2 n = pad_start 2 (int_string n)"

definition local_text :: "env \<Rightarrow> int \<Rightarrow> string" where
  "local_text e t =
     (let l = t + tz_offset e t;
          (y, m, d) = civil_from_days (l div 86400000);
          ms = l mod 86400000
      in int_string y @ ''-'' @ pad2 m @ ''-'' @ pad2 d @ ''T'' @ pad2 (ms div 3600000) @ '':''
           @ pad2 (ms div 60000 mod 60))"

definition toLocalInput :: "env \<Rightarrow> string \<Rightarrow> string" where
  "toLocalInput e ts =
     (if date_parse e ts = NaN then [] else local_text e (time_int (date_parse e ts)))"

text \<open>\<open>replace\<close> of a dot, three digits and a Z at the end by the Z.\<close>

definition strip_millis :: "string \<Rightarrow> string" where
  "strip_millis s =
     (case rev s of
        z # a # b # c # p # rest \<Rightarrow>
          if z = CHR ''Z'' \<and> is_digit a \<and> is_digit b \<and> is_digit c \<and> p = CHR ''.''
          then rev rest @ ''Z'' else s
      | _ \<Rightarrow> s)"

definition toRFC3339 :: "jsnum \<Rightarrow> string" where
  "toRFC3339 d = strip_millis (to_iso (time_int d))"

definition rangeFromLocal :: "env \<Rightarrow> string \<Rightarrow> string \<Rightarrow> string option" where
  "rangeFromLocal e startLocal endLocal =
     (let start = date_parse e startLocal; fin = date_parse e endLocal
      in if start = NaN \<or> fin = NaN then None
         else if fin \<le> start then None
         else if fin - start > MAX_MS then None
         else Some (toRFC3339 start @ ''..'' @ toRFC3339 fin))"

definition defaultLocalRange :: "env \<Rightarrow> jsnum \<Rightarrow> string \<times> string" where
  "defaultLocalRange e now =
     (let start = now - Fin (60 * 60 * 1000)
      in (toLocalInput e (to_iso (time_int start)), toLocalInput e (to_iso (time_int now))))"

subsection \<open>The picker\<close>

record picker =
  drafting :: bool
  p_start :: string
  p_end :: string
  invalid :: bool

datatype picker_action = Preset string | Open_Custom | Edit_Start | Edit_End | Apply_Custom

definition picker_init :: "string \<Rightarrow> picker" where
  "picker_init v = \<lparr>drafting = isCustomRange v, p_start = [], p_end = [], invalid = False\<rparr>"

text \<open>The effect that runs when the window shown changes.\<close>

definition picker_effect :: "env \<Rightarrow> string \<Rightarrow> picker \<Rightarrow> picker" where
  "picker_effect e v st =
     (let st = st\<lparr>invalid := False\<rparr> in
      case splitRange v of
        None \<Rightarrow> st\<lparr>drafting := False\<rparr>
      | Some (s, f) \<Rightarrow> st\<lparr>p_start := toLocalInput e s, p_end := toLocalInput e f, drafting := True\<rparr>)"

definition customActive :: "string \<Rightarrow> picker \<Rightarrow> bool" where
  "customActive v st = (isCustomRange v \<or> drafting st)"

definition openCustom :: "env \<Rightarrow> jsnum \<Rightarrow> picker \<Rightarrow> picker" where
  "openCustom e now st =
     (let st = (if p_start st = [] \<or> p_end st = []
                then (let (s, f) = defaultLocalRange e now in st\<lparr>p_start := s, p_end := f\<rparr>)
                else st)
      in st\<lparr>invalid := False, drafting := True\<rparr>)"

text \<open>The second component is what \<open>onChange\<close> is called with, if it is.\<close>

definition applyCustom :: "env \<Rightarrow> picker \<Rightarrow> picker \<times> string option" where
  "applyCustom e st =
     (case rangeFromLocal e (p_start st) (p_end st) of
        None \<Rightarrow> (st\<lparr>invalid := True\<rparr>, None)
      | Some next \<Rightarrow> if next = [] then (st\<lparr>invalid := True\<rparr>, None) else (st\<lparr>invalid := False\<rparr>, Some next))"

text \<open>The events of the picker, with the text typed and the clock where they need them.\<close>

fun picker_step :: "env \<Rightarrow> jsnum \<Rightarrow> string \<Rightarrow> picker_action \<Rightarrow> picker \<Rightarrow> picker \<times> string option" where
  "picker_step e now typed (Preset r) st = (st\<lparr>drafting := False, invalid := False\<rparr>, Some r)"
| "picker_step e now typed Open_Custom st = (openCustom e now st, None)"
| "picker_step e now typed Edit_Start st = (st\<lparr>p_start := typed\<rparr>, None)"
| "picker_step e now typed Edit_End st = (st\<lparr>p_end := typed\<rparr>, None)"
| "picker_step e now typed Apply_Custom st = applyCustom e st"

definition invalid_attrs :: "bool \<Rightarrow> (string \<times> picker_action attr) list" where
  "invalid_attrs b = (if b then [(''aria-invalid'', ABool True), (''aria-describedby'', AStr ''error'')] else [])"

definition time_range_picker :: "env \<Rightarrow> string \<Rightarrow> picker \<Rightarrow> picker_action ui" where
  "time_range_picker e v st =
     (let t = tr e; custom = customActive v st in
      el ''div''
       ([El ''div'' [(''role'', AStr ''group''), (''aria-label'', AStr (t ''time.period'' []))]
          (map (\<lambda>r. El ''Button''
              [(''variant'', AStr (if \<not> custom \<and> v = r then ''default'' else ''outline'')),
               (''aria-pressed'', ABool (\<not> custom \<and> v = r)), (''onClick'', AHandler (Preset r))]
              [Text (t (''time.'' @ r) [])]) TIME_RANGES
           @ [El ''Button''
              [(''variant'', AStr (if custom then ''default'' else ''outline'')),
               (''aria-pressed'', ABool custom), (''onClick'', AHandler Open_Custom)]
              [Text (t ''time.custom'' [])]])]
        @ opt custom
          (El ''form'' [(''onSubmit'', AHandler Apply_Custom)]
            ([el ''label'' [el ''span'' [Text (t ''time.from'' [])],
                El ''Input'' ([(''type'', AStr ''datetime-local''), (''name'', AStr ''range_start'')]
                  @ invalid_attrs (invalid st) @ [(''value'', AStr (p_start st)), (''onChange'', AHandler Edit_Start)]) []],
              el ''label'' [el ''span'' [Text (t ''time.to'' [])],
                El ''Input'' ([(''type'', AStr ''datetime-local''), (''name'', AStr ''range_end'')]
                  @ invalid_attrs (invalid st) @ [(''value'', AStr (p_end st)), (''onChange'', AHandler Edit_End)]) []],
              El ''Button'' [(''type'', AStr ''submit'')] [Text (t ''time.apply'' [])]]
             @ opt (invalid st)
                (El ''p'' [(''id'', AStr ''error''), (''role'', AStr ''alert'')] [Text (t ''time.rangeInvalid'' [])])))))"

subsection \<open>What a range encodes\<close>

lemma digit_not_dot: "is_digit c \<Longrightarrow> c \<noteq> CHR ''.''"
  by (auto simp: is_digit_def)

lemma pad_no_dot: "CHR ''.'' \<notin> set (pad_int w n)"
  using nat_digits_digits digit_not_dot by (auto simp: pad_int_def pad_start_def)

lemma iso_date_no_dot: "CHR ''.'' \<notin> set (iso_date d)"
  using pad_no_dot by (simp add: iso_date_def iso_year_def case_prod_unfold Let_def)

text \<open>Below a thousand the milliseconds have three digits.\<close>

lemma pad3_digits:
  assumes "0 \<le> n" "n < 1000"
  obtains a b c where "pad_int 3 n = [a, b, c]" "is_digit a" "is_digit b" "is_digit c"
proof -
  have nd: "length (nat_digits m) \<le> 3" if "m < 1000" for m
  proof -
    have "m div 10 div 10 < 10" using that by simp
    then show ?thesis
      by (subst nat_digits.simps, subst nat_digits.simps, subst nat_digits.simps) simp
  qed
  have "nat n < 1000" using assms by simp
  then have l: "length (pad_int 3 n) = 3" using nd [of "nat n"] by (simp add: pad_int_def length_pad_start)
  have d: "\<forall>x\<in>set (pad_int 3 n). is_digit x"
    using nat_digits_digits by (auto simp: pad_int_def pad_start_def is_digit_def)
  from l obtain a b c where "pad_int 3 n = [a, b, c]" by (auto simp: length_Suc_conv numeral_3_eq_3)
  with d that show ?thesis by simp
qed

definition iso_seconds :: "int \<Rightarrow> string" where
  "iso_seconds t =
     (let days = t div 86400000; ms = t mod 86400000
      in iso_date days @ ''T'' @ pad_int 2 (ms div 3600000) @ '':'' @ pad_int 2 (ms div 60000 mod 60)
           @ '':'' @ pad_int 2 (ms div 1000 mod 60) @ ''Z'')"

lemma toRFC3339_eq: "toRFC3339 d = iso_seconds (time_int d)"
proof -
  obtain a b c where "pad_int 3 (time_int d mod 86400000 mod 1000) = [a, b, c]" "is_digit a" "is_digit b" "is_digit c"
    by (rule pad3_digits [of "time_int d mod 86400000 mod 1000"]) simp_all
  then show ?thesis by (simp add: toRFC3339_def strip_millis_def to_iso_def iso_seconds_def Let_def)
qed

lemma iso_seconds_no_dot: "CHR ''.'' \<notin> set (iso_seconds t)"
  using pad_no_dot iso_date_no_dot by (simp add: iso_seconds_def Let_def)

lemma iso_seconds_neq_Nil: "iso_seconds t \<noteq> []"
  by (simp add: iso_seconds_def Let_def)

lemma index_of_dots:
  assumes "CHR ''.'' \<notin> set a"
  shows "index_of (a @ ''..'' @ b) ''..'' = Some (length a)"
proof -
  have "\<forall>k<length a. \<not> starts_with (drop k (a @ ''..'' @ b)) ''..''"
  proof (intro allI impI)
    fix k
    assume k: "k < length a"
    then have "drop k (a @ ''..'' @ b) = a ! k # drop (Suc k) a @ ''..'' @ b" by (simp add: Cons_nth_drop_Suc [symmetric])
    moreover have "a ! k \<noteq> CHR ''.''" using assms k by (metis nth_mem)
    ultimately show "\<not> starts_with (drop k (a @ ''..'' @ b)) ''..''" by simp
  qed
  then show ?thesis using index_from_first [of a "''..''" b 0] by (simp add: index_of_def)
qed

lemma splitRange_join:
  assumes "CHR ''.'' \<notin> set a" "a \<noteq> []" "b \<noteq> []"
  shows "splitRange (a @ ''..'' @ b) = Some (a, b)"
  using index_of_dots [OF assms(1), of b] assms(2,3) by (simp add: splitRange_def slice_def)

lemma splitRange_custom: "splitRange v = Some p \<Longrightarrow> isCustomRange v"
  by (auto simp: splitRange_def isCustomRange_def str_includes_def split: option.splits)

lemma rangeFromLocal_Some:
  "rangeFromLocal e a b = Some r \<longleftrightarrow>
     date_parse e a \<noteq> NaN \<and> date_parse e b \<noteq> NaN \<and> \<not> date_parse e b \<le> date_parse e a
     \<and> \<not> date_parse e b - date_parse e a > MAX_MS
     \<and> r = iso_seconds (time_int (date_parse e a)) @ ''..'' @ iso_seconds (time_int (date_parse e b))"
  by (auto simp: rangeFromLocal_def toRFC3339_eq Let_def)

lemma split_rangeFromLocal:
  "rangeFromLocal e a b = Some r \<Longrightarrow>
   splitRange r = Some (iso_seconds (time_int (date_parse e a)), iso_seconds (time_int (date_parse e b)))"
  unfolding rangeFromLocal_Some
  using splitRange_join [OF iso_seconds_no_dot iso_seconds_neq_Nil iso_seconds_neq_Nil] by blast

text \<open>The window in milliseconds; the difference is rounded, the test is not deceived by that.\<close>

lemma range_window:
  assumes "rangeFromLocal e a b = Some r" "date_parse e a = Fin (of_int s)" "date_parse e b = Fin (of_int f)"
  shows "0 < f - s \<and> f - s \<le> 86400000"
proof -
  have "\<not> Fin (of_int f) \<le> Fin (of_int s)" and d: "\<not> MAX_MS < Fin (of_int f) - Fin (of_int s)"
    using assms unfolding rangeFromLocal_Some by simp_all
  then have "s < f" by simp
  moreover have "f - s \<le> 86400000"
  proof (rule ccontr)
    assume "\<not> f - s \<le> 86400000"
    then have "of_int 86400001 \<le> (of_int (f - s) :: rat)" by (intro iffD2 [OF of_int_le_iff]) simp
    then have "Fin (of_int 86400001) \<le> to_num (of_int (f - s))"
      using rep_of_int [of 86400001] by (intro to_num_ge) simp_all
    with d show False unfolding minus_Fin MAX_MS_def by (cases "to_num (of_int f - of_int s)") simp_all
  qed
  ultimately show ?thesis by simp
qed

text \<open>Everything the picker hands to its parent is a preset or a range it has checked.\<close>

lemma picker_emits:
  assumes "picker_step e now typed a st = (st', Some r)"
  shows "a = Preset r \<or> (a = Apply_Custom \<and> rangeFromLocal e (p_start st) (p_end st) = Some r)"
  using assms by (cases a) (auto simp: applyCustom_def split: option.splits if_splits)

text \<open>A text the input can hold: the platform reads it as an instant of whole minutes whose local
  text it is.\<close>

definition local_minute :: "env \<Rightarrow> string \<Rightarrow> bool" where
  "local_minute e txt \<longleftrightarrow> (\<exists>t. date_parse e txt = Fin (of_int t) \<and> 60000 dvd t \<and> local_text e t = txt)"

text \<open>The platform reads an ISO text in UTC, to the second, as the instant it denotes.\<close>

definition reads_iso :: "env \<Rightarrow> int \<Rightarrow> bool" where
  "reads_iso e t \<longleftrightarrow> date_parse e (iso_seconds t) = Fin (of_int (t - t mod 1000))"

lemma toLocalInput_iso_seconds:
  assumes "local_minute e txt" "reads_iso e (time_int (date_parse e txt))"
  shows "toLocalInput e (iso_seconds (time_int (date_parse e txt))) = txt"
proof -
  obtain t where t: "date_parse e txt = Fin (of_int t)" "60000 dvd t" "local_text e t = txt"
    using assms(1) by (auto simp: local_minute_def)
  have "t mod 1000 = 0" using dvd_trans [OF _ t(2), of 1000] by simp
  with assms(2) t show ?thesis by (simp add: reads_iso_def toLocalInput_def time_int_def)
qed

text \<open>A window of an hour, for the examples.\<close>

definition sample_picker :: picker where
  "sample_picker = \<lparr>drafting = True, p_start = ''2026-10-06T14:00'', p_end = ''2026-10-06T15:00'', invalid = True\<rparr>"

lemma sample_apply:
  "picker_step sample_env 0 [] Apply_Custom sample_picker
     = (sample_picker\<lparr>invalid := False\<rparr>, Some (iso_seconds 1791295200000 @ ''..'' @ iso_seconds 1791298800000))"
proof -
  have "rangeFromLocal sample_env ''2026-10-06T14:00'' ''2026-10-06T15:00''
      = Some (iso_seconds 1791295200000 @ ''..'' @ iso_seconds 1791298800000)"
    using minus_of_int [of 1791298800000 1791295200000]
    unfolding rangeFromLocal_Some by (simp add: sample_env_def sample_instants MAX_MS_def time_int_def)
  then show ?thesis by (simp add: applyCustom_def sample_picker_def)
qed

lemma sample_local_minute:
  "local_minute sample_env ''2026-10-06T14:00''" "local_minute sample_env ''2026-10-06T15:00''"
proof -
  have "local_text sample_env 1791295200000 = ''2026-10-06T14:00''" "local_text sample_env 1791298800000 = ''2026-10-06T15:00''"
    by (simp_all add: local_text_def sample_env_def) code_simp+
  moreover have "60000 dvd (1791295200000::int)" "60000 dvd (1791298800000::int)" by simp_all
  ultimately show "local_minute sample_env ''2026-10-06T14:00''" "local_minute sample_env ''2026-10-06T15:00''"
    unfolding local_minute_def using sample_instants by (auto simp: sample_env_def)
qed

lemma sample_reads_iso: "reads_iso sample_env 1791295200000" "reads_iso sample_env 1791298800000"
proof -
  have "parse_iso (iso_seconds 1791295200000) = Some 1791295200000" "parse_iso (iso_seconds 1791298800000) = Some 1791298800000"
    by code_simp+
  then show "reads_iso sample_env 1791295200000" "reads_iso sample_env 1791298800000"
    using num_of_int_eq [of 1791295200000] num_of_int_eq [of 1791298800000]
    by (simp_all add: reads_iso_def sample_env_def iso_parser_def)
qed

subsection \<open>Properties\<close>

lemma custom_window_cases:
  assumes "date_parse e a = Fin (of_int s)" "date_parse e b = Fin (of_int f)"
  shows "rangeFromLocal e a b = (if 0 < f - s \<and> f - s \<le> 86400000 then Some (iso_seconds s @ ''..'' @ iso_seconds f) else None)"
proof (cases "rangeFromLocal e a b")
  case None
  moreover have False if "0 < f - s" "f - s \<le> 86400000"
    using None assms that minus_of_int [of f s]
    by (auto simp: rangeFromLocal_def MAX_MS_def Let_def split: if_splits)
  ultimately show ?thesis by auto
next
  case (Some r)
  with range_window [OF Some assms] assms show ?thesis by (auto simp: rangeFromLocal_Some time_int_def)
qed

text \<open>What the platform reads from a text is no date or a whole number of milliseconds.\<close>

definition time_value :: "jsnum \<Rightarrow> bool" where
  "time_value x \<longleftrightarrow> x = NaN \<or> (\<exists>t. x = Fin (of_int t))"

text \<open>C22. A custom window is accepted exactly when both of its ends are dates, the end is after the start and they are at most 24
  hours apart; the text it becomes is recognised as a custom window and splits into the two instants, written in UTC to the second.\<close>

theorem custom_window_functional:
  assumes "time_value (date_parse e a)" "time_value (date_parse e b)"
  shows "(rangeFromLocal e a b \<noteq> None \<longleftrightarrow>
      (\<exists>s f. date_parse e a = Fin (of_int s) \<and> date_parse e b = Fin (of_int f) \<and> s < f \<and> f - s \<le> 86400000))
    \<and> (\<forall>r. rangeFromLocal e a b = Some r \<longrightarrow>
        (\<exists>s f. date_parse e a = Fin (of_int s) \<and> date_parse e b = Fin (of_int f)
          \<and> isCustomRange r \<and> splitRange r = Some (iso_seconds s, iso_seconds f)))"
proof (cases "date_parse e a = NaN \<or> date_parse e b = NaN")
  case True
  then have "rangeFromLocal e a b = None" by (auto simp: rangeFromLocal_def Let_def)
  with True show ?thesis by auto
next
  case False
  then obtain s f where d: "date_parse e a = Fin (of_int s)" "date_parse e b = Fin (of_int f)"
    using assms by (auto simp: time_value_def)
  show ?thesis
  proof (cases "0 < f - s \<and> f - s \<le> 86400000")
    case True
    then have r: "rangeFromLocal e a b = Some (iso_seconds s @ ''..'' @ iso_seconds f)" by (simp add: custom_window_cases [OF d])
    from split_rangeFromLocal [OF r] have p: "splitRange (iso_seconds s @ ''..'' @ iso_seconds f) = Some (iso_seconds s, iso_seconds f)"
      by (simp add: d time_int_def)
    show ?thesis unfolding r using True splitRange_custom [OF p] p d by auto
  next
    case False
    then have "rangeFromLocal e a b = None" by (auto simp: custom_window_cases [OF d])
    then show ?thesis using False d by auto
  qed
qed

lemma custom_window_functional_witness:
  "rangeFromLocal sample_env ''2026-10-06T14:00'' ''2026-10-06T15:00'' \<noteq> None"
proof -
  have d: "date_parse sample_env ''2026-10-06T14:00'' = Fin (of_int 1791295200000)"
    "date_parse sample_env ''2026-10-06T15:00'' = Fin (of_int 1791298800000)"
    by (simp_all add: sample_env_def sample_instants)
  have "time_value (date_parse sample_env ''2026-10-06T14:00'')" "time_value (date_parse sample_env ''2026-10-06T15:00'')"
    unfolding d time_value_def by blast+
  note w = custom_window_functional [THEN conjunct1, OF this]
  show ?thesis unfolding w d by (intro exI [of _ 1791295200000] exI [of _ 1791298800000]) simp
qed

text \<open>The picker only ever hands on a preset or a window of at most 24 hours: whatever it emits,
  after any typing, is the preset clicked or splits into two instants in order.\<close>

theorem picker_emits_valid:
  assumes "picker_step e now typed a st = (st', Some r)"
    and "date_parse e (p_start st) = Fin (of_int s)" "date_parse e (p_end st) = Fin (of_int f)"
  shows "a = Preset r \<or>
    (0 < f - s \<and> f - s \<le> 86400000 \<and> splitRange r = Some (toRFC3339 (Fin (of_int s)), toRFC3339 (Fin (of_int f))))"
  using picker_emits [OF assms(1)] range_window [OF _ assms(2,3)] split_rangeFromLocal assms(2,3)
  by (auto simp: toRFC3339_eq)

lemma picker_emits_valid_witness:
  "0 < 1791298800000 - (1791295200000::int) \<and> 1791298800000 - (1791295200000::int) \<le> 86400000
     \<and> splitRange (iso_seconds 1791295200000 @ ''..'' @ iso_seconds 1791298800000)
       = Some (toRFC3339 (Fin (of_int 1791295200000)), toRFC3339 (Fin (of_int 1791298800000)))"
  using picker_emits_valid [OF sample_apply, of 1791295200000 1791298800000]
  by (simp add: sample_picker_def sample_env_def sample_instants)

text \<open>Applying a window keeps what was typed: when the parent adopts the value the picker emits,
  the effect fills the two inputs with the texts they had, and the window stays open.\<close>

theorem picker_apply_keeps_inputs:
  assumes "picker_step e now typed Apply_Custom st = (st', Some r)"
    and "local_minute e (p_start st)" "reads_iso e (time_int (date_parse e (p_start st)))"
    and "local_minute e (p_end st)" "reads_iso e (time_int (date_parse e (p_end st)))"
  shows "picker_effect e r st' = \<lparr>drafting = True, p_start = p_start st, p_end = p_end st, invalid = False\<rparr>
       \<and> customActive r (picker_effect e r st')"
proof -
  have r: "rangeFromLocal e (p_start st) (p_end st) = Some r" and st': "st' = st\<lparr>invalid := False\<rparr>"
    using assms(1) by (auto simp: applyCustom_def split: option.splits if_splits)
  show ?thesis
    using split_rangeFromLocal [OF r] toLocalInput_iso_seconds assms(2-5) splitRange_custom
    by (simp add: picker_effect_def st' customActive_def)
qed

lemma picker_apply_keeps_inputs_witness:
  "picker_effect sample_env (iso_seconds 1791295200000 @ ''..'' @ iso_seconds 1791298800000) (sample_picker\<lparr>invalid := False\<rparr>)
     = \<lparr>drafting = True, p_start = ''2026-10-06T14:00'', p_end = ''2026-10-06T15:00'', invalid = False\<rparr>"
  using picker_apply_keeps_inputs [OF sample_apply] sample_local_minute sample_reads_iso sample_instants
  by (simp add: sample_picker_def time_int_def) (simp add: sample_env_def time_int_def)

end
