(* ===== verification/Container_State.thy ===== *)
theory Container_State
  imports Labels
begin

text \<open>
  \<open>lib/container-state.ts\<close>: how a container of the fleet is judged. A container is unstable
  when one of a list of signs says so, unless it was stopped on purpose; the reason shown names
  the first of the signs in an order of its own, and every unstable container has one.
\<close>

definition stateVariant :: "string \<Rightarrow> string" where
  "stateVariant state = coalesce
     (map_of [(''running'', ''default''), (''restarting'', ''secondary''), (''exited'', ''outline''),
              (''dead'', ''destructive'')] state) ''outline''"

definition stateLabel :: "translate \<Rightarrow> string \<Rightarrow> string" where
  "stateLabel t state =
     (let key = ''state.'' @ state; translated = t key [] in if translated = key then state else translated)"

definition isUnstable :: "container_fleet_status \<Rightarrow> bool" where
  "isUnstable status =
     (if disposition status = Some ''intentional'' then False
      else let state = to_lower (f_state status) in
        state = ''restarting'' \<or>
        state = ''dead'' \<or>
        disposition status = Some ''unexpected'' \<or>
        disposition status = Some ''oom'' \<or>
        f_health status = Some ''unhealthy'' \<or>
        coalesce (oom_killed status) False \<or>
        restart_count status > 3)"

definition instabilityReason :: "translate \<Rightarrow> container_fleet_status \<Rightarrow> string" where
  "instabilityReason t status =
     (let state = to_lower (f_state status) in
      if disposition status = Some ''oom'' \<or> coalesce (oom_killed status) False then t ''unstable.oom'' []
      else if disposition status = Some ''unexpected'' then t ''state.unexpected'' []
      else if state = ''dead'' then t ''unstable.dead'' []
      else if state = ''restarting'' then t ''unstable.restarting'' []
      else if f_health status = Some ''unhealthy'' then t ''unstable.unhealthy'' []
      else t ''unstable.restarts'' [(''count'', TInt (restart_count status))])"

text \<open>A container that was stopped on purpose is never reported.\<close>

lemma isUnstable_intentional: "disposition s = Some ''intentional'' \<Longrightarrow> \<not> isUnstable s"
  by (simp add: isUnstable_def)

lemma isUnstable_running:
  "to_lower (f_state s) = ''running'' \<Longrightarrow> disposition s = None \<Longrightarrow> f_health s = None \<Longrightarrow>
   oom_killed s = None \<Longrightarrow> isUnstable s \<longleftrightarrow> restart_count s > 3"
  by (simp add: isUnstable_def)

subsection \<open>Properties\<close>

text \<open>The reason given is a true one: for a container reported as unstable, each branch names
  a sign it has, and the count of restarts is only blamed when it is above three and no other
  sign is there.\<close>

theorem instability_reason_sound:
  assumes "isUnstable s"
  shows "(instabilityReason t s = t ''unstable.oom'' [] \<and> (disposition s = Some ''oom'' \<or> oom_killed s = Some True))
       \<or> (instabilityReason t s = t ''state.unexpected'' [] \<and> disposition s = Some ''unexpected'')
       \<or> (instabilityReason t s = t ''unstable.dead'' [] \<and> to_lower (f_state s) = ''dead'')
       \<or> (instabilityReason t s = t ''unstable.restarting'' [] \<and> to_lower (f_state s) = ''restarting'')
       \<or> (instabilityReason t s = t ''unstable.unhealthy'' [] \<and> f_health s = Some ''unhealthy'')
       \<or> (instabilityReason t s = t ''unstable.restarts'' [(''count'', TInt (restart_count s))] \<and> restart_count s > 3
          \<and> disposition s \<noteq> Some ''oom'' \<and> disposition s \<noteq> Some ''unexpected'' \<and> f_health s \<noteq> Some ''unhealthy'')"
  using assms by (cases "oom_killed s") (auto simp: isUnstable_def instabilityReason_def Let_def split: if_splits)

definition sample_status :: "string \<Rightarrow> int \<Rightarrow> container_fleet_status" where
  "sample_status state n =
     \<lparr>f_container = ''api-1'', f_entity_uid = ''u'', f_service = None, f_state = state, f_health = None,
      restart_count = n, exit_code = None, oom_killed = None, status_text = None, disposition = None,
      f_updated_at = None\<rparr>"

lemma instability_reason_sound_witness:
  "instabilityReason (\<lambda>k _. k) (sample_status ''running'' 5) = ''unstable.restarts''"
  using instability_reason_sound [of "sample_status ''running'' 5" "\<lambda>k _. k"]
  by (simp add: isUnstable_def sample_status_def to_lower_def)

end
