(* ===== verification/Widgets.thy ===== *)
theory Widgets
  imports Stack_Series Stats Time_Range Container_State
begin

text \<open>
  The components the pages are put together from: the pager, the error notice, the cards and
  meters of \<open>components/metrics\<close>, the group filter and the frame of \<open>components/layout\<close>.
  Each is the tree it renders, a function of its properties and state.
\<close>

subsection \<open>Pager, error notice, page header\<close>

definition list_pager ::
  "translate \<Rightarrow> jsnum \<Rightarrow> jsnum \<Rightarrow> jsnum \<Rightarrow> jsnum \<Rightarrow> jsnum \<Rightarrow> bool \<Rightarrow> (jsnum \<Rightarrow> 'h) \<Rightarrow> 'h ui" where
  "list_pager t start fin tot page pageSize trunc onPage =
     (let pages = math_max 1 (math_ceil (tot / pageSize));
          safe = math_min page pages
      in el ''div''
        [el ''p'' [Text (t ''common.pagerRange'' [(''start'', TNum start), (''end'', TNum fin), (''total'', TNum tot)]),
                   Text (if trunc then '' '' @ t ''common.pagerTruncated'' [] else [])],
         el ''div''
          [button (safe \<le> 1) (onPage (safe - 1)) (t ''common.pagerPrev'' []),
           button (safe \<ge> pages \<or> num_eq tot 0) (onPage (safe + 1)) (t ''common.pagerNext'' [])]])"

text \<open>The pager below a list the hub pages: its numbers are those of the page the hub sent.\<close>

definition remote_pager :: "translate \<Rightarrow> 'a list_page \<Rightarrow> jsnum \<Rightarrow> (jsnum \<Rightarrow> 'h) \<Rightarrow> 'h ui" where
  "remote_pager t res page onPage =
     list_pager t (if num_eq (total res) 0 then 0 else offset res + 1) (offset res + length_num (entries res))
       (total res) page (if truthy_num (limit res) then limit res else Fin 50) (truncated res) onPage"

definition load_error :: "translate \<Rightarrow> string \<Rightarrow> 'h option \<Rightarrow> 'h ui" where
  "load_error t message onRetry =
     El ''div'' [(''role'', AStr ''alert'')]
       ([el ''span'' [Text message]]
        @ (case onRetry of Some h \<Rightarrow> [button False h (t ''common.retry'' [])] | None \<Rightarrow> []))"

definition page_header :: "string \<Rightarrow> string option \<Rightarrow> 'h ui list \<Rightarrow> 'h ui" where
  "page_header title description actions =
     el ''div''
       ([el ''div'' ([el ''h1'' [Text title]]
           @ (case description of Some d \<Rightarrow> if d \<noteq> [] then [el ''p'' [Text d]] else [] | None \<Rightarrow> []))]
        @ (if actions \<noteq> [] then [el ''div'' actions] else []))"

subsection \<open>Cards and meters\<close>

fun tone_name :: "meter_tone \<Rightarrow> string" where
  "tone_name Tone_Default = ''default''"
| "tone_name Tone_Warning = ''warning''"
| "tone_name Tone_Critical = ''critical''"

definition usage_bar :: "env \<Rightarrow> jsnum \<Rightarrow> meter_tone \<Rightarrow> string \<Rightarrow> 'h ui" where
  "usage_bar e v tone label =
     (let pct = math_min (Fin 100) (math_max 0 v);
          text = (if tone = Tone_Default then formatPercent e v 1
                  else formatPercent e v 1 @ '', '' @ tr e (''severity.'' @ tone_name tone) [])
      in El ''div''
           [(''role'', AStr ''meter''), (''aria-label'', AStr label), (''aria-valuemin'', ANum 0),
            (''aria-valuemax'', ANum (Fin 100)), (''aria-valuenow'', ANum (math_round pct)), (''aria-valuetext'', AStr text)]
           [El ''div'' [(''tone'', AStr (barTone tone)), (''width'', AStr (num_string pct @ ''%''))] []])"

definition metric_meter :: "env \<Rightarrow> string \<Rightarrow> jsnum \<Rightarrow> jsnum \<Rightarrow> jsnum \<Rightarrow> 'h ui" where
  "metric_meter e label v warnAt criticalAt =
     (let pct = math_max 0 v;
          tone = meterTone (math_min (Fin 100) pct) warnAt criticalAt
      in el ''div''
        [el ''div''
          [el ''span'' [Text label],
           El ''span'' [(''tone'', AStr (textTone tone))]
             ([Text (formatPercent e pct 1)]
              @ opt (tone \<noteq> Tone_Default) (el ''span'' [Text (tr e (''severity.'' @ tone_name tone) [])]))],
         usage_bar e pct tone label])"

definition stat_card ::
  "translate \<Rightarrow> string \<Rightarrow> string \<Rightarrow> meter_tone \<Rightarrow> string option \<Rightarrow> string option \<Rightarrow> bool \<Rightarrow> 'h ui" where
  "stat_card t label v tone hint to loading =
     (let body =
        El ''Card'' [(''hover'', ABool (truthy_str to))]
          [el ''CardContent''
            ([if loading then skeleton else El ''p'' [(''tone'', AStr (textTone tone))] [Text v],
              el ''p'' ([Text label]
                @ opt (tone \<noteq> Tone_Default \<and> \<not> loading)
                    (El ''span'' [(''tone'', AStr (textTone tone))] [Text (t (''severity.'' @ tone_name tone) [])]))]
             @ opt (truthy_str hint) (el ''p'' [Text (the hint)]))]
      in if truthy_str to then link (the to) [body] else body)"

definition stat_toggle :: "translate \<Rightarrow> stat_mode \<Rightarrow> stat_mode ui" where
  "stat_toggle t v =
     El ''div'' [(''role'', AStr ''group''), (''aria-label'', AStr (t ''chart.summary'' []))]
       (map (\<lambda>mode. El ''Button''
           [(''variant'', AStr (if v = mode then ''default'' else ''outline'')),
            (''aria-pressed'', ABool (v = mode)), (''onClick'', AHandler mode)]
           [Text (statLabel t mode)]) STAT_MODES)"

subsection \<open>The group filter\<close>

record group_select_state =
  gsel_loaded :: "workload_group list"
  gsel_failed :: bool

definition group_select_init :: group_select_state where
  "group_select_init = \<lparr>gsel_loaded = [], gsel_failed = False\<rparr>"

text \<open>What the answer of \<open>listWorkloadGroups\<close> does; nothing is asked when the groups are given.\<close>

definition group_select_answer :: "api_error + workload_group list \<Rightarrow> group_select_state \<Rightarrow> group_select_state" where
  "group_select_answer answer st =
     (case answer of
        Inr g \<Rightarrow> st\<lparr>gsel_loaded := g, gsel_failed := False\<rparr>
      | Inl _ \<Rightarrow> st\<lparr>gsel_loaded := [], gsel_failed := True\<rparr>)"

definition group_select_effect ::
  "workload_group body fetch \<Rightarrow> string \<Rightarrow> workload_group list option \<Rightarrow> group_select_state \<Rightarrow> group_select_state" where
  "group_select_effect fetch base provided st =
     (if provided \<noteq> None then st else group_select_answer (listWorkloadGroups fetch base) st)"

definition group_select :: "translate \<Rightarrow> string \<Rightarrow> bool \<Rightarrow> workload_group list option \<Rightarrow> group_select_state \<Rightarrow> unit ui" where
  "group_select t v disabled provided st =
     (let groups = coalesce provided (gsel_loaded st); failed = gsel_failed st;
          unknown = (v \<noteq> [] \<and> \<not> list_ex (\<lambda>g. g_id g = v) groups)
      in El ''select''
        ([(''name'', AStr ''group''), (''aria-label'', AStr (t ''common.group'' []))]
         @ (if failed then [(''aria-invalid'', ABool True), (''title'', AStr (t ''common.groupsError'' []))] else [])
         @ [(''value'', AStr v), (''disabled'', ABool disabled), (''onChange'', AHandler ())])
        ([El ''option'' [(''value'', AStr [])] [Text (t ''common.allGroups'' [])]]
         @ opt failed (El ''option'' [(''value'', AStr []), (''disabled'', ABool True)] [Text (t ''common.groupsError'' [])])
         @ opt unknown (El ''option'' [(''value'', AStr v)] [Text v])
         @ map (\<lambda>g. El ''option'' [(''value'', AStr (g_id g))] [Text (g_name g)]) groups))"

subsection \<open>The small chart of a card\<close>

definition SPARK_POINTS :: jsnum where
  "SPARK_POINTS = Fin 60"

definition spark_step :: "'a list \<Rightarrow> nat" where
  "spark_step points =
     (case math_max 1 (math_ceil (length_num points / SPARK_POINTS)) of Fin x \<Rightarrow> nat \<lfloor>x\<rfloor> | _ \<Rightarrow> 1)"

text \<open>The loop \<open>for (i = 0; i < length; i += step)\<close>.\<close>

function every :: "nat \<Rightarrow> 'a list \<Rightarrow> 'a list" where
  "every n [] = []"
| "every n (x # xs) = x # every n (drop (n - 1) xs)"
  by pat_completeness auto
termination
  by (relation "measure (length \<circ> snd)") (auto simp: le_imp_less_Suc)

definition spark_values :: "series_point list \<Rightarrow> jsnum list" where
  "spark_values points =
     (let step = spark_step points; vs = map p_value (every step points)
      in if (length points - 1) mod step \<noteq> 0 then vs @ [p_value (last points)] else vs)"

definition spark_x :: "jsnum list \<Rightarrow> nat \<Rightarrow> jsnum" where
  "spark_x vs i =
     (if length vs = 1 then Fin 50 else (num_of_int (int i) / (length_num vs - 1)) * Fin 100)"

definition spark_span :: "jsnum list \<Rightarrow> jsnum" where
  "spark_span vs =
     (let d = math_max_list vs - math_min_list vs in if truthy_num d then d else 1)"

definition spark_y :: "jsnum list \<Rightarrow> jsnum \<Rightarrow> jsnum" where
  "spark_y vs v = Fin 46 - ((v - math_min_list vs) / spark_span vs) * Fin 42"

definition spark_line :: "jsnum list \<Rightarrow> string" where
  "spark_line vs = join '' ''
     (map (\<lambda>(i, v). (if i = 0 then ''M'' else ''L'') @ to_fixed 2 (spark_x vs i) @ '','' @ to_fixed 2 (spark_y vs v))
        (enumerate 0 vs))"

definition sparkline :: "env \<Rightarrow> series_point list \<Rightarrow> string \<Rightarrow> string \<Rightarrow> 'h ui" where
  "sparkline e points label unit =
     (if points = [] then el ''div'' [Text (tr e ''chart.noData'' [])]
      else let vs = spark_values points; line = spark_line vs;
               summary = tr e ''chart.sparkSummary''
                 [(''label'', TStr label), (''last'', TStr (formatNumber e (last vs) 1 @ unit)),
                  (''min'', TStr (formatNumber e (math_min_list vs) 1 @ unit)),
                  (''max'', TStr (formatNumber e (math_max_list vs) 1 @ unit))]
           in El ''svg'' [(''viewBox'', AStr ''0 0 100 48''), (''role'', AStr ''img''), (''aria-label'', AStr summary)]
                [el ''title'' [Text summary],
                 El ''path'' [(''d'', AStr (line @ '' L100,48 L0,48 Z''))] [],
                 El ''path'' [(''d'', AStr line)] []])"

subsection \<open>The card of a container\<close>

definition card_issues :: "translate \<Rightarrow> container_fleet_status option \<Rightarrow> string list" where
  "card_issues t status =
     (case status of
        None \<Rightarrow> []
      | Some s \<Rightarrow>
          (if coalesce (oom_killed s) False then [t ''unstable.oom'' []] else [])
          @ (if f_health s = Some ''unhealthy'' then [t ''unstable.unhealthy'' []] else [])
          @ (if restart_count s > 0 then [t ''card.restarts'' [(''count'', TInt (restart_count s))]] else []))"

definition memory_pct :: "workload_snapshot \<Rightarrow> jsnum" where
  "memory_pct w = (if memory_limit w > 0 then memory_usage w / memory_limit w * Fin 100 else 0)"

definition container_metric_card ::
  "env \<Rightarrow> workload_snapshot \<Rightarrow> container_fleet_status option \<Rightarrow> series_point list \<Rightarrow> series_point list \<Rightarrow> 'h ui" where
  "container_metric_card e workload status cpuPoints memPoints =
     (let t = tr e; memPct = memory_pct workload;
          state = map_option (\<lambda>s. to_lower (f_state s)) status;
          issues = card_issues t status
      in el ''Card''
        [el ''CardHeader''
          [el ''div'' ([El ''CardTitle'' [(''title'', AStr (w_container workload))] [Text (w_container workload)]]
             @ opt (truthy_str state) (badge (stateVariant (the state)) (stateLabel t (the state)))),
           el ''CardDescription''
            [Text (if memory_limit workload > 0
                   then t ''card.memoryOf'' [(''used'', TStr (formatBytes e (memory_usage workload))),
                                            (''limit'', TStr (formatBytes e (memory_limit workload)))]
                   else formatBytes e (memory_usage workload))]],
         el ''CardContent''
          ([metric_meter e (t ''containers.cpu'' []) (cpu_usage workload) (Fin 75) (Fin 90),
            metric_meter e (t ''containers.memory'' []) memPct (Fin 75) (Fin 90),
            el ''div''
             [el ''div'' [el ''p'' [Text (t ''card.cpuHour'' [])], sparkline e cpuPoints (t ''containers.cpu'' []) ''%''],
              el ''div'' [el ''p'' [Text (t ''card.memHour'' [])], sparkline e memPoints (t ''containers.memory'' []) ''%'']]]
           @ opt (issues \<noteq> [])
              (El ''p'' [(''tone'', AStr (textTone Tone_Warning))]
                [Text (t ''severity.warning'' []), Text '': '', Text (join ''; '' issues)])
           @ [el ''div''
              [link (''/metrics?container='' @ encodeURIComponent (w_container workload)) [Text (t ''nav.metrics'' [])],
               link (''/logs?container='' @ encodeURIComponent (w_container workload)) [Text (t ''nav.logs'' [])]]])])"

subsection \<open>The pager\<close>

text \<open>The two buttons: what the present page is clamped to decides them.\<close>

lemma pager_buttons_at:
  assumes n: "length rows < 2 ^ 32" and sz: "0 < sz" "sz \<le> 2 ^ 20" and k: "\<bar>k\<bar> \<le> 2 ^ 53"
    and q: "q = min k (int (page_count (length rows) sz))" "0 \<le> q"
  shows "elements ''Button'' (list_pager t start fin (length_num rows) (Fin (of_int k)) (Fin (of_int (int sz))) trunc h)
    = [button (q \<le> 1) (h (Fin (of_int (q - 1)))) (t ''common.pagerPrev'' []),
       button (int (page_count (length rows) sz) \<le> q \<or> rows = []) (h (Fin (of_int (q + 1)))) (t ''common.pagerNext'' [])]"
proof -
  let ?c = "page_count (length rows) sz"
  have pages: "math_max 1 (math_ceil (length_num rows / Fin (of_int (int sz)))) = Fin (of_int (int ?c))"
    by (rule pages_eq [OF n sz])
  have "?c \<le> max 1 (length rows)" using sz(1) by (rule page_count_le)
  then have c: "int ?c < 2 ^ 32 + 1" using n by simp
  have safe: "math_min (Fin (of_int k)) (Fin (of_int (int ?c))) = Fin (of_int q)"
    unfolding q(1) math_min_Fin by (simp only: of_int_min)
  have q1: "\<bar>q - 1\<bar> \<le> 2 ^ 53" "\<bar>q + 1\<bar> \<le> 2 ^ 53" "\<bar>q\<bar> \<le> 2 ^ 53" using q c by auto
  have prev: "Fin (of_int q) - 1 = Fin (of_int (q - 1))"
    using minus_of_int [of q 1] q1 by simp
  have nxt: "Fin (of_int q) + 1 = Fin (of_int (q + 1))"
    using plus_of_int [of q 1] q1 by simp
  have "num_eq (length_num rows) 0 \<longleftrightarrow> rows = []"
    by (simp add: length_num_eq [OF n] num_eq_def)
  then show ?thesis
    unfolding list_pager_def Let_def pages safe prev nxt
    by (auto simp: elements_def el_def button_def)
qed

lemma pager_buttons:
  assumes n: "length rows < 2 ^ 32" and p: "1 \<le> p" "p \<le> page_count (length rows) 25"
  shows "elements ''Button'' (list_pager t start fin (length_num rows) (Fin (of_int (int p))) PAGE_SIZE trunc h)
    = [button (p = 1) (h (Fin (of_int (int p - 1)))) (t ''common.pagerPrev'' []),
       button (p = page_count (length rows) 25 \<or> rows = []) (h (Fin (of_int (int p + 1)))) (t ''common.pagerNext'' [])]"
proof -
  have "page_count (length rows) 25 \<le> max 1 (length rows)" by (rule page_count_le) simp
  then have k: "\<bar>int p\<bar> \<le> 2 ^ 53" using n p by simp
  have e: "int p \<le> 1 \<longleftrightarrow> p = 1" "int (page_count (length rows) 25) \<le> int p \<longleftrightarrow> p = page_count (length rows) 25"
    using p by auto
  have m: "int p = min (int p) (int (page_count (length rows) 25))" using p(2) by simp
  show ?thesis
    unfolding PAGE_SIZE_nat by (rule pager_buttons_at [OF n _ _ k m, unfolded e]) simp_all
qed

subsection \<open>The points of the small chart\<close>

lemma spark_step_eq: "length xs < 2 ^ 32 \<Longrightarrow> spark_step xs = page_count (length xs) 60"
  using pages_eq [of xs 60] by (simp add: spark_step_def SPARK_POINTS_def)

lemma length_every: "0 < s \<Longrightarrow> length (every s xs) = (length xs + s - 1) div s"
proof (induction s xs rule: every.induct)
  case (1 n)
  then show ?case by simp
next
  case (2 n x xs)
  have ih: "length (every n (drop (n - 1) xs)) = (length xs - (n - 1) + n - 1) div n" using 2 by simp
  show ?case
  proof (cases "n - 1 \<le> length xs")
    case True
    then have "length xs - (n - 1) + n - 1 = length xs" using 2(2) by simp
    moreover have "Suc (length xs) + n - 1 = length xs + n" by simp
    ultimately show ?thesis using ih 2(2) by simp
  next
    case False
    then have e: "length xs - (n - 1) + n - 1 = n - 1" by simp
    have "(length xs + n) div n = 1" using False 2(2) by (simp add: div_nat_eqI)
    then show ?thesis using ih e 2(2) by simp
  qed
qed

lemma nth_every: "0 < s \<Longrightarrow> i < length (every s xs) \<Longrightarrow> every s xs ! i = xs ! (i * s)"
proof (induction s xs arbitrary: i rule: every.induct)
  case (1 n)
  then show ?case by simp
next
  case (2 n x xs)
  show ?case
  proof (cases i)
    case (Suc j)
    then have j: "j < length (every n (drop (n - 1) xs))" using 2 by simp
    then have "every n (drop (n - 1) xs) ! j = drop (n - 1) xs ! (j * n)" using 2 by simp
    also have "j * n < length (drop (n - 1) xs)"
    proof -
      have "Suc j \<le> (length (drop (n - 1) xs) + n - 1) div n" using j length_every [OF 2(2), of "drop (n - 1) xs"] by simp
      then have "Suc j * n \<le> length (drop (n - 1) xs) + n - 1" using 2(2) by (simp add: less_eq_div_iff_mult_less_eq)
      then show ?thesis using 2(2) by simp
    qed
    then have "drop (n - 1) xs ! (j * n) = (x # xs) ! (i * n)"
      using 2(2) Suc by (cases n) (simp_all add: algebra_simps)
    finally show ?thesis using Suc by simp
  qed simp
qed

lemma set_every: "set (every s xs) \<subseteq> set xs"
proof (induction s xs rule: every.induct)
  case (2 n x xs)
  then show ?case using set_drop_subset [of "n - 1" xs] by auto
qed simp

lemma last_every:
  assumes "0 < s" "xs \<noteq> []" "(length xs - 1) mod s = 0"
  shows "last (every s xs) = last xs"
proof -
  obtain q' where "length xs - 1 = s * q'" using mod_0_imp_dvd [OF assms(3)] by (rule dvdE)
  then obtain q where q: "length xs - 1 = q * s" by (metis mult.commute)
  have l: "length (every s xs) = Suc q"
  proof -
    have "length xs + s - 1 = q * s + s" using q assms(2) by (cases xs) simp_all
    then show ?thesis using assms(1) by (simp add: length_every)
  qed
  then have "last (every s xs) = every s xs ! q" by (metis diff_Suc_1 last_conv_nth length_0_conv nat.distinct(1))
  also have "\<dots> = xs ! (q * s)" using nth_every [OF assms(1), of q xs] l by simp
  also have "\<dots> = last xs" using q assms(2) by (simp add: last_conv_nth)
  finally show ?thesis .
qed

lemma spark_values_facts:
  assumes "points \<noteq> []" "length points < 2 ^ 32"
  shows "spark_values points \<noteq> []" "hd (spark_values points) = p_value (hd points)"
    "last (spark_values points) = p_value (last points)" "set (spark_values points) \<subseteq> p_value ` set points"
    "length (spark_values points) \<le> 61"
proof -
  let ?s = "spark_step points"
  have s: "0 < ?s" using spark_step_eq [OF assms(2)] by (simp add: page_count_def)
  obtain p ps where p: "points = p # ps" using assms(1) by (cases points) auto
  have e: "every ?s points = p # every ?s (drop (?s - 1) ps)" unfolding p by simp
  then show "spark_values points \<noteq> []" "hd (spark_values points) = p_value (hd points)"
    unfolding spark_values_def Let_def by (simp_all add: p)
  show "last (spark_values points) = p_value (last points)"
  proof (cases "(length points - 1) mod ?s = 0")
    case True
    then have "last (every ?s points) = last points" using last_every [OF s assms(1)] by simp
    moreover have "every ?s points \<noteq> []" unfolding e by simp
    ultimately show ?thesis using True by (simp add: spark_values_def Let_def last_map)
  qed (simp add: spark_values_def Let_def)
  show "set (spark_values points) \<subseteq> p_value ` set points"
    using set_every [of ?s points] assms(1) by (auto simp: spark_values_def Let_def)
  have "length (every ?s points) \<le> 60"
  proof -
    have "length points \<le> ?s * 60"
      using page_count_covers [of 60 "length points"] unfolding spark_step_eq [OF assms(2)] by simp
    then have "length points + ?s - 1 < ?s * 61" using s by simp
    then have "(length points + ?s - 1) div ?s < 61" using s by (simp add: div_less_iff_less_mult mult.commute)
    then show ?thesis by (simp add: length_every [OF s])
  qed
  then show "length (spark_values points) \<le> 61" by (simp add: spark_values_def Let_def)
qed

text \<open>Values small enough for their differences not to overflow.\<close>

definition moderate :: "jsnum \<Rightarrow> bool" where
  "moderate v \<longleftrightarrow> (\<exists>r. v = Fin r \<and> rep r \<and> \<bar>r\<bar> \<le> 2 ^ 1000)"

lemma math_min_list_moderate:
  assumes "vs \<noteq> []" "\<forall>v\<in>set vs. moderate v"
  shows "\<exists>a. math_min_list vs = Fin a \<and> rep a \<and> \<bar>a\<bar> \<le> 2 ^ 1000 \<and> (\<forall>v\<in>set vs. Fin a \<le> v)"
proof -
  have fold: "\<exists>a. foldl math_min (Fin b) us = Fin a \<and> rep a \<and> \<bar>a\<bar> \<le> 2 ^ 1000 \<and> a \<le> b \<and> (\<forall>v\<in>set us. Fin a \<le> v)"
    if "rep b" "\<bar>b\<bar> \<le> 2 ^ 1000" "\<forall>v\<in>set us. moderate v" for b us
    using that
  proof (induction us arbitrary: b)
    case (Cons u us)
    then obtain r where r: "u = Fin r" "rep r" "\<bar>r\<bar> \<le> 2 ^ 1000" by (auto simp: moderate_def)
    have m: "rep (min b r)" "\<bar>min b r\<bar> \<le> 2 ^ 1000" using Cons.prems r by (auto simp: min_def)
    have us: "\<forall>v\<in>set us. moderate v" using Cons.prems by simp
    show ?case using Cons.IH [OF m us] r by auto
  qed auto
  obtain u us where u: "vs = u # us" using assms(1) by (cases vs) auto
  then obtain r where r: "u = Fin r" "rep r" "\<bar>r\<bar> \<le> 2 ^ 1000" using assms(2) by (auto simp: moderate_def)
  have "math_min PInf u = Fin r" using r by (simp add: math_min_def)
  with fold [of r us] u r assms(2) show ?thesis by (auto simp: math_min_list_def)
qed

lemma math_max_list_moderate:
  assumes "vs \<noteq> []" "\<forall>v\<in>set vs. moderate v"
  shows "\<exists>a. math_max_list vs = Fin a \<and> rep a \<and> \<bar>a\<bar> \<le> 2 ^ 1000 \<and> (\<forall>v\<in>set vs. v \<le> Fin a)"
proof -
  have fold: "\<exists>a. foldl math_max (Fin b) us = Fin a \<and> rep a \<and> \<bar>a\<bar> \<le> 2 ^ 1000 \<and> b \<le> a \<and> (\<forall>v\<in>set us. v \<le> Fin a)"
    if "rep b" "\<bar>b\<bar> \<le> 2 ^ 1000" "\<forall>v\<in>set us. moderate v" for b us
    using that
  proof (induction us arbitrary: b)
    case (Cons u us)
    then obtain r where r: "u = Fin r" "rep r" "\<bar>r\<bar> \<le> 2 ^ 1000" by (auto simp: moderate_def)
    have m: "rep (max b r)" "\<bar>max b r\<bar> \<le> 2 ^ 1000" using Cons.prems r by (auto simp: max_def)
    have us: "\<forall>v\<in>set us. moderate v" using Cons.prems by simp
    show ?case using Cons.IH [OF m us] r by auto
  qed auto
  obtain u us where u: "vs = u # us" using assms(1) by (cases vs) auto
  then obtain r where r: "u = Fin r" "rep r" "\<bar>r\<bar> \<le> 2 ^ 1000" using assms(2) by (auto simp: moderate_def)
  have "math_max NInf u = Fin r" using r by (simp add: math_max_def)
  with fold [of r us] u r assms(2) show ?thesis by (auto simp: math_max_list_def)
qed

lemma small_bounds: "rep 0" "rep 1" "rep 42" "rep 46" "rep 4" "rep 100"
  using rep_of_int [of 1] rep_of_int [of 42] rep_of_int [of 46] rep_of_int [of 4] rep_of_int [of 100] by simp_all

lemma pow1001: "x \<le> 2 ^ 1001 \<Longrightarrow> x < (2::rat) ^ 1024"
  by (rule le_less_trans, assumption, rule power_strict_increasing) simp_all

text \<open>The share of the span a value takes is between 0 and 1.\<close>

lemma spark_share:
  assumes "rep a" "rep b" "rep v" "a \<le> v" "v \<le> b" "\<bar>a\<bar> \<le> 2 ^ 1000" "\<bar>b\<bar> \<le> 2 ^ 1000"
  obtains q where
    "(Fin v - Fin a) / (if truthy_num (Fin b - Fin a) then Fin b - Fin a else 1) = Fin q" "0 \<le> q" "q \<le> 1"
proof -
  let ?m = "rnd (b - a)"
  have "b - a \<le> 2 ^ 1001" using assms(6,7) by (simp add: abs_le_iff)
  then have sm: "b - a < 2 ^ 1024" by (rule pow1001)
  have big: "rep (2 ^ 1001)" unfolding rep_def by (intro exI [of _ 1] exI [of _ 1001]) (simp add: power_int_def)
  have m: "?m \<le> 2 ^ 1001" using rnd_mono [OF \<open>b - a \<le> 2 ^ 1001\<close>] big by simp
  then have ms: "\<bar>?m\<bar> < 2 ^ 1024" using rnd_nonneg [of "b - a"] assms(4,5) pow1001 [OF m] by simp
  have n: "0 \<le> rnd (v - a)" "rnd (v - a) \<le> ?m" using assms(4,5) by (auto intro: rnd_nonneg rnd_mono)
  have dv: "Fin v - Fin a = Fin (rnd (v - a))" "Fin b - Fin a = Fin ?m"
    using n m ms pow1001 [OF m] unfolding minus_Fin by (auto simp: to_num_def Let_def abs_less_iff)
  show ?thesis
  proof (cases "?m = 0")
    case True
    with n have "rnd (v - a) = 0" by simp
    with True dv show ?thesis using that [of 0] small_bounds(1) by (simp add: truthy_num_def to_num_rep)
  next
    case False
    with n have mp: "0 < ?m" by simp
    obtain q where q: "to_num (rnd (v - a) / ?m) = Fin q" "0 \<le> q" "q \<le> 1"
      by (rule to_num_between [of 0 1 "rnd (v - a) / ?m"]) (use small_bounds n mp in \<open>auto simp: divide_le_eq\<close>)
    with False dv that [of q] show ?thesis by (simp add: truthy_num_def)
  qed
qed

lemma spark_y_bounds:
  assumes "vs \<noteq> []" "\<forall>v\<in>set vs. moderate v" "v \<in> set vs"
  obtains y where "spark_y vs v = Fin y" "4 \<le> y" "y \<le> 46"
proof -
  obtain a where a: "math_min_list vs = Fin a" "rep a" "\<bar>a\<bar> \<le> 2 ^ 1000" "\<forall>v\<in>set vs. Fin a \<le> v"
    using math_min_list_moderate [OF assms(1,2)] by blast
  obtain b where b: "math_max_list vs = Fin b" "rep b" "\<bar>b\<bar> \<le> 2 ^ 1000" "\<forall>v\<in>set vs. v \<le> Fin b"
    using math_max_list_moderate [OF assms(1,2)] by blast
  obtain r where r: "v = Fin r" "rep r" using assms(2,3) by (auto simp: moderate_def)
  have "a \<le> r" "r \<le> b" using a(4) b(4) assms(3) r by auto
  then obtain q where q: "(Fin r - Fin a) / (if truthy_num (Fin b - Fin a) then Fin b - Fin a else 1) = Fin q"
    "0 \<le> q" "q \<le> 1" using spark_share [OF a(2) b(2) r(2) _ _ a(3) b(3)] by metis
  obtain s where s: "to_num (q * 42) = Fin s" "0 \<le> s" "s \<le> 42"
    by (rule to_num_between [of 0 42 "q * 42"]) (use small_bounds q in auto)
  obtain y where y: "to_num (46 - s) = Fin y" "4 \<le> y" "y \<le> 46"
    by (rule to_num_between [of 4 46 "46 - s"]) (use small_bounds s in auto)
  have "spark_y vs v = Fin y"
    unfolding spark_y_def spark_span_def Let_def a(1) b(1) r(1) q(1) using s(1) y(1) by (simp add: minus_Fin)
  with y that show ?thesis by blast
qed

lemma spark_x_bounds:
  assumes "i < length vs" "length vs < 2 ^ 32"
  obtains x where "spark_x vs i = Fin x" "0 \<le> x" "x \<le> 100"
proof (cases "length vs = 1")
  case True
  then show ?thesis using that [of 50] by (simp add: spark_x_def)
next
  case False
  let ?n = "int (length vs)"
  have n: "2 \<le> ?n" "?n < 2 ^ 32" using assms False by simp_all
  have l: "length_num vs - 1 = Fin (of_int (?n - 1))"
    using minus_of_int [of ?n 1] n assms(2) by (simp add: length_num_eq)
  have i: "num_of_int (int i) = Fin (of_int (int i))" using assms by (intro num_of_int_eq) simp
  have le: "0 \<le> (of_int (int i) / of_int (?n - 1) :: rat)" "(of_int (int i) / of_int (?n - 1) :: rat) \<le> 1"
  proof -
    have "int i \<le> ?n - 1" using assms(1) by simp
    then have "of_int (int i) \<le> (of_int (?n - 1) :: rat)" by (rule iffD2 [OF of_int_le_iff])
    then show "0 \<le> (of_int (int i) / of_int (?n - 1) :: rat)" "(of_int (int i) / of_int (?n - 1) :: rat) \<le> 1"
      using n by (simp_all add: divide_le_eq)
  qed
  obtain q where q: "to_num (of_int (int i) / of_int (?n - 1)) = Fin q" "0 \<le> q" "q \<le> 1"
    by (rule to_num_between [of 0 1 "of_int (int i) / of_int (?n - 1)"]) (use small_bounds le in auto)
  obtain x where x: "to_num (q * 100) = Fin x" "0 \<le> x" "x \<le> 100"
    by (rule to_num_between [of 0 100 "q * 100"]) (use small_bounds q in auto)
  have "of_int (?n - 1) \<noteq> (0::rat)" using n by simp
  then have "spark_x vs i = Fin x"
    using False q(1) x(1) unfolding spark_x_def l i by simp
  with x that show ?thesis by blast
qed

subsection \<open>Properties\<close>

text \<open>The small chart of a card keeps the first and the last sample, draws at most 61 of them,
  and every point it draws is inside its box: across from 0 to 100, down from 4 to 46.\<close>

theorem sparkline_inside_box:
  assumes "points \<noteq> []" "length points < 2 ^ 32" "\<forall>p\<in>set points. moderate (p_value p)"
  shows "hd (spark_values points) = p_value (hd points) \<and> last (spark_values points) = p_value (last points)
    \<and> set (spark_values points) \<subseteq> p_value ` set points \<and> length (spark_values points) \<le> 61
    \<and> list_all (\<lambda>(i, v). \<exists>x y. spark_x (spark_values points) i = Fin x \<and> 0 \<le> x \<and> x \<le> 100
         \<and> spark_y (spark_values points) v = Fin y \<and> 4 \<le> y \<and> y \<le> 46) (enumerate 0 (spark_values points))"
proof -
  let ?vs = "spark_values points"
  note f = spark_values_facts [OF assms(1,2)]
  have m: "\<forall>v\<in>set ?vs. moderate v" using f(4) assms(3) by auto
  have "\<exists>x y. spark_x ?vs i = Fin x \<and> 0 \<le> x \<and> x \<le> 100 \<and> spark_y ?vs v = Fin y \<and> 4 \<le> y \<and> y \<le> 46"
    if "(i, v) \<in> set (enumerate 0 ?vs)" for i v
  proof -
    from that have i: "i < length ?vs" "v = ?vs ! i" by (simp_all add: in_set_enumerate_eq)
    have l: "length ?vs < 2 ^ 32" using f(5) by simp
    obtain x where "spark_x ?vs i = Fin x" "0 \<le> x" "x \<le> 100" by (rule spark_x_bounds [OF i(1) l])
    moreover have "v \<in> set ?vs" using i by simp
    then obtain y where "spark_y ?vs v = Fin y" "4 \<le> y" "y \<le> 46" by (rule spark_y_bounds [OF f(1) m])
    ultimately show ?thesis by blast
  qed
  with f show ?thesis by (auto simp: list_all_iff)
qed

lemma sparkline_inside_box_witness:
  "length (spark_values [\<lparr>p_ts = ''t'', p_value = Fin 3\<rparr>, \<lparr>p_ts = ''u'', p_value = Fin 5\<rparr>]) \<le> 61"
  using sparkline_inside_box [of "[\<lparr>p_ts = ''t'', p_value = Fin 3\<rparr>, \<lparr>p_ts = ''u'', p_value = Fin 5\<rparr>]"]
    rep_of_int [of 3] rep_of_int [of 5] by (simp add: moderate_def)

text \<open>The pager beside a page of rows offers the neighbours that exist: on the page shown, the
  back button is off on the first page only and leads to the page before, the forward button is
  off on the last page (and for no rows) and leads to the page after.\<close>

theorem pager_offers_neighbours:
  assumes "length rows < 2 ^ 32" "pageSlice rows (pageIndex raw) PAGE_SIZE = s"
  shows "\<exists>p. ps_page s = Fin (of_int (int p)) \<and> 1 \<le> p \<and> p \<le> page_count (length rows) 25
    \<and> elements ''Button'' (list_pager t (ps_start s) (ps_end s) (ps_total s) (ps_page s) PAGE_SIZE trunc h)
      = [button (p = 1) (h (Fin (of_int (int p - 1)))) (t ''common.pagerPrev'' []),
         button (p = page_count (length rows) 25 \<or> rows = []) (h (Fin (of_int (int p + 1)))) (t ''common.pagerNext'' [])]"
proof -
  obtain k where k: "pageIndex raw = Fin (of_int k)" by (rule pageIndex_cases)
  let ?p = "clamp_page (length rows) 25 k"
  have s: "ps_page s = Fin (of_int (int ?p))" "ps_total s = length_num rows"
    unfolding assms(2) [symmetric] k PAGE_SIZE_nat length_num_eq [OF assms(1)]
    using pageSlice_eq [OF assms(1), of 25 k] by simp_all
  show ?thesis
    unfolding s using pager_buttons [OF assms(1) clamp_page_bounds [of "length rows" 25 k]] clamp_page_bounds by blast
qed

lemma pager_offers_neighbours_witness:
  "\<exists>p. ps_page (pageSlice [0..<30::nat] (pageIndex ''2'') PAGE_SIZE) = Fin (of_int (int p)) \<and> 1 \<le> p \<and> p \<le> 2"
  using pager_offers_neighbours [of "[0..<30::nat]" "''2''" "pageSlice [0..<30::nat] (pageIndex ''2'') PAGE_SIZE"
      "\<lambda>k _. k" False "\<lambda>n. n"]
  by (auto simp: page_count_def)

text \<open>Whatever the measured value, a meter reports a whole percentage between 0 and 100, and its
  bar, its label and its warning agree: the tone is critical from 90 and a warning from 75.\<close>

theorem meter_in_range:
  assumes "v \<noteq> NaN"
  shows "(\<exists>k::int. 0 \<le> k \<and> k \<le> 100
      \<and> node_attr ''aria-valuenow'' (usage_bar e v tone label) = Some (ANum (Fin (of_int k))))
    \<and> meterTone (math_min (Fin 100) (math_max 0 v)) (Fin 75) (Fin 90)
      = (if v \<ge> Fin 90 then Tone_Critical else if v \<ge> Fin 75 then Tone_Warning else Tone_Default)"
proof (cases v)
  case (Fin r)
  have "0 \<le> min 100 (max 0 r)" "min 100 (max 0 r) \<le> 100" by simp_all
  then have "0 \<le> \<lfloor>min 100 (max 0 r) + 1 / 2\<rfloor>" "\<lfloor>min 100 (max 0 r) + 1 / 2\<rfloor> \<le> 100" by linarith+
  then show ?thesis using Fin by (auto simp: usage_bar_def Let_def meterTone_def)
next
  case PInf
  have "math_min (Fin 100) (math_max (Fin 0) PInf) = Fin 100" by (simp add: math_min_def math_max_def)
  then show ?thesis using PInf by (auto simp: usage_bar_def Let_def meterTone_def intro!: exI [of _ 100])
next
  case NInf
  have "math_min (Fin 100) (math_max (Fin 0) NInf) = Fin 0" by (simp add: math_min_def math_max_def)
  then show ?thesis using NInf by (auto simp: usage_bar_def Let_def meterTone_def intro!: exI [of _ 0])
qed (use assms in simp)

lemma meter_in_range_witness:
  "\<exists>k::int. 0 \<le> k \<and> k \<le> 100
      \<and> node_attr ''aria-valuenow'' (usage_bar sample_env PInf Tone_Default ''cpu'') = Some (ANum (Fin (of_int k)))"
  by (rule meter_in_range [THEN conjunct1]) simp

end
