(* ===== verification/Groups_Panel.thy ===== *)
theory Groups_Panel
  imports Widgets
begin

text \<open>
  \<open>views/groups-panel.tsx\<close>: the sheet that manages the groups of workloads. Its state, each
  handler with what it asks of the hub and of its parent (\<open>groups_request\<close>), what the answers do,
  and the view. A handler that calls the hub goes through \<open>run\<close>: success clears the error, tells
  the parent and looks for suggestions again; a rejection, always an Error with a message here,
  shows it.
\<close>

subsection \<open>Promises\<close>

text \<open>\<open>Promise.all\<close> of two: the values when both resolve; the panel never looks at the reason.\<close>

definition both :: "api_error + 'a \<Rightarrow> api_error + 'b \<Rightarrow> api_error + 'a \<times> 'b" where
  "both a b = (case a of Inl e \<Rightarrow> Inl e | Inr x \<Rightarrow> (case b of Inl e \<Rightarrow> Inl e | Inr y \<Rightarrow> Inr (x, y)))"

lemma both_Inr: "both a b = Inr p \<longleftrightarrow> a = Inr (fst p) \<and> b = Inr (snd p)"
  by (cases p) (auto simp: both_def split: sum.splits)

fun error_message :: "api_error \<Rightarrow> string" where
  "error_message (Network_Error m) = m"
| "error_message (Http_Error m) = m"
| "error_message (Body_Error m) = m"

subsection \<open>Labels\<close>

definition kindLabel :: "translate \<Rightarrow> string \<Rightarrow> string" where
  "kindLabel t kind =
     (if kind = ''stack'' then t ''groups.kindStack'' []
      else if kind = ''service'' then t ''groups.kindService'' []
      else if kind = ''custom'' then t ''groups.kindCustom'' []
      else kind)"

definition membersLabel :: "translate \<Rightarrow> int \<Rightarrow> string" where
  "membersLabel t n = (if n = 1 then t ''groups.oneContainer'' [] else t ''groups.nContainers'' [(''count'', TInt n)])"

subsection \<open>State and handlers\<close>

record groups_panel =
  discovered :: "workload_group list"
  customName :: string
  customSelected :: "string list"
  gp_error :: "string option"

definition groups_panel_init :: groups_panel where
  "groups_panel_init = \<lparr>discovered = [], customName = [], customSelected = [], gp_error = None\<rparr>"

text \<open>What the panel asks for: of the hub, and of the page it is in.\<close>

datatype groups_request =
    Discover_Groups | Create_Group workload_group_input | Delete_Group string
  | Groups_Changed | Select_Group_Id string

text \<open>What called the hub, for what success does besides.\<close>

datatype groups_call = Import_Call | Save_Call | Remove_Call

definition groups_open :: "bool \<Rightarrow> groups_request list" where
  "groups_open shown = (if shown then [Discover_Groups] else [])"

definition discovered_answer :: "api_error + workload_group list \<Rightarrow> groups_panel \<Rightarrow> groups_panel" where
  "discovered_answer r st = st\<lparr>discovered := (case r of Inr gs \<Rightarrow> gs | Inl _ \<Rightarrow> [])\<rparr>"

definition group_key :: "workload_group \<Rightarrow> string" where
  "group_key g = g_kind g @ '':'' @ coalesce (g_label_value g) (g_name g)"

definition suggestions :: "workload_group list \<Rightarrow> groups_panel \<Rightarrow> workload_group list" where
  "suggestions groups st =
     (let savedKeys = map group_key groups
      in slice 0 8 (filter (\<lambda>g. group_key g \<notin> set savedKeys) (discovered st)))"

definition import_input :: "translate \<Rightarrow> workload_group \<Rightarrow> workload_group_input" where
  "import_input t g =
     \<lparr>i_name = g_name g, i_kind = g_kind g,
      i_description = Some (trim (t ''groups.importedFrom''
        [(''kind'', TStr (kindLabel t (g_kind g))), (''value'', TStr (coalesce (g_label_value g) []))])),
      i_label_key = g_label_key g, i_label_value = g_label_value g, i_containers = None\<rparr>"

definition importDiscovered :: "translate \<Rightarrow> workload_group \<Rightarrow> groups_request list" where
  "importDiscovered t g = [Create_Group (import_input t g)]"

definition saveCustomGroup :: "translate \<Rightarrow> groups_panel \<Rightarrow> groups_request list" where
  "saveCustomGroup t st =
     (if trim (customName st) = [] \<or> customSelected st = [] then []
      else [Create_Group \<lparr>i_name = trim (customName st), i_kind = ''custom'',
              i_description = Some (t ''groups.customDescription'' []),
              i_label_key = None, i_label_value = None, i_containers = Some (customSelected st)\<rparr>])"

definition removeGroup :: "string \<Rightarrow> string \<Rightarrow> groups_request list" where
  "removeGroup activeGroup gid =
     (if activeGroup = gid then [Select_Group_Id []] else []) @ [Delete_Group gid]"

definition toggleCustomContainer :: "string \<Rightarrow> groups_panel \<Rightarrow> groups_panel" where
  "toggleCustomContainer name st =
     st\<lparr>customSelected := (if name \<in> set (customSelected st) then filter (\<lambda>c. c \<noteq> name) (customSelected st)
                           else customSelected st @ [name])\<rparr>"

text \<open>The answer to a call that went through \<open>run\<close>.\<close>

definition groups_run :: "groups_call \<Rightarrow> api_error + 'a \<Rightarrow> groups_panel \<Rightarrow> groups_panel \<times> groups_request list" where
  "groups_run call r st =
     (case r of
        Inl e \<Rightarrow> (st\<lparr>gp_error := Some (error_message e)\<rparr>, [])
      | Inr _ \<Rightarrow>
          ((if call = Save_Call then st\<lparr>customName := [], customSelected := []\<rparr> else st)\<lparr>gp_error := None\<rparr>,
           [Groups_Changed, Discover_Groups]))"

subsection \<open>Actions and view\<close>

datatype groups_action =
    Sheet_Open bool | Pick_Group string | Remove_Group string | Add_Suggestion workload_group
  | Edit_Name | Toggle_Container string | Save_Group

fun groups_step ::
  "translate \<Rightarrow> string \<Rightarrow> groups_action \<Rightarrow> string \<Rightarrow> groups_panel \<Rightarrow> groups_panel \<times> groups_request list" where
  "groups_step t activeGroup (Sheet_Open b) typed st = (st, [])"
| "groups_step t activeGroup (Pick_Group i) typed st = (st, [Select_Group_Id i])"
| "groups_step t activeGroup (Remove_Group i) typed st = (st, removeGroup activeGroup i)"
| "groups_step t activeGroup (Add_Suggestion g) typed st = (st, importDiscovered t g)"
| "groups_step t activeGroup Edit_Name typed st = (st\<lparr>customName := typed\<rparr>, [])"
| "groups_step t activeGroup (Toggle_Container c) typed st = (toggleCustomContainer c st, [])"
| "groups_step t activeGroup Save_Group typed st = (st, saveCustomGroup t st)"

definition saved_group_item :: "translate \<Rightarrow> string \<Rightarrow> workload_group \<Rightarrow> groups_action ui" where
  "saved_group_item t activeGroup g = El ''li'' [(''active'', ABool (activeGroup = g_id g))]
     [El ''button'' [(''onClick'', AHandler (Pick_Group (g_id g)))]
       [el ''span'' [Text (g_name g)], el ''span'' [Text (membersLabel t (coalesce (g_member_count g) 0))]],
      badge ''outline'' (kindLabel t (g_kind g)),
      El ''Button'' [(''onClick'', AHandler (Remove_Group (g_id g))),
         (''aria-label'', AStr (t ''groups.remove'' [(''name'', TStr (g_name g))]))] [Text (t ''groups.removeShort'' [])]]"

definition suggestion_item :: "translate \<Rightarrow> workload_group \<Rightarrow> groups_action ui" where
  "suggestion_item t g = el ''li''
     [el ''div'' [el ''p'' [Text (g_name g)], el ''p'' [Text (membersLabel t (coalesce (g_member_count g) 0))]],
      button False (Add_Suggestion g) (t ''groups.add'' [])]"

definition groups_view ::
  "translate \<Rightarrow> bool \<Rightarrow> workload_group list \<Rightarrow> string list \<Rightarrow> string \<Rightarrow> groups_panel \<Rightarrow> groups_action ui" where
  "groups_view t shown groups containers activeGroup st =
     (let suggested = suggestions groups st; picked = customSelected st in
      El ''Sheet'' [(''open'', ABool shown), (''onOpenChange'', AHandler (Sheet_Open (\<not> shown)))]
       [el ''SheetHeader'' [el ''SheetTitle'' [Text (t ''groups.title'' [])],
                          el ''SheetDescription'' [Text (t ''groups.description'' [])]],
        el ''div''
         (opt (truthy_str (gp_error st)) (el ''p'' [Text (the (gp_error st))])
          @ [el ''section''
              [el ''h2'' [Text (t ''groups.yours'' [])],
               if groups = [] then el ''p'' [Text (t ''groups.empty'' [])]
               else el ''ul'' (map (saved_group_item t activeGroup) groups)]]
          @ opt (suggested \<noteq> [])
              (el ''section'' [el ''h2'' [Text (t ''groups.suggested'' [])], el ''ul'' (map (suggestion_item t) suggested)])
          @ [el ''section''
              [el ''h2'' [Text (t ''groups.new'' [])],
               El ''Input'' [(''aria-label'', AStr (t ''groups.name'' [])), (''placeholder'', AStr (t ''groups.name'' [])),
                  (''value'', AStr (customName st)), (''onChange'', AHandler Edit_Name)] [],
               el ''ul'' (map (\<lambda>c. el ''li'' [El ''button'' [(''aria-pressed'', ABool (c \<in> set picked)),
                  (''onClick'', AHandler (Toggle_Container c))] [Text c]]) containers),
               button (trim (customName st) = [] \<or> picked = []) Save_Group
                (if picked = [] then t ''groups.selectToCreate'' []
                 else t ''groups.createWith'' [(''members'', TStr (membersLabel t (int (length picked))))])]])])"

subsection \<open>What the handlers keep\<close>

text \<open>No container is picked twice, and picking twice is picking not at all.\<close>

lemma toggle_distinct: "distinct (customSelected st) \<Longrightarrow> distinct (customSelected (toggleCustomContainer c st))"
  by (simp add: toggleCustomContainer_def)

lemma toggle_twice:
  "set (customSelected (toggleCustomContainer c (toggleCustomContainer c st))) = set (customSelected st)"
  by (auto simp: toggleCustomContainer_def)

lemma suggestions_new:
  "g \<in> set (suggestions groups st) \<Longrightarrow> g \<in> set (discovered st) \<and> group_key g \<notin> group_key ` set groups"
  by (auto simp: suggestions_def slice_def dest: in_set_takeD)

lemma suggestions_at_most: "length (suggestions groups st) \<le> 8"
  by (simp add: suggestions_def slice_def)

text \<open>What the panel can ask the hub to create has a name, and the containers picked.\<close>

lemma save_valid:
  "Create_Group input \<in> set (saveCustomGroup t st) \<Longrightarrow>
     i_name input \<noteq> [] \<and> i_kind input = ''custom'' \<and> i_containers input = Some (customSelected st) \<and> customSelected st \<noteq> []"
  by (auto simp: saveCustomGroup_def split: if_splits)

lemma save_disabled:
  "saveCustomGroup t st = [] \<longleftrightarrow> trim (customName st) = [] \<or> customSelected st = []"
  by (simp add: saveCustomGroup_def)

text \<open>Everything that can happen to the panel: an action, the answer to a call, new suggestions.\<close>

datatype groups_event =
    Groups_Act groups_action string | Call_Answer groups_call "api_error + unit"
  | Discover_Answer "api_error + workload_group list"

fun groups_event_step :: "translate \<Rightarrow> string \<Rightarrow> groups_event \<Rightarrow> groups_panel \<Rightarrow> groups_panel" where
  "groups_event_step t active (Groups_Act a typed) st = fst (groups_step t active a typed st)"
| "groups_event_step t active (Call_Answer c r) st = fst (groups_run c r st)"
| "groups_event_step t active (Discover_Answer r) st = discovered_answer r st"

definition groups_events :: "translate \<Rightarrow> (string \<times> groups_event) list \<Rightarrow> groups_panel \<Rightarrow> groups_panel" where
  "groups_events t evs st = foldl (\<lambda>st (active, ev). groups_event_step t active ev st) st evs"

lemma event_distinct:
  "distinct (customSelected st) \<Longrightarrow> distinct (customSelected (groups_event_step t active ev st))"
proof (cases ev)
  case (Groups_Act a typed)
  then show "distinct (customSelected st) \<Longrightarrow> ?thesis" by (cases a) (auto simp: toggle_distinct)
next
  case (Call_Answer c r)
  then show "distinct (customSelected st) \<Longrightarrow> ?thesis" by (auto simp: groups_run_def split: sum.split)
qed (simp add: discovered_answer_def)

lemma events_distinct:
  "distinct (customSelected st) \<Longrightarrow> distinct (customSelected (groups_events t evs st))"
  by (induction evs arbitrary: st) (auto simp: groups_events_def event_distinct)

subsection \<open>Properties\<close>

text \<open>C26. Whatever was clicked, typed and answered since the panel appeared: the containers picked are
  different from each other, clicking one changes exactly whether it is picked, at most eight
  suggestions are offered, and none of them is a group there already is.\<close>

theorem groups_panel_invariant:
  "distinct (customSelected (groups_events t evs groups_panel_init))
   \<and> set (customSelected (toggleCustomContainer c (groups_events t evs groups_panel_init)))
       = (if c \<in> set (customSelected (groups_events t evs groups_panel_init))
          then set (customSelected (groups_events t evs groups_panel_init)) - {c}
          else insert c (set (customSelected (groups_events t evs groups_panel_init))))
   \<and> length (suggestions groups (groups_events t evs groups_panel_init)) \<le> 8
   \<and> group_key ` set (suggestions groups (groups_events t evs groups_panel_init)) \<inter> group_key ` set groups = {}"
proof (intro conjI)
  show "distinct (customSelected (groups_events t evs groups_panel_init))"
    by (rule events_distinct) (simp add: groups_panel_init_def)
  show "group_key ` set (suggestions groups (groups_events t evs groups_panel_init)) \<inter> group_key ` set groups = {}"
    using suggestions_new by blast
qed (auto simp: toggleCustomContainer_def suggestions_at_most)

end
