(* ===== verification/Charts.thy ===== *)
theory Charts
  imports Widgets
begin

text \<open>
  The charts of \<open>components/metrics\<close>: what they hand to the chart library. \<open>mergeSeries\<close> puts
  the samples of several series into rows by their formatted time, the last sample of a label
  winning; \<open>mergeStacked\<close> (theory \<open>Stack_Series\<close>) averages them instead.
\<close>

definition chart_names :: "container_series list \<Rightarrow> string list" where
  "chart_names series = map s_container series"

definition series_label :: "translate \<Rightarrow> string \<Rightarrow> string list \<Rightarrow> string" where
  "series_label t title keys = t ''chart.seriesLabel''
     [(''title'', TStr title), (''count'', TInt (int (length keys))), (''names'', TStr (join '', '' (slice 0 8 keys)))]"

definition axes :: "string \<Rightarrow> 'h ui list" where
  "axes unit = [El ''CartesianGrid'' [] [], El ''XAxis'' [(''dataKey'', AStr ''time'')] [],
                El ''YAxis'' [(''tickSuffix'', AStr unit)] []]"

definition chart_header :: "string \<Rightarrow> string option \<Rightarrow> string option \<Rightarrow> 'h ui" where
  "chart_header title description stat =
     el ''CardHeader'' ([el ''CardTitle'' [Text title]]
       @ opt (truthy_str description) (el ''CardDescription'' [Text (the description)])
       @ opt (truthy_str stat) (el ''p'' [Text (the stat)]))"

subsection \<open>One series\<close>

definition time_series_chart ::
  "env \<Rightarrow> string \<Rightarrow> string option \<Rightarrow> series_point list \<Rightarrow> bool \<Rightarrow> string \<Rightarrow> (jsnum \<Rightarrow> jsnum) option \<Rightarrow> 'h ui" where
  "time_series_chart e title description points loading unit transform =
     (let data = chartPoints e points transform in
      el ''Card''
        [chart_header title description None,
         el ''CardContent''
          [if loading then skeleton
           else if data = [] then el ''p'' [Text (tr e ''chart.empty'' [])]
           else El ''ChartContainer''
             [(''label'', AStr (tr e ''common.value'' [])), (''role'', AStr ''img''),
              (''aria-label'', AStr (tr e ''chart.chartLabel'' [(''title'', TStr title), (''count'', TInt (int (length data)))]))]
             [El ''AreaChart''
               [(''data'', ARows (map (\<lambda>p. [(''i'', CNum (num_of_int (cp_i p))), (''time'', CStr (cp_time p)),
                                          (''value'', CNum (cp_value p))]) data))]
               (axes unit @ [El ''ChartTooltip'' [] [], El ''Area'' [(''dataKey'', AStr ''value'')] []])]]])"

subsection \<open>Several series\<close>

definition merge_point ::
  "env \<Rightarrow> (jsnum \<Rightarrow> jsnum) option \<Rightarrow> string \<Rightarrow> (string \<times> chart_row) list \<Rightarrow> series_point \<Rightarrow> (string \<times> chart_row) list" where
  "merge_point e transform container byTime p =
     (let time = formatTime e (p_ts p);
          row = coalesce (map_get byTime time) [(''time'', CStr time)];
          row = map_set container (CNum (case transform of Some f \<Rightarrow> f (p_value p) | None \<Rightarrow> p_value p)) row
      in map_set time row byTime)"

definition mergeSeries :: "env \<Rightarrow> container_series list \<Rightarrow> (jsnum \<Rightarrow> jsnum) option \<Rightarrow> chart_row list" where
  "mergeSeries e series transform =
     map_values (foldl (\<lambda>byTime s.
         foldl (merge_point e transform (s_container s)) byTime (coalesce (s_points s) [])) [] series)"

definition describeStat ::
  "env \<Rightarrow> container_series list \<Rightarrow> stat_mode \<Rightarrow> string \<Rightarrow> (jsnum \<Rightarrow> jsnum) option \<Rightarrow> string option" where
  "describeStat e series mode unit transform =
     (let values = concat (map (\<lambda>s. map (\<lambda>p. case transform of Some f \<Rightarrow> f (p_value p) | None \<Rightarrow> p_value p)
                                       (coalesce (s_points s) [])) series)
      in case summarize values mode of
           None \<Rightarrow> None
         | Some agg \<Rightarrow> Some (tr e ''chart.statLine''
             [(''label'', TStr (statLabel (tr e) mode)), (''value'', TStr (formatNumber e agg 1)), (''unit'', TStr unit)]))"

definition multi_series_chart ::
  "env \<Rightarrow> string \<Rightarrow> string option \<Rightarrow> container_series list \<Rightarrow> bool \<Rightarrow> string \<Rightarrow> (jsnum \<Rightarrow> jsnum) option
     \<Rightarrow> string \<Rightarrow> stat_mode option \<Rightarrow> 'h ui" where
  "multi_series_chart e title description series loading unit transform chartType statMode =
     (let data = mergeSeries e series transform;
          keys = chart_names series;
          stat = (case statMode of Some m \<Rightarrow> describeStat e series m unit transform | None \<Rightarrow> None);
          container = El ''ChartContainer'' [(''role'', AStr ''img''), (''aria-label'', AStr (series_label (tr e) title keys))]
      in el ''Card''
        [chart_header title description stat,
         el ''CardContent''
          [if loading then skeleton
           else if data = [] then el ''p'' [Text (tr e ''chart.empty'' [])]
           else if chartType = ''line'' then
             container [El ''LineChart'' [(''data'', ARows data)]
               (axes unit @ [El ''ChartTooltip'' [] [], El ''Legend'' [] []]
                @ map (\<lambda>(i, k). El ''Line'' [(''dataKey'', AStr k), (''name'', AStr k), (''stroke'', AStr (containerColor i))] [])
                    (enumerate 0 keys))]
           else
             container [El ''AreaChart'' [(''data'', ARows data)]
               (axes unit @ [El ''ChartTooltip'' [] [], El ''Legend'' [] []]
                @ map (\<lambda>(i, k). El ''Area'' [(''dataKey'', AStr k), (''name'', AStr k), (''stroke'', AStr (containerColor i)),
                                         (''fill'', AStr (containerColor i))] []) (enumerate 0 keys))]]])"

subsection \<open>Stacked series\<close>

record tooltip_item =
  ti_name :: string
  ti_key :: string
  ti_value :: "chart_value option"
  ti_color :: string

definition positive_value :: "tooltip_item \<Rightarrow> bool" where
  "positive_value item = (case ti_value item of Some (CNum v) \<Rightarrow> v > 0 | _ \<Rightarrow> False)"

text \<open>\<open>Number(item.value)\<close>.\<close>

definition item_number :: "tooltip_item \<Rightarrow> jsnum" where
  "item_number item =
     (case ti_value item of Some (CNum v) \<Rightarrow> v | Some (CStr s) \<Rightarrow> string_to_number s | None \<Rightarrow> NaN)"

definition tooltip_rows :: "tooltip_item list \<Rightarrow> tooltip_item list" where
  "tooltip_rows payload = js_sort (\<lambda>a b. item_number b - item_number a) (filter positive_value payload)"

definition tooltip_total :: "tooltip_item list \<Rightarrow> jsnum" where
  "tooltip_total rows = foldl (\<lambda>sum item. sum + item_number item) 0 rows"

definition stack_tooltip ::
  "env \<Rightarrow> bool \<Rightarrow> tooltip_item list option \<Rightarrow> string option \<Rightarrow> string \<Rightarrow> 'h ui option" where
  "stack_tooltip e active payload label unit =
     (if \<not> active \<or> coalesce payload [] = [] then None
      else let rows = tooltip_rows (the payload);
               tot = tooltip_total rows
        in Some (el ''div''
          (opt (truthy_str label) (el ''div'' [Text (the label)])
           @ map (\<lambda>item. el ''div''
               [el ''span'' [El ''span'' [(''background'', AStr (ti_color item))] [], Text (ti_name item)],
                el ''span'' [Text (if unit = ''%'' then formatPercent e (item_number item) 1
                                  else formatNumber e (item_number item) 1)]]) rows
           @ opt (unit = ''%'')
              (el ''div'' [el ''span'' [Text (tr e ''chart.total'' [])], el ''span'' [Text (formatPercent e tot 1)]]))))"

definition to_stack :: "container_series \<Rightarrow> stack_series" where
  "to_stack s = \<lparr>sk_container = s_container s, sk_points = s_points s\<rparr>"

definition stacked_area_chart ::
  "env \<Rightarrow> string \<Rightarrow> string option \<Rightarrow> container_series list \<Rightarrow> bool \<Rightarrow> string \<Rightarrow> (jsnum \<Rightarrow> jsnum) option
     \<Rightarrow> string option \<Rightarrow> 'h ui" where
  "stacked_area_chart e title description series loading unit transform emptyHint =
     (let data = mergeStacked e (map to_stack series) transform;
          keys = chart_names series;
          hint = coalesce emptyHint (tr e ''chart.emptyHint'' [])
      in el ''Card''
        [chart_header title description None,
         el ''CardContent''
          [if loading then skeleton
           else if data = [] then el ''p'' [Text hint]
           else El ''ChartContainer'' [(''role'', AStr ''img''), (''aria-label'', AStr (series_label (tr e) title keys))]
             [El ''AreaChart'' [(''data'', ARows data)]
               (axes unit @ [El ''StackTooltip'' [(''unit'', AStr unit)] [], El ''Legend'' [] []]
                @ map (\<lambda>(i, k). El ''Area'' [(''dataKey'', AStr k), (''name'', AStr k), (''stackId'', AStr ''stack''),
                     (''stroke'', AStr (containerColor i)), (''fill'', AStr (containerColor i))] []) (enumerate 0 keys))]]])"

subsection \<open>Rows by label\<close>

definition merge_samples ::
  "env \<Rightarrow> (jsnum \<Rightarrow> jsnum) option \<Rightarrow> container_series list \<Rightarrow> (string \<times> string \<times> jsnum) list" where
  "merge_samples e transform series = concat (map (\<lambda>s.
     map (\<lambda>p. (formatTime e (p_ts p), s_container s, case transform of Some f \<Rightarrow> f (p_value p) | None \<Rightarrow> p_value p))
       (coalesce (s_points s) [])) series)"

definition merge_step :: "string \<times> string \<times> jsnum \<Rightarrow> chart_row option \<Rightarrow> chart_row" where
  "merge_step x old = map_set (fst (snd x)) (CNum (snd (snd x))) (coalesce old [(''time'', CStr (fst x))])"

lemma merge_points:
  "foldl (merge_point e f c) b ps
     = js_map.upsert_all fst merge_step
         (map (\<lambda>p. (formatTime e (p_ts p), c, case f of Some g \<Rightarrow> g (p_value p) | None \<Rightarrow> p_value p)) ps) b"
  by (induction ps arbitrary: b) (simp_all add: merge_point_def merge_step_def Let_def)

lemma mergeSeries_samples:
  "mergeSeries e series f = map_values (js_map.upsert_all fst merge_step (merge_samples e f series) [])"
proof -
  have "foldl (\<lambda>b s. foldl (merge_point e f (s_container s)) b (coalesce (s_points s) [])) b series
      = js_map.upsert_all fst merge_step (merge_samples e f series) b" for b
    by (induction series arbitrary: b) (simp_all add: merge_samples_def merge_points upsert_all_append)
  then show ?thesis by (simp add: mergeSeries_def)
qed

text \<open>The last sample of a container under a label.\<close>

definition last_sample :: "(string \<times> string \<times> jsnum) list \<Rightarrow> string \<Rightarrow> string \<Rightarrow> jsnum option" where
  "last_sample xs time c = map_of (rev (map (\<lambda>(m, n, v). ((m, n), v)) xs)) (time, c)"

lemma map_get_sets:
  "map_get (foldl (\<lambda>row x. map_set (k x) (v x) row) row xs) c
     = (case map_of (rev (map (\<lambda>x. (k x, v x)) xs)) c of Some w \<Rightarrow> Some w | None \<Rightarrow> map_get row c)"
  by (induction xs rule: rev_induct) (auto simp: map_get_set)

lemma last_sample_filter:
  "map_of (rev (map (\<lambda>x. (fst (snd x), CNum (snd (snd x)))) (filter (\<lambda>x. fst x = m) xs))) c
     = map_option CNum (last_sample xs m c)"
  by (induction xs rule: rev_induct) (auto simp: last_sample_def)

lemma merge_row:
  assumes "m \<in> fst ` set xs"
  shows "map_get (js_map.upsert_all fst merge_step xs []) m
      = Some (foldl (\<lambda>row x. map_set (fst (snd x)) (CNum (snd (snd x))) row) [(''time'', CStr m)]
          (filter (\<lambda>x. fst x = m) xs))"
proof -
  let ?ys = "filter (\<lambda>x. fst x = m) xs"
  have "foldl (\<lambda>v x. Some (merge_step x v)) None ys
      = (if ys = [] then None
         else Some (foldl (\<lambda>row x. map_set (fst (snd x)) (CNum (snd (snd x))) row) [(''time'', CStr m)] ys))"
    if "\<forall>y\<in>set ys. fst y = m" for ys
    using that
  proof (induction ys rule: rev_induct)
    case (snoc y ys)
    then show ?case by (cases "ys = []") (simp_all add: merge_step_def)
  qed simp
  from this [of ?ys] assms show ?thesis unfolding js_map.lookup_upsert
    by (auto simp: map_get_def filter_empty_conv)
qed

interpretation items: numeric_key item_number "\<lambda>x. is_double (item_number x)"
  by unfold_locales

lemma tooltip_sorted:
  assumes "\<forall>x\<in>set payload. positive_value x \<longrightarrow> is_double (item_number x)"
  shows "sorted_wrt (\<lambda>a b. item_number b \<le> item_number a) (tooltip_rows payload)"
proof -
  have d: "\<forall>x\<in>set (filter positive_value payload). is_double (item_number x)" using assms by simp
  have s: "sorted_wrt (\<lambda>a b. \<not> 0 < item_number b - item_number a) (tooltip_rows payload)"
    unfolding tooltip_rows_def by (rule items.desc.sorted_js_sort [OF d])
  have le: "y \<le> x" if "is_double x" "is_double y" "\<not> 0 < y - x" for x y
  proof -
    have "\<not> x < y" using that sign_minus_double [of y x] by blast
    with that(1,2) show ?thesis by (auto simp: is_double_def split: jsnum.splits)
  qed
  have "\<forall>x\<in>set (tooltip_rows payload). is_double (item_number x)" using d by (simp add: tooltip_rows_def)
  then show ?thesis using le by (intro sorted_wrt_mono_rel [OF _ s]) blast
qed

subsection \<open>Properties\<close>

text \<open>A line chart of several containers has one row for each formatted time, in the order the
  times first appear; in a row each container has its last sample of that label, and a container
  without one has no value there.\<close>

theorem merged_rows_functional:
  "length (mergeSeries e series f) = length (firsts (map fst (merge_samples e f series)))
   \<and> (\<forall>i < length (firsts (map fst (merge_samples e f series))). \<forall>c.
        map_get (mergeSeries e series f ! i) c =
          (case last_sample (merge_samples e f series) (firsts (map fst (merge_samples e f series)) ! i) c of
             Some v \<Rightarrow> Some (CNum v)
           | None \<Rightarrow> if c = ''time'' then Some (CStr (firsts (map fst (merge_samples e f series)) ! i)) else None))"
proof -
  let ?xs = "merge_samples e f series" and ?m = "js_map.upsert_all fst merge_step (merge_samples e f series) []"
  have keys: "map_keys ?m = firsts (map fst ?xs)"
    unfolding js_map.keys_upsert by (simp add: firsts_def map_keys_def)
  then have vals: "mergeSeries e series f = map (\<lambda>k. the (map_get ?m k)) (firsts (map fst ?xs))"
    unfolding mergeSeries_samples using map_values_get [of ?m] by simp
  have row: "map_get (the (map_get ?m t)) c = (case last_sample ?xs t c of Some v \<Rightarrow> Some (CNum v)
      | None \<Rightarrow> if c = ''time'' then Some (CStr t) else None)" if "t \<in> set (firsts (map fst ?xs))" for t c
  proof -
    have "t \<in> fst ` set ?xs" using that by simp
    from merge_row [OF this] show ?thesis
      by (simp add: map_get_sets last_sample_filter split: option.split) (simp add: map_get_def)
  qed
  show ?thesis
  proof (intro conjI allI impI)
    fix i c
    assume i: "i < length (firsts (map fst ?xs))"
    then have "firsts (map fst ?xs) ! i \<in> set (firsts (map fst ?xs))" by (rule nth_mem)
    note r = row [OF this, of c]
    have "mergeSeries e series f ! i = the (map_get ?m (firsts (map fst ?xs) ! i))"
      using i unfolding vals by simp
    with r show "map_get (mergeSeries e series f ! i) c =
        (case last_sample ?xs (firsts (map fst ?xs) ! i) c of Some v \<Rightarrow> Some (CNum v)
         | None \<Rightarrow> if c = ''time'' then Some (CStr (firsts (map fst ?xs) ! i)) else None)"
      by simp
  qed (simp add: vals)
qed

lemma merged_rows_functional_witness:
  "length (mergeSeries sample_env [\<lparr>s_container = ''a'', s_entity_uid = ''u'',
      s_points = Some [\<lparr>p_ts = ''10:00'', p_value = Fin 1\<rparr>, \<lparr>p_ts = ''10:00'', p_value = Fin 2\<rparr>]\<rparr>] None) = 1"
  using merged_rows_functional [of sample_env "[\<lparr>s_container = ''a'', s_entity_uid = ''u'',
      s_points = Some [\<lparr>p_ts = ''10:00'', p_value = Fin 1\<rparr>, \<lparr>p_ts = ''10:00'', p_value = Fin 2\<rparr>]\<rparr>]" None]
  by (simp add: merge_samples_def firsts_def formatTime_def sample_env_def)

text \<open>The tooltip of a stacked chart lists exactly the positive values, largest first.\<close>

theorem tooltip_largest_first:
  assumes "\<forall>x\<in>set payload. positive_value x \<longrightarrow> is_double (item_number x)"
  shows "mset (tooltip_rows payload) = mset (filter positive_value payload)
       \<and> sorted_wrt (\<lambda>a b. item_number b \<le> item_number a) (tooltip_rows payload)"
  using tooltip_sorted [OF assms] by (simp add: tooltip_rows_def)

lemma tooltip_largest_first_witness:
  "sorted_wrt (\<lambda>a b. item_number b \<le> item_number a)
     (tooltip_rows [\<lparr>ti_name = ''a'', ti_key = ''a'', ti_value = Some (CNum (Fin 1)), ti_color = ''c''\<rparr>])"
  using tooltip_largest_first [of "[\<lparr>ti_name = ''a'', ti_key = ''a'', ti_value = Some (CNum (Fin 1)), ti_color = ''c''\<rparr>]"]
    rep_of_int [of 1] by (simp add: item_number_def is_double_def)

end
