(* ===== verification/Run_Guard.thy ===== *)
theory Run_Guard
  imports Api
begin

text \<open>
  Loads that overlap. \<open>TopologyPage\<close>, \<open>TraceDetailView\<close>, \<open>MetricCompare\<close> and \<open>ContainerMetrics\<close>
  number their loads (or close a \<open>cancelled\<close> flag over each) and drop the answers of all but the
  latest one. \<open>run_guard\<close> is the contract of such a component: starting a load takes the next
  number, an answer keeps the number, and an answer for another number changes nothing. From it
  follows that answers that arrive late cannot be told from answers that never arrive. What the
  rest of the page does (typing, toggling) is an operation that keeps the number.
\<close>

text \<open>Whether a call succeeded, and its value when it did.\<close>

definition is_okay :: "api_error + 'a \<Rightarrow> bool" where
  "is_okay r = (case r of Inr _ \<Rightarrow> True | Inl _ \<Rightarrow> False)"

definition answered_value :: "api_error + 'a \<Rightarrow> 'a option" where
  "answered_value r = (case r of Inr v \<Rightarrow> Some v | Inl _ \<Rightarrow> None)"

datatype ('q, 'a) load_event = Start 'q | Answer nat 'a

locale run_guard =
  fixes gen :: "'s \<Rightarrow> nat"
    and start :: "'q \<Rightarrow> 's \<Rightarrow> 's"
    and settle :: "nat \<Rightarrow> 'a \<Rightarrow> 's \<Rightarrow> 's"
  assumes gen_start: "gen (start q s) = Suc (gen s)"
    and gen_settle: "gen (settle r a s) = gen s"
    and settle_stale: "r \<noteq> gen s \<Longrightarrow> settle r a s = s"
begin

fun step :: "('q, 'a) load_event \<Rightarrow> 's \<Rightarrow> 's" where
  "step (Start q) s = start q s"
| "step (Answer r a) s = settle r a s"

definition run :: "('q, 'a) load_event list \<Rightarrow> 's \<Rightarrow> 's" where
  "run evs s = foldl (\<lambda>s ev. step ev s) s evs"

lemma run_simps [simp]: "run [] s = s" "run (ev # evs) s = run evs (step ev s)"
  by (simp_all add: run_def)

lemma run_append: "run (xs @ ys) s = run ys (run xs s)"
  by (simp add: run_def)

text \<open>The events without the answers that come too late.\<close>

fun current_only :: "nat \<Rightarrow> ('q, 'a) load_event list \<Rightarrow> ('q, 'a) load_event list" where
  "current_only n [] = []"
| "current_only n (Start q # evs) = Start q # current_only (Suc n) evs"
| "current_only n (Answer r a # evs) =
     (if r = n then Answer r a # current_only n evs else current_only n evs)"

theorem stale_answers_vanish: "run evs s = run (current_only (gen s) evs) s"
proof (induction evs arbitrary: s)
  case Nil
  then show ?case by simp
next
  case (Cons ev evs)
  then show ?case by (cases ev) (auto simp: gen_start gen_settle settle_stale)
qed

lemma gen_run: "gen (run evs s) = gen s + length (filter (\<lambda>ev. \<exists>q. ev = Start q) evs)"
  by (induction evs arbitrary: s rule: list.induct, simp)
    (case_tac x1, simp_all add: gen_start gen_settle)

text \<open>After a load has started, answers for earlier loads change nothing, however many arrive.\<close>

lemma late_answers:
  "\<forall>ev\<in>set evs. \<exists>r a. ev = Answer r a \<and> r \<noteq> gen s \<Longrightarrow> run evs s = s"
  by (induction evs) (auto simp: settle_stale)

end

subsection \<open>A guarded page in its surroundings\<close>

text \<open>
  The page, what it asks for at present, and for each question not yet answered the load it belongs
  to; \<open>gw_shown\<close> is the question whose answer was taken last, with that answer. A load may bring several answers;
  the main one ends the loading, the others come beside it. \<open>main q a\<close> says that \<open>a\<close>
  is a main answer to \<open>q\<close>.
\<close>

record ('q, 'a, 's) guarded =
  gw_page :: 's
  gw_query :: 'q
  gw_pending :: "(nat \<times> 'q) list"
  gw_shown :: "('q \<times> 'a) option"

definition send_load :: "('s \<Rightarrow> nat) \<Rightarrow> ('q \<Rightarrow> 's \<Rightarrow> 's) \<Rightarrow> 'q \<Rightarrow> ('q, 'a, 's) guarded \<Rightarrow> ('q, 'a, 's) guarded" where
  "send_load gen start q w =
     (let page = start q (gw_page w)
      in w\<lparr>gw_page := page, gw_query := q, gw_pending := gw_pending w @ [(gen page, q)]\<rparr>)"

inductive guarded_step ::
  "('s \<Rightarrow> nat) \<Rightarrow> ('q \<Rightarrow> 's \<Rightarrow> 's) \<Rightarrow> (nat \<Rightarrow> 'a \<Rightarrow> 's \<Rightarrow> 's) \<Rightarrow> ('q \<Rightarrow> 'a \<Rightarrow> bool) \<Rightarrow> ('a \<Rightarrow> bool)
     \<Rightarrow> ('q, 'a, 's) guarded \<Rightarrow> ('q, 'a, 's) guarded \<Rightarrow> bool"
  for gen start settle main okay where
  load: "guarded_step gen start settle main okay w (send_load gen start q w)"
| main: "gw_pending w = xs @ (run, q) # ys \<Longrightarrow> main q a \<Longrightarrow>
    guarded_step gen start settle main okay w (w\<lparr>gw_page := settle run a (gw_page w), gw_pending := xs @ ys,
      gw_shown := (if run = gen (gw_page w) \<and> okay a then Some (q, a) else gw_shown w)\<rparr>)"
| side: "(\<forall>q. \<not> main q a) \<Longrightarrow>
    guarded_step gen start settle main okay w (w\<lparr>gw_page := settle run a (gw_page w)\<rparr>)"

inductive guarded_reachable ::
  "('s \<Rightarrow> nat) \<Rightarrow> ('q \<Rightarrow> 's \<Rightarrow> 's) \<Rightarrow> (nat \<Rightarrow> 'a \<Rightarrow> 's \<Rightarrow> 's) \<Rightarrow> ('q \<Rightarrow> 'a \<Rightarrow> bool) \<Rightarrow> ('a \<Rightarrow> bool) \<Rightarrow> 's
     \<Rightarrow> ('q, 'a, 's) guarded \<Rightarrow> bool"
  for gen start settle main okay s0 where
  mount: "guarded_reachable gen start settle main okay s0
      (send_load gen start q \<lparr>gw_page = s0, gw_query = q, gw_pending = [], gw_shown = None\<rparr>)"
| step: "guarded_reachable gen start settle main okay s0 w \<Longrightarrow> guarded_step gen start settle main okay w w' \<Longrightarrow>
    guarded_reachable gen start settle main okay s0 w'"

locale guarded_page = run_guard gen start settle
  for gen :: "'s \<Rightarrow> nat" and start :: "'q \<Rightarrow> 's \<Rightarrow> 's" and settle :: "nat \<Rightarrow> 'a \<Rightarrow> 's \<Rightarrow> 's" +
  fixes loading :: "'s \<Rightarrow> bool"
    and error :: "'s \<Rightarrow> bool"
    and view :: "'s \<Rightarrow> 'v"
    and main :: "'q \<Rightarrow> 'a \<Rightarrow> bool"
    and okay :: "'a \<Rightarrow> bool"
    and content :: "'a \<Rightarrow> 'v"
  assumes start_loading: "loading (start q s)"
    and main_ends: "main q a \<Longrightarrow> \<not> loading (settle (gen s) a s)"
    and main_fails: "main q a \<Longrightarrow> \<not> okay a \<Longrightarrow> error (settle (gen s) a s)"
    and main_view: "main q a \<Longrightarrow> okay a \<Longrightarrow> view (settle (gen s) a s) = content a"
    and side_flags: "(\<forall>q. \<not> main q a) \<Longrightarrow> loading (settle r a s) = loading s \<and> error (settle r a s) = error s
        \<and> view (settle r a s) = view s"
begin

definition on_display :: "('q, 'a, 's) guarded \<Rightarrow> bool" where
  "on_display w \<longleftrightarrow> (\<exists>a. gw_shown w = Some (gw_query w, a) \<and> main (gw_query w) a \<and> view (gw_page w) = content a)"

definition inv :: "('q, 'a, 's) guarded \<Rightarrow> bool" where
  "inv w \<longleftrightarrow>
     (\<forall>(run, q)\<in>set (gw_pending w). run \<le> gen (gw_page w) \<and> (run = gen (gw_page w) \<longrightarrow> q = gw_query w))
     \<and> (loading (gw_page w) \<or> error (gw_page w) \<or> on_display w)
     \<and> (loading (gw_page w) \<longrightarrow> (gen (gw_page w), gw_query w) \<in> set (gw_pending w))
     \<and> distinct (map fst (gw_pending w))"

lemma inv_send:
  assumes "\<forall>(run, q)\<in>set (gw_pending w). run \<le> gen (gw_page w)" "distinct (map fst (gw_pending w))"
  shows "inv (send_load gen start q w)"
proof -
  have "Suc (gen (gw_page w)) \<notin> fst ` set (gw_pending w)" using assms(1) by force
  moreover have "\<forall>(run, q')\<in>set (gw_pending w). run \<le> Suc (gen (gw_page w))
      \<and> (run = Suc (gen (gw_page w)) \<longrightarrow> q' = q)" using assms(1) by force
  ultimately show ?thesis
    using assms(2) by (simp add: inv_def send_load_def gen_start start_loading Let_def)
qed

lemma inv_step: "guarded_step gen start settle main okay w w' \<Longrightarrow> inv w \<Longrightarrow> inv w'"
proof (induction rule: guarded_step.induct)
  case (load w q)
  then show ?case by (intro inv_send) (auto simp: inv_def)
next
  case (main w xs run q ys a)
  show ?case
  proof (cases "run = gen (gw_page w)")
    case True
    with main main_ends [of q a "gw_page w"] main_fails [of q a "gw_page w"] main_view [of q a "gw_page w"]
    show ?thesis by (auto simp: inv_def on_display_def gen_settle)
  next
    case False
    with main show ?thesis by (auto simp: inv_def on_display_def settle_stale)
  qed
next
  case (side a w run)
  with side_flags [OF side(1), of run "gw_page w"] show ?case by (simp add: inv_def on_display_def gen_settle)
qed

lemma reachable_inv: "guarded_reachable gen start settle main okay s0 w \<Longrightarrow> inv w"
  by (induction rule: guarded_reachable.induct) (auto intro: inv_send inv_step)

lemma shows_current:
  assumes "guarded_reachable gen start settle main okay s0 w" "\<not> loading (gw_page w)" "\<not> error (gw_page w)"
  shows "\<exists>a. gw_shown w = Some (gw_query w, a) \<and> main (gw_query w) a \<and> view (gw_page w) = content a"
  using reachable_inv [OF assms(1)] assms(2,3) by (simp add: inv_def on_display_def)

text \<open>While loading, the answer that ends it is still to come.\<close>

lemma loading_ends:
  assumes "guarded_reachable gen start settle main okay s0 w" "loading (gw_page w)" "main (gw_query w) a"
  shows "\<exists>w'. guarded_step gen start settle main okay w w' \<and> gw_page w' = settle (gen (gw_page w)) a (gw_page w)
    \<and> \<not> loading (gw_page w') \<and> gw_query w' = gw_query w \<and> (okay a \<longrightarrow> gw_shown w' = Some (gw_query w, a))"
proof -
  obtain xs ys where p: "gw_pending w = xs @ (gen (gw_page w), gw_query w) # ys"
    using reachable_inv [OF assms(1)] assms(2) unfolding inv_def by (auto dest: split_list)
  from guarded_step.main [where gen = gen and start = start and settle = settle and main = main and okay = okay, OF p assms(3)]
  show ?thesis
    by (rule_tac exI, rule_tac conjI, assumption) (simp add: main_ends [OF assms(3)])
qed

end

end
