(* ===== verification/Topology.thy ===== *)
theory Topology
  imports Observability Container_State
begin

text \<open>
  \<open>lib/topology-view.ts\<close>: the services of the topology with the signals that concern them. A
  count is an integer; a comparator on counts is the number of their difference.
\<close>

datatype op_status = Op_Critical | Op_Warning | Op_Healthy | Op_Unknown

record topology_signals =
  sg_fleet :: "container_fleet_status list"
  sg_workloads :: "workload_snapshot list"
  sg_http :: "http_service_summary list"
  sg_alerts :: "active_alert list"

record edge_view =
  ev_other :: string
  ev_kind :: string
  ev_count :: int
  ev_origin :: "string option"
  ev_port :: "int option"

record service_view =
  sv_id :: string
  sv_label :: string
  sv_status :: op_status
  sv_upstream :: "edge_view list"
  sv_downstream :: "edge_view list"
  sv_fleet :: "container_fleet_status list"
  sv_workloads :: "workload_snapshot list"
  sv_http :: "http_service_summary option"
  sv_alerts :: "active_alert list"

fun status_rank :: "op_status \<Rightarrow> int" where
  "status_rank Op_Critical = 0"
| "status_rank Op_Warning = 1"
| "status_rank Op_Unknown = 2"
| "status_rank Op_Healthy = 3"

definition same :: "string \<Rightarrow> string option \<Rightarrow> bool" where
  "same a b = (truthy_str b \<and> to_lower a = to_lower (the b))"

definition matchesNode :: "string \<Rightarrow> string \<Rightarrow> string option \<Rightarrow> bool" where
  "matchesNode nodeId container service = matchesService container service nodeId"

definition worse :: "op_status \<Rightarrow> op_status \<Rightarrow> op_status" where
  "worse a b = (if status_rank a \<le> status_rank b then a else b)"

definition fleetStatus :: "container_fleet_status \<Rightarrow> op_status" where
  "fleetStatus row =
     (let state = to_lower (f_state row) in
      if state = ''dead'' \<or> disposition row = Some ''oom'' \<or> disposition row = Some ''unexpected''
         \<or> coalesce (oom_killed row) False then Op_Critical
      else if isUnstable row then Op_Warning
      else if state = ''running'' then Op_Healthy
      else Op_Unknown)"

definition alertStatus :: "active_alert \<Rightarrow> op_status" where
  "alertStatus alert =
     (let severity = to_lower (a_severity alert) in
      if severity = ''critical'' then Op_Critical
      else if severity = ''warning'' then Op_Warning
      else Op_Unknown)"

definition service_status ::
  "container_fleet_status list \<Rightarrow> active_alert list \<Rightarrow> http_service_summary option \<Rightarrow> op_status" where
  "service_status fleet alerts http =
     (let status = Op_Unknown;
          status = foldl (\<lambda>s row. worse s (fleetStatus row)) status fleet;
          status = foldl (\<lambda>s row. worse s (alertStatus row)) status alerts;
          status = (case http of Some h \<Rightarrow> if hs_errors h > 0 then worse status Op_Warning else status
                    | None \<Rightarrow> status)
      in case http of
           Some h \<Rightarrow> if status = Op_Unknown \<and> hs_requests h > 0 \<and> hs_errors h = 0 then Op_Healthy else status
         | None \<Rightarrow> status)"

definition by_count :: "edge_view list \<Rightarrow> edge_view list" where
  "by_count xs = js_sort (\<lambda>a b. num_of_int (ev_count b - ev_count a)) xs"

definition upstream_of :: "topology_edge list \<Rightarrow> string \<Rightarrow> edge_view list" where
  "upstream_of edges ident = by_count
     (map (\<lambda>e. \<lparr>ev_other = te_source e, ev_kind = te_kind e, ev_count = te_count e,
                ev_origin = te_origin e, ev_port = te_port e\<rparr>)
        (filter (\<lambda>e. te_target e = ident) edges))"

definition downstream_of :: "topology_edge list \<Rightarrow> string \<Rightarrow> edge_view list" where
  "downstream_of edges ident = by_count
     (map (\<lambda>e. \<lparr>ev_other = te_target e, ev_kind = te_kind e, ev_count = te_count e,
                ev_origin = te_origin e, ev_port = te_port e\<rparr>)
        (filter (\<lambda>e. te_source e = ident) edges))"

definition service_ids :: "topology_graph \<Rightarrow> string list" where
  "service_ids graph =
     firsts (map tn_id (coalesce (tg_nodes graph) [])
       @ concat (map (\<lambda>e. [te_source e, te_target e]) (coalesce (tg_edges graph) [])))"

definition node_labels :: "topology_graph \<Rightarrow> (string \<times> string) list" where
  "node_labels graph =
     foldl (\<lambda>m node. map_set (tn_id node) (str_or (tn_label node) (tn_id node)) m) []
       (coalesce (tg_nodes graph) [])"

definition build_service :: "topology_graph \<Rightarrow> topology_signals \<Rightarrow> string \<Rightarrow> service_view" where
  "build_service graph signals ident =
     (let edges = coalesce (tg_edges graph) [];
          fleet = filter (\<lambda>row. matchesNode ident (f_container row) (f_service row)) (sg_fleet signals);
          workloads = filter (\<lambda>row. matchesNode ident (w_container row) (w_service row)) (sg_workloads signals);
          alerts = filter (\<lambda>row. matchesNode ident (a_container row) None) (sg_alerts signals);
          http = List.find (\<lambda>row. same ident (Some (hs_service row))) (sg_http signals)
      in \<lparr>sv_id = ident,
          sv_label = str_or (coalesce (map_get (node_labels graph) ident) []) ident,
          sv_status = service_status fleet alerts http,
          sv_upstream = upstream_of edges ident,
          sv_downstream = downstream_of edges ident,
          sv_fleet = fleet, sv_workloads = workloads, sv_http = http, sv_alerts = alerts\<rparr>)"

definition buildServices :: "topology_graph \<Rightarrow> topology_signals \<Rightarrow> service_view list" where
  "buildServices graph signals = map (build_service graph signals) (service_ids graph)"

definition degree :: "service_view \<Rightarrow> int" where
  "degree s = int (length (sv_upstream s)) + int (length (sv_downstream s))"

definition rank_cmp :: "(string \<Rightarrow> string \<Rightarrow> jsnum) \<Rightarrow> service_view \<Rightarrow> service_view \<Rightarrow> jsnum" where
  "rank_cmp compare a b =
     (let byStatus = status_rank (sv_status a) - status_rank (sv_status b) in
      if byStatus \<noteq> 0 then num_of_int byStatus
      else let deg = degree b - degree a in
        if deg \<noteq> 0 then num_of_int deg
        else compare (sv_label a) (sv_label b))"

definition rankServices :: "(string \<Rightarrow> string \<Rightarrow> jsnum) \<Rightarrow> service_view list \<Rightarrow> service_view list" where
  "rankServices compare services = js_sort (rank_cmp compare) services"

definition filterServices :: "service_view list \<Rightarrow> string \<Rightarrow> service_view list" where
  "filterServices services query =
     (let q = to_lower (trim query) in
      if q = [] then services
      else filter (\<lambda>s. str_includes (to_lower (sv_label s)) q \<or> str_includes (to_lower (sv_id s)) q) services)"

definition ipv4 :: "string \<Rightarrow> bool" where
  "ipv4 s = (let parts = split_on (CHR ''.'') s in
     length parts = 4 \<and> list_all (\<lambda>p. 1 \<le> length p \<and> length p \<le> 3 \<and> list_all is_digit p) parts)"

definition is_hex_lower :: "char \<Rightarrow> bool" where
  "is_hex_lower c = (is_digit c \<or> (let n = code_unit c in 97 \<le> n \<and> n \<le> 102))"

definition containerHash :: "string \<Rightarrow> bool" where
  "containerHash s = (length s = 12 \<and> list_all is_hex_lower s)"

definition isAddress :: "string \<Rightarrow> bool" where
  "isAddress s =
     (ipv4 s
      \<or> (CHR '':'' \<in> set s \<and> list_all (\<lambda>c. is_hex_lower (lower_char c) \<or> c = CHR '':'') s)
      \<or> containerHash s)"

fun split_addresses_from ::
  "service_view list \<times> service_view list \<Rightarrow> service_view list \<Rightarrow> service_view list \<times> service_view list" where
  "split_addresses_from acc [] = acc"
| "split_addresses_from (named, addresses) (s # ss) =
     (if isAddress (sv_id s) then split_addresses_from (named, addresses @ [s]) ss
      else split_addresses_from (named @ [s], addresses) ss)"

definition splitAddresses :: "service_view list \<Rightarrow> service_view list \<times> service_view list" where
  "splitAddresses services = split_addresses_from ([], []) services"

definition pickService :: "service_view list \<Rightarrow> string \<Rightarrow> service_view option" where
  "pickService services focus =
     (if services = [] then None
      else case List.find (\<lambda>s. sv_id s = focus) services of Some s \<Rightarrow> Some s | None \<Rightarrow> Some (hd services))"

definition busiestWorkload :: "workload_snapshot list \<Rightarrow> workload_snapshot option" where
  "busiestWorkload workloads =
     (if workloads = [] then None
      else Some (hd (js_sort (\<lambda>a b. cpu_usage b - cpu_usage a) workloads)))"

subsection \<open>Status\<close>

lemma status_rank_inject: "status_rank a = status_rank b \<Longrightarrow> a = b"
  by (cases a; cases b) simp_all

lemma fold_worse_start:
  "s = Op_Unknown \<or> s = Op_Warning \<or> s = Op_Critical \<Longrightarrow>
   foldl (\<lambda>s x. worse s (f x)) s xs =
     (if s = Op_Critical \<or> (\<exists>x\<in>set xs. f x = Op_Critical) then Op_Critical
      else if s = Op_Warning \<or> (\<exists>x\<in>set xs. f x = Op_Warning) then Op_Warning else Op_Unknown)"
proof (induction xs arbitrary: s)
  case Nil
  then show ?case by auto
next
  case (Cons x xs)
  have "worse s (f x) = Op_Unknown \<or> worse s (f x) = Op_Warning \<or> worse s (f x) = Op_Critical"
    using Cons.prems by (cases "f x") (auto simp: worse_def)
  from Cons.IH [OF this] Cons.prems show ?case
    by (cases "f x") (auto simp: worse_def)
qed

lemma service_status_cases:
  "service_status fleet alerts http =
     (if (\<exists>r\<in>set fleet. fleetStatus r = Op_Critical) \<or> (\<exists>a\<in>set alerts. alertStatus a = Op_Critical)
      then Op_Critical
      else if (\<exists>r\<in>set fleet. fleetStatus r = Op_Warning) \<or> (\<exists>a\<in>set alerts. alertStatus a = Op_Warning)
           \<or> (\<exists>h. http = Some h \<and> hs_errors h > 0) then Op_Warning
      else if \<exists>h. http = Some h \<and> hs_errors h = 0 \<and> hs_requests h > 0 then Op_Healthy
      else Op_Unknown)"
proof -
  let ?f = "foldl (\<lambda>s row. worse s (fleetStatus row)) Op_Unknown fleet"
  let ?g = "foldl (\<lambda>s row. worse s (alertStatus row)) ?f alerts"
  have f: "?f = (if \<exists>r\<in>set fleet. fleetStatus r = Op_Critical then Op_Critical
      else if \<exists>r\<in>set fleet. fleetStatus r = Op_Warning then Op_Warning else Op_Unknown)"
    by (subst fold_worse_start) simp_all
  then have g: "?g = (if ?f = Op_Critical \<or> (\<exists>a\<in>set alerts. alertStatus a = Op_Critical) then Op_Critical
      else if ?f = Op_Warning \<or> (\<exists>a\<in>set alerts. alertStatus a = Op_Warning) then Op_Warning else Op_Unknown)"
    by (intro fold_worse_start) auto
  show ?thesis
    unfolding service_status_def Let_def g unfolding f
    by (cases http) (auto simp: worse_def)
qed

lemma fleetStatus_cases:
  "fleetStatus r = Op_Critical \<longleftrightarrow>
     to_lower (f_state r) = ''dead'' \<or> disposition r = Some ''oom'' \<or> disposition r = Some ''unexpected'' \<or> oom_killed r = Some True"
  "fleetStatus r = Op_Warning \<longleftrightarrow> isUnstable r \<and> fleetStatus r \<noteq> Op_Critical"
  by (cases "oom_killed r"; auto simp: fleetStatus_def Let_def)+

subsection \<open>Edges\<close>

interpretation edge_count: int_key ev_count .

lemma by_count_mset [simp]: "mset (by_count xs) = mset xs"
  by (simp add: by_count_def)

lemma by_count_length [simp]: "length (by_count xs) = length xs"
  by (simp add: by_count_def)

lemma by_count_sorted: "sorted_wrt (\<lambda>a b. ev_count b \<le> ev_count a) (by_count xs)"
proof -
  have "sorted_wrt (\<lambda>a b. \<not> 0 < num_of_int (ev_count b - ev_count a)) (by_count xs)"
    unfolding by_count_def by (rule edge_count.desc.sorted_js_sort) simp
  moreover have "ev_count b \<le> ev_count a" if "\<not> 0 < num_of_int (ev_count b - ev_count a)" for a b
    using that num_of_int_pos [of "ev_count b - ev_count a"] by linarith
  ultimately show ?thesis by (rule sorted_wrt_mono_rel [rotated])
qed

lemma service_ids_set:
  "set (service_ids graph) = tn_id ` set (coalesce (tg_nodes graph) [])
     \<union> te_source ` set (coalesce (tg_edges graph) []) \<union> te_target ` set (coalesce (tg_edges graph) [])"
  by (auto simp: service_ids_def)

lemma service_ids_distinct: "distinct (service_ids graph)"
  by (simp add: service_ids_def)

lemma sv_id_build [simp]: "sv_id (build_service graph signals i) = i"
  by (simp add: build_service_def Let_def)

lemma ids_buildServices [simp]: "map sv_id (buildServices graph signals) = service_ids graph"
  by (simp add: buildServices_def comp_def)

lemma sum_upstream:
  "(\<Sum>s\<leftarrow>buildServices graph signals. length (sv_upstream s)) = length (coalesce (tg_edges graph) [])"
proof -
  have "(\<Sum>s\<leftarrow>buildServices graph signals. length (sv_upstream s))
      = (\<Sum>i\<leftarrow>service_ids graph. length (filter (\<lambda>e. te_target e = i) (coalesce (tg_edges graph) [])))"
    by (simp add: buildServices_def build_service_def upstream_of_def Let_def comp_def)
  also have "\<dots> = length (filter (\<lambda>e. te_target e \<in> set (service_ids graph)) (coalesce (tg_edges graph) []))"
    by (rule sum_length_filter_eq [OF service_ids_distinct])
  also have "\<dots> = length (coalesce (tg_edges graph) [])"
    by (subst filter_True) (auto simp: service_ids_set)
  finally show ?thesis .
qed

lemma sum_downstream:
  "(\<Sum>s\<leftarrow>buildServices graph signals. length (sv_downstream s)) = length (coalesce (tg_edges graph) [])"
proof -
  have "(\<Sum>s\<leftarrow>buildServices graph signals. length (sv_downstream s))
      = (\<Sum>i\<leftarrow>service_ids graph. length (filter (\<lambda>e. te_source e = i) (coalesce (tg_edges graph) [])))"
    by (simp add: buildServices_def build_service_def downstream_of_def Let_def comp_def)
  also have "\<dots> = length (filter (\<lambda>e. te_source e \<in> set (service_ids graph)) (coalesce (tg_edges graph) []))"
    by (rule sum_length_filter_eq [OF service_ids_distinct])
  also have "\<dots> = length (coalesce (tg_edges graph) [])"
    by (subst filter_True) (auto simp: service_ids_set)
  finally show ?thesis .
qed

lemma edge_ends:
  assumes "e \<in> set (coalesce (tg_edges graph) [])"
  shows "\<exists>u\<in>set (buildServices graph signals). \<exists>v\<in>set (buildServices graph signals).
    sv_id u = te_source e \<and> sv_id v = te_target e
    \<and> \<lparr>ev_other = te_target e, ev_kind = te_kind e, ev_count = te_count e, ev_origin = te_origin e, ev_port = te_port e\<rparr>
        \<in> set (sv_downstream u)
    \<and> \<lparr>ev_other = te_source e, ev_kind = te_kind e, ev_count = te_count e, ev_origin = te_origin e, ev_port = te_port e\<rparr>
        \<in> set (sv_upstream v)"
proof -
  have i: "te_source e \<in> set (service_ids graph)" "te_target e \<in> set (service_ids graph)"
    using assms by (auto simp: service_ids_set)
  show ?thesis
    by (rule bexI [of _ "build_service graph signals (te_source e)"],
        rule bexI [of _ "build_service graph signals (te_target e)"])
      (use assms i in \<open>auto simp: buildServices_def build_service_def downstream_of_def upstream_of_def by_count_def Let_def\<close>)
qed

subsection \<open>Ranking\<close>

text \<open>What the ranking relies on: \<open>localeCompare\<close> is a total preorder, as collation is.\<close>

definition collation :: "(string \<Rightarrow> string \<Rightarrow> jsnum) \<Rightarrow> bool" where
  "collation compare \<longleftrightarrow>
     (\<forall>x y. 0 < compare x y \<longrightarrow> \<not> 0 < compare y x)
     \<and> (\<forall>x y z. \<not> 0 < compare x y \<longrightarrow> \<not> 0 < compare y z \<longrightarrow> \<not> 0 < compare x z)"

definition ranked_before :: "(string \<Rightarrow> string \<Rightarrow> jsnum) \<Rightarrow> service_view \<Rightarrow> service_view \<Rightarrow> bool" where
  "ranked_before compare a b \<longleftrightarrow>
     status_rank (sv_status a) < status_rank (sv_status b)
     \<or> (sv_status a = sv_status b \<and> (degree a > degree b
        \<or> (degree a = degree b \<and> \<not> 0 < compare (sv_label a) (sv_label b))))"

lemma rank_cmp_iff: "\<not> 0 < rank_cmp compare a b \<longleftrightarrow> ranked_before compare a b"
  using status_rank_inject [of "sv_status a" "sv_status b"]
  by (auto simp: rank_cmp_def ranked_before_def Let_def)

lemma ranked_before_trans:
  assumes c: "collation compare" and xy: "ranked_before compare x y" and yz: "ranked_before compare y z"
  shows "ranked_before compare x z"
proof (cases "status_rank (sv_status x) < status_rank (sv_status y) \<or> status_rank (sv_status y) < status_rank (sv_status z)")
  case True
  with xy yz show ?thesis by (auto simp: ranked_before_def)
next
  case False
  with xy yz have st: "sv_status x = sv_status y" "sv_status y = sv_status z"
    and d: "degree x > degree y \<or> (degree x = degree y \<and> \<not> 0 < compare (sv_label x) (sv_label y))"
      "degree y > degree z \<or> (degree y = degree z \<and> \<not> 0 < compare (sv_label y) (sv_label z))"
    by (auto simp: ranked_before_def)
  from c d have "degree x > degree z \<or> (degree x = degree z \<and> \<not> 0 < compare (sv_label x) (sv_label z))"
    unfolding collation_def by (metis less_trans)
  with st show ?thesis by (simp add: ranked_before_def)
qed

lemma ranked_before_total:
  assumes "collation compare"
  shows "ranked_before compare x y \<or> ranked_before compare y x"
proof -
  have "\<not> 0 < compare (sv_label x) (sv_label y) \<or> \<not> 0 < compare (sv_label y) (sv_label x)"
    using assms unfolding collation_def by blast
  moreover have "status_rank (sv_status x) < status_rank (sv_status y)
      \<or> status_rank (sv_status y) < status_rank (sv_status x) \<or> sv_status x = sv_status y"
    using status_rank_inject linorder_less_linear by blast
  moreover have "degree x < degree y \<or> degree y < degree x \<or> degree x = degree y"
    by linarith
  ultimately show ?thesis unfolding ranked_before_def by metis
qed

text \<open>With a collation the ranking's comparator meets the contract of sorting.\<close>

lemma rank_comparator: "collation compare \<Longrightarrow> js_comparator (rank_cmp compare) (\<lambda>_. True)"
proof unfold_locales
  assume c: "collation compare"
  fix x y z
  show "0 < rank_cmp compare x y \<Longrightarrow> \<not> 0 < rank_cmp compare y x"
    using ranked_before_total [OF c, of x y] rank_cmp_iff by blast
  show "\<not> 0 < rank_cmp compare x y \<Longrightarrow> \<not> 0 < rank_cmp compare y z \<Longrightarrow> \<not> 0 < rank_cmp compare x z"
    unfolding rank_cmp_iff by (rule ranked_before_trans [OF c])
qed

lemma rankServices_sorted:
  "collation compare \<Longrightarrow> sorted_wrt (ranked_before compare) (rankServices compare services)"
proof -
  assume c: "collation compare"
  have "sorted_wrt (\<lambda>x y. \<not> 0 < rank_cmp compare x y) (js_sort (rank_cmp compare) services)"
    by (rule js_comparator.sorted_js_sort [OF rank_comparator [OF c]]) simp
  then show ?thesis unfolding rankServices_def by (simp only: rank_cmp_iff)
qed

lemma rankServices_mset [simp]: "mset (rankServices compare services) = mset services"
  by (simp add: rankServices_def)

subsection \<open>Picking\<close>

lemma split_addresses_from_eq:
  "split_addresses_from (n, a) ss =
     (n @ filter (\<lambda>s. \<not> isAddress (sv_id s)) ss, a @ filter (\<lambda>s. isAddress (sv_id s)) ss)"
  by (induction ss arbitrary: n a) auto

lemma splitAddresses_eq:
  "splitAddresses ss = (filter (\<lambda>s. \<not> isAddress (sv_id s)) ss, filter (\<lambda>s. isAddress (sv_id s)) ss)"
  by (simp add: splitAddresses_def split_addresses_from_eq)

lemma pickService_in: "pickService ss focus = Some s \<Longrightarrow> s \<in> set ss"
  by (auto simp: pickService_def dest: find_Some_in split: option.splits if_splits)

lemma pickService_focus:
  "pickService ss focus = Some s \<Longrightarrow> focus \<in> sv_id ` set ss \<Longrightarrow> sv_id s = focus"
  by (auto simp: pickService_def find_None_iff dest: find_Some_in split: option.splits if_splits)

lemma filterServices_subset: "set (filterServices ss q) \<subseteq> set ss"
  by (auto simp: filterServices_def Let_def)

lemma sv_status_build:
  "sv_status (build_service graph sg i)
     = service_status (sv_fleet (build_service graph sg i)) (sv_alerts (build_service graph sg i))
         (sv_http (build_service graph sg i))"
  by (simp add: build_service_def Let_def)

subsection \<open>Properties\<close>

text \<open>C6. The status of a service is exactly what its signals say: critical when a container or an
  alert is critical; else a warning when a container or an alert warns or requests fail; else
  healthy when requests were served without errors; else unknown. In particular running
  containers alone do not make a service healthy.\<close>

theorem service_status_functional:
  fixes graph :: topology_graph and sg :: topology_signals
  shows "sv_status (build_service graph sg i) =
    (let v = build_service graph sg i in
      if (\<exists>r\<in>set (sv_fleet v). fleetStatus r = Op_Critical) \<or> (\<exists>a\<in>set (sv_alerts v). alertStatus a = Op_Critical)
      then Op_Critical
      else if (\<exists>r\<in>set (sv_fleet v). fleetStatus r = Op_Warning) \<or> (\<exists>a\<in>set (sv_alerts v). alertStatus a = Op_Warning)
           \<or> (\<exists>h. sv_http v = Some h \<and> hs_errors h > 0) then Op_Warning
      else if \<exists>h. sv_http v = Some h \<and> hs_errors h = 0 \<and> hs_requests h > 0 then Op_Healthy
      else Op_Unknown)"
  unfolding Let_def sv_status_build by (rule service_status_cases)

lemma shown_ids: "sv_id ` set (buildServices graph sg) = tn_id ` set (coalesce (tg_nodes graph) [])
     \<union> te_source ` set (coalesce (tg_edges graph) []) \<union> te_target ` set (coalesce (tg_edges graph) [])"
  by (simp only: ids_buildServices service_ids_set flip: set_map)

lemma shown_edges: "list_all (\<lambda>s.
       mset (sv_upstream s) = mset (map (\<lambda>e. \<lparr>ev_other = te_source e, ev_kind = te_kind e, ev_count = te_count e,
           ev_origin = te_origin e, ev_port = te_port e\<rparr>) (filter (\<lambda>e. te_target e = sv_id s) (coalesce (tg_edges graph) [])))
       \<and> mset (sv_downstream s) = mset (map (\<lambda>e. \<lparr>ev_other = te_target e, ev_kind = te_kind e, ev_count = te_count e,
           ev_origin = te_origin e, ev_port = te_port e\<rparr>) (filter (\<lambda>e. te_source e = sv_id s) (coalesce (tg_edges graph) []))))
       (buildServices graph sg)"
  unfolding buildServices_def build_service_def Let_def upstream_of_def downstream_of_def by_count_def
  by (auto simp: list_all_iff)

text \<open>C24. The topology keeps its services and edges: exactly the services the graph names, as a node or as an end of an
  edge, are shown, each once; the edges into a service and out of it are exactly those of the graph with it as target or
  source, so that every edge is seen from both of its ends, and counting the edges into (or out of) the services gives the
  number of edges; each list has the busiest edge first.\<close>

theorem topology_keeps_edges:
  "sv_id ` set (buildServices graph sg) = tn_id ` set (coalesce (tg_nodes graph) [])
     \<union> te_source ` set (coalesce (tg_edges graph) []) \<union> te_target ` set (coalesce (tg_edges graph) [])
   \<and> distinct (map sv_id (buildServices graph sg))
   \<and> list_all (\<lambda>s.
       mset (sv_upstream s) = mset (map (\<lambda>e. \<lparr>ev_other = te_source e, ev_kind = te_kind e, ev_count = te_count e,
           ev_origin = te_origin e, ev_port = te_port e\<rparr>) (filter (\<lambda>e. te_target e = sv_id s) (coalesce (tg_edges graph) [])))
       \<and> mset (sv_downstream s) = mset (map (\<lambda>e. \<lparr>ev_other = te_target e, ev_kind = te_kind e, ev_count = te_count e,
           ev_origin = te_origin e, ev_port = te_port e\<rparr>) (filter (\<lambda>e. te_source e = sv_id s) (coalesce (tg_edges graph) []))))
       (buildServices graph sg)
   \<and> (\<Sum>s\<leftarrow>buildServices graph sg. length (sv_upstream s)) = length (coalesce (tg_edges graph) [])
   \<and> (\<Sum>s\<leftarrow>buildServices graph sg. length (sv_downstream s)) = length (coalesce (tg_edges graph) [])
   \<and> list_all (\<lambda>e. \<exists>u v. u \<in> set (buildServices graph sg) \<and> v \<in> set (buildServices graph sg)
        \<and> sv_id u = te_source e \<and> sv_id v = te_target e
        \<and> \<lparr>ev_other = te_target e, ev_kind = te_kind e, ev_count = te_count e, ev_origin = te_origin e, ev_port = te_port e\<rparr>
            \<in> set (sv_downstream u)
        \<and> \<lparr>ev_other = te_source e, ev_kind = te_kind e, ev_count = te_count e, ev_origin = te_origin e, ev_port = te_port e\<rparr>
            \<in> set (sv_upstream v)) (coalesce (tg_edges graph) [])
   \<and> list_all (\<lambda>s. sorted_wrt (\<lambda>a b. ev_count b \<le> ev_count a) (sv_upstream s)
        \<and> sorted_wrt (\<lambda>a b. ev_count b \<le> ev_count a) (sv_downstream s)) (buildServices graph sg)"
proof (intro conjI)
  show "list_all (\<lambda>e. \<exists>u v. u \<in> set (buildServices graph sg) \<and> v \<in> set (buildServices graph sg)
        \<and> sv_id u = te_source e \<and> sv_id v = te_target e
        \<and> \<lparr>ev_other = te_target e, ev_kind = te_kind e, ev_count = te_count e, ev_origin = te_origin e, ev_port = te_port e\<rparr>
            \<in> set (sv_downstream u)
        \<and> \<lparr>ev_other = te_source e, ev_kind = te_kind e, ev_count = te_count e, ev_origin = te_origin e, ev_port = te_port e\<rparr>
            \<in> set (sv_upstream v)) (coalesce (tg_edges graph) [])"
    unfolding list_all_iff using edge_ends [of _ graph sg] by blast
  show "list_all (\<lambda>s. sorted_wrt (\<lambda>a b. ev_count b \<le> ev_count a) (sv_upstream s)
        \<and> sorted_wrt (\<lambda>a b. ev_count b \<le> ev_count a) (sv_downstream s)) (buildServices graph sg)"
    by (auto simp: list_all_iff buildServices_def build_service_def upstream_of_def downstream_of_def Let_def by_count_sorted)
qed (rule shown_ids shown_edges | simp add: service_ids_distinct sum_upstream sum_downstream)+

text \<open>C11. The ranked list has the same services, the worst status first, within a status the most
  connected first, and within that the order of the language; so the service opened when none is
  named is one of the worst.\<close>

theorem ranking_worst_first:
  assumes "collation compare"
  shows "mset (rankServices compare ss) = mset ss
       \<and> sorted_wrt (ranked_before compare) (rankServices compare ss)
       \<and> (ss = [] \<or> (\<exists>s. pickService (rankServices compare ss) focus = Some s \<and> s \<in> set ss
            \<and> (focus \<in> sv_id ` set ss \<or> (\<forall>s'\<in>set ss. status_rank (sv_status s) \<le> status_rank (sv_status s')))))"
proof -
  note sorted = rankServices_sorted [OF assms, of ss]
  have set: "set (rankServices compare ss) = set ss" by (metis rankServices_mset set_mset_mset)
  have "\<exists>s. pickService (rankServices compare ss) focus = Some s \<and> s \<in> set ss
      \<and> (focus \<in> sv_id ` set ss \<or> (\<forall>s'\<in>set ss. status_rank (sv_status s) \<le> status_rank (sv_status s')))"
    if ne: "ss \<noteq> []"
  proof -
    obtain x xs where x: "rankServices compare ss = x # xs"
      using ne set by (cases "rankServices compare ss") auto
    have "\<forall>y\<in>set xs. status_rank (sv_status x) \<le> status_rank (sv_status y)"
      using sorted unfolding x by (auto simp: ranked_before_def)
    then have "\<forall>s'\<in>set ss. status_rank (sv_status x) \<le> status_rank (sv_status s')"
      unfolding set [symmetric] x by simp
    moreover have "pickService (x # xs) focus \<noteq> None"
      by (simp add: pickService_def split: option.split)
    moreover have "pickService (x # xs) focus = Some x" if "focus \<notin> sv_id ` set ss"
      using that set find_None_iff [of "\<lambda>s. sv_id s = focus" "x # xs"] unfolding x [symmetric]
      by (auto simp: pickService_def x split: option.split)
    ultimately show ?thesis using pickService_in set x by (metis list.set_intros(1) not_None_eq)
  qed
  with sorted show ?thesis by auto
qed

definition sample_service :: "string \<Rightarrow> op_status \<Rightarrow> service_view" where
  "sample_service n st = \<lparr>sv_id = n, sv_label = n, sv_status = st, sv_upstream = [], sv_downstream = [],
     sv_fleet = [], sv_workloads = [], sv_http = None, sv_alerts = []\<rparr>"

lemma ranking_worst_first_witness:
  "mset (rankServices (\<lambda>_ _. 0) [sample_service ''a'' Op_Unknown, sample_service ''b'' Op_Critical])
     = mset [sample_service ''a'' Op_Unknown, sample_service ''b'' Op_Critical]"
  using ranking_worst_first [of "\<lambda>_ _. 0" "[sample_service ''a'' Op_Unknown, sample_service ''b'' Op_Critical]"]
  by (simp add: collation_def)

end
