(* ===== verification/Topology_Page.thy ===== *)
theory Topology_Page
  imports Topology Widgets Run_Guard
begin

text \<open>
  \<open>pages/topology.tsx\<close>: the state of the page and its guarded loads, what it derives from them
  and the address, and what it renders. One load asks for five things; only the graph moves the
  loading and error flags, the other four fall back to nothing when they fail.
\<close>

record topology_page =
  tp_graph :: topology_graph
  tp_fleet :: "container_fleet_status list"
  tp_workloads :: "workload_snapshot list"
  tp_http :: "http_service_summary list"
  tp_alerts :: "active_alert list"
  tp_loading :: bool
  tp_error :: bool
  tp_generation :: nat

definition emptyGraph :: topology_graph where
  "emptyGraph = \<lparr>tg_nodes = Some [], tg_edges = Some []\<rparr>"

definition topology_init :: topology_page where
  "topology_init = \<lparr>tp_graph = emptyGraph, tp_fleet = [], tp_workloads = [], tp_http = [], tp_alerts = [],
     tp_loading = True, tp_error = False, tp_generation = 0\<rparr>"

datatype topology_answer =
    Graph_Answer "api_error + topology_graph"
  | Fleet_Answer "api_error + fleet_status_response"
  | Workloads_Answer "api_error + workload_snapshot list"
  | Http_Answer "api_error + http_service_summary list"
  | Alerts_Answer "api_error + active_alert list"

text \<open>The part of \<open>load\<close> before anything answers; the window is what the requests ask for.\<close>

definition topology_load :: "string \<Rightarrow> topology_page \<Rightarrow> topology_page" where
  "topology_load since st = st\<lparr>tp_generation := tp_generation st + 1, tp_loading := True, tp_error := False\<rparr>"

definition value_or :: "api_error + 'a \<Rightarrow> 'a \<Rightarrow> 'a" where
  "value_or r d = (case r of Inr x \<Rightarrow> x | Inl _ \<Rightarrow> d)"

text \<open>What one answer does to the run it belongs to: then or catch, and finally.\<close>

fun topology_apply :: "topology_answer \<Rightarrow> topology_page \<Rightarrow> topology_page" where
  "topology_apply (Graph_Answer r) st =
     (case r of Inr g \<Rightarrow> st\<lparr>tp_graph := g\<rparr> | Inl _ \<Rightarrow> st\<lparr>tp_error := True\<rparr>)\<lparr>tp_loading := False\<rparr>"
| "topology_apply (Fleet_Answer r) st =
     st\<lparr>tp_fleet := (case r of Inr v \<Rightarrow> coalesce (fr_containers v) [] | Inl _ \<Rightarrow> [])\<rparr>"
| "topology_apply (Workloads_Answer r) st = st\<lparr>tp_workloads := value_or r []\<rparr>"
| "topology_apply (Http_Answer r) st = st\<lparr>tp_http := value_or r []\<rparr>"
| "topology_apply (Alerts_Answer r) st = st\<lparr>tp_alerts := value_or r []\<rparr>"

definition topology_settle :: "nat \<Rightarrow> topology_answer \<Rightarrow> topology_page \<Rightarrow> topology_page" where
  "topology_settle run a st = (if run = tp_generation st then topology_apply a st else st)"

subsection \<open>What the page derives\<close>

definition topology_ranked :: "env \<Rightarrow> topology_page \<Rightarrow> service_view list" where
  "topology_ranked e st = rankServices (locale_compare e)
     (buildServices (tp_graph st)
       \<lparr>sg_fleet = tp_fleet st, sg_workloads = tp_workloads st, sg_http = tp_http st, sg_alerts = tp_alerts st\<rparr>)"

definition focus_missing :: "service_view list \<Rightarrow> string \<Rightarrow> bool" where
  "focus_missing ranked focus \<longleftrightarrow>
     focus \<noteq> [] \<and> length ranked > 0 \<and> \<not> list_ex (\<lambda>s. sv_id s = focus) ranked"

definition topology_selected :: "service_view list \<Rightarrow> string \<Rightarrow> service_view option" where
  "topology_selected ranked focus =
     (let named = fst (splitAddresses ranked);
          missing = focus_missing ranked focus
      in case pickService (if missing then named else ranked) (if missing then [] else focus) of
           Some s \<Rightarrow> Some s
         | None \<Rightarrow> pickService ranked [])"

definition status_count :: "op_status \<Rightarrow> service_view list \<Rightarrow> int" where
  "status_count s named = int (length (filter (\<lambda>v. sv_status v = s) named))"

subsection \<open>What the page renders\<close>

datatype topology_action = Retry | Set_Since picker_action | Set_Query | Toggle_Addresses | Set_Focus string

fun status_name :: "op_status \<Rightarrow> string" where
  "status_name Op_Critical = ''critical''"
| "status_name Op_Warning = ''warning''"
| "status_name Op_Healthy = ''healthy''"
| "status_name Op_Unknown = ''unknown''"

definition status_badge :: "translate \<Rightarrow> op_status \<Rightarrow> 'h ui" where
  "status_badge t s =
     badge (case s of Op_Critical \<Rightarrow> ''destructive'' | Op_Warning \<Rightarrow> ''secondary'' | _ \<Rightarrow> ''outline'')
       (t (''topology.status.'' @ status_name s) [])"

definition edge_group :: "translate \<Rightarrow> edge_view list \<Rightarrow> string \<Rightarrow> string \<Rightarrow> topology_action ui" where
  "edge_group t edges hint label =
     (if edges = [] then el ''p'' [Text hint]
      else El ''ul'' [(''aria-label'', AStr label)]
        (map (\<lambda>edge. el ''li''
           [El ''button'' [(''onClick'', AHandler (Set_Focus (ev_other edge)))]
             [el ''span'' [Text (ev_other edge)],
              el ''span'' [Text (t ''topology.edgeMeta''
                [(''kind'', TStr (t (''topology.kinds.'' @ ev_kind edge) [(''defaultValue'', TStr (ev_kind edge))])),
                 (''calls'', TStr (t ''topology.calls'' [(''count'', TInt (ev_count edge))]))])],
              el ''span'' [Text (if truthy_str (ev_origin edge) then the (ev_origin edge)
                                else t ''topology.originUnknown'' [])]]]) edges))"

definition arrow :: string where
  "arrow = [CHR 0xE2, CHR 0x86, CHR 0x92]"

definition path_section :: "translate \<Rightarrow> service_view \<Rightarrow> topology_action ui" where
  "path_section t s =
     El ''section'' [(''aria-label'', AStr (t ''topology.path'' []))]
       [el ''h2'' [Text (t ''topology.path'' [])],
        el ''div''
         [edge_group t (sv_upstream s) (t ''topology.noUpstream'' []) (t ''topology.upstream'' []),
          El ''span'' [(''aria-hidden'', ABool True)] [Text arrow],
          El ''span'' [(''border'', AStr (case sv_status s of Op_Critical \<Rightarrow> ''border-destructive''
                | Op_Warning \<Rightarrow> ''border-foreground'' | _ \<Rightarrow> ''border-border''))]
            [el ''span'' [Text (sv_label s)], status_badge t (sv_status s)],
          El ''span'' [(''aria-hidden'', ABool True)] [Text arrow],
          edge_group t (sv_downstream s) (t ''topology.noDownstream'' []) (t ''topology.downstream'' [])]]"

definition row_of :: "string \<Rightarrow> 'h ui list \<Rightarrow> 'h ui" where
  "row_of dt dd = el ''div'' [el ''dt'' [Text dt], el ''dd'' dd]"

definition workload_memory_pct :: "workload_snapshot \<Rightarrow> jsnum option" where
  "workload_memory_pct w =
     (if memory_limit w > 0 then Some (memory_usage w / memory_limit w * Fin 100) else None)"

definition service_detail :: "env \<Rightarrow> service_view \<Rightarrow> string \<Rightarrow> topology_action ui" where
  "service_detail e s since =
     (let t = tr e; workload = busiestWorkload (sv_workloads s) in
      El ''aside'' [(''aria-label'', AStr (t ''topology.detail'' []))]
        [el ''div'' [el ''h2'' [Text (sv_label s)], status_badge t (sv_status s)],
         el ''div''
          ((case workload of
              Some w \<Rightarrow>
                [el ''dl''
                  ([row_of (t ''topology.cpu'' []) [Text (formatPercent e (cpu_usage w) 1)]]
                   @ (case workload_memory_pct w of
                        Some pct \<Rightarrow>
                          [row_of (t ''topology.memory'' [])
                            [Text (formatPercent e pct 1),
                             el ''span'' [Text ('' ('' @ formatBytes e (memory_usage w) @ '')'')]]]
                      | None \<Rightarrow> []))]
                @ opt (length (sv_workloads s) > 1)
                    (el ''p'' [Text (t ''topology.cpuOf''
                       [(''name'', TStr (w_container w)), (''count'', TInt (int (length (sv_workloads s))))])])
            | None \<Rightarrow> [el ''p'' [Text (t ''topology.noWorkload'' [])]])
           @ (case sv_http s of
                Some h \<Rightarrow>
                  [el ''dl''
                    [row_of (t ''topology.errorRate'' []) [Text (formatPercent e (error_rate h * Fin 100) 1)],
                     row_of (t ''topology.latency'' [])
                       [Text (t ''topology.latencyMs'' [(''ms'', TNum (math_round (avg_latency_ms h)))])]]]
              | None \<Rightarrow> [el ''p'' [Text (t ''topology.noHttp'' [])]])
           @ opt (sv_fleet s = []) (el ''p'' [Text (t ''topology.noFleet'' [])])),
         el ''div''
          [link (''/logs?container='' @ encodeURIComponent (sv_id s) @ ''&since='' @ since)
             [Text (t ''topology.errorsIn'' [(''name'', TStr (sv_label s))])],
           link (''/traces?service='' @ encodeURIComponent (sv_id s) @ ''&since='' @ since)
             [Text (t ''topology.tracesOf'' [(''name'', TStr (sv_label s))])],
           link (''/metrics?container='' @ encodeURIComponent (sv_id s) @ ''&since='' @ since)
             [Text (t ''topology.metricsOf'' [(''name'', TStr (sv_label s))])]]])"

definition error_notice :: "translate \<Rightarrow> string \<Rightarrow> topology_action ui" where
  "error_notice t key = El ''div'' [(''role'', AStr ''alert'')]
     [el ''p'' [Text (t key [])], button False Retry (t ''common.retry'' [])]"

definition service_list :: "translate \<Rightarrow> service_view list \<Rightarrow> service_view option \<Rightarrow> topology_action ui" where
  "service_list t visible selected =
     (if visible = [] then el ''p'' [Text (t ''topology.noMatch'' [])]
      else el ''ul'' (map (\<lambda>s. el ''li''
        [El ''button''
          [(''aria-pressed'', ABool (map_option sv_id selected = Some (sv_id s))),
           (''onClick'', AHandler (Set_Focus (sv_id s)))]
          [el ''span'' [Text (sv_label s)], status_badge t (sv_status s)]]) visible))"

definition topology_view :: "env \<Rightarrow> params \<Rightarrow> picker \<Rightarrow> topology_page \<Rightarrow> topology_action ui" where
  "topology_view e ps pk st =
     (let t = tr e;
          since = query_value ''since'' ''24h'' ps;
          focus = query_value ''focus'' [] ps;
          query = query_value ''q'' [] ps;
          showAddresses = query_value ''addresses'' [] ps;
          ranked = topology_ranked e st;
          named = fst (splitAddresses ranked);
          addresses = snd (splitAddresses ranked);
          listed = (if showAddresses \<noteq> [] then ranked else named);
          visible = filterServices listed query;
          selected = topology_selected ranked focus
      in el ''div''
        [page_header (t ''topology.title'' []) (Some (t ''topology.description'' []))
           [map_ui Set_Since (time_range_picker e since pk)],
         if tp_loading st \<and> ranked = [] then
           El ''Skeleton'' [(''aria-label'', AStr (t ''common.loading'' []))] []
         else if tp_error st \<and> ranked = [] then error_notice t ''topology.loadError''
         else if ranked = [] then el ''p'' [Text (t ''topology.empty'' [])]
         else El ''div'' [(''aria-busy'', ABool (tp_loading st))]
           (opt (tp_error st) (error_notice t ''topology.staleError'')
            @ [el ''p'' [Text (t ''topology.summary''
                 [(''critical'', TInt (status_count Op_Critical named)),
                  (''warning'', TInt (status_count Op_Warning named)), (''count'', TInt (int (length named)))])]]
            @ opt (focus_missing ranked focus)
                (El ''p'' [(''role'', AStr ''status'')] [Text (t ''topology.focusMissing'' [(''name'', TStr focus)])])
            @ [el ''div''
                ([el ''div''
                   ([el ''div''
                      [el ''label'' [Text (t ''topology.search'' [])],
                       El ''Input'' [(''type'', AStr ''search''), (''name'', AStr ''service''),
                          (''placeholder'', AStr (t ''topology.searchPlaceholder'' [])),
                          (''value'', AStr query), (''onChange'', AHandler Set_Query)] [],
                       el ''div''
                        ([el ''span'' [Text (t ''topology.shown'' [(''shown'', TInt (int (length visible))),
                                                                (''total'', TInt (int (length listed)))])]]
                         @ opt (addresses \<noteq> [])
                            (button False Toggle_Addresses
                              (if showAddresses \<noteq> [] then t ''topology.hideAddresses'' []
                               else t ''topology.showAddresses'' [(''count'', TInt (int (length addresses)))])))],
                     service_list t visible selected]
                    @ (case selected of Some s \<Rightarrow> [path_section t s] | None \<Rightarrow> []))]
                 @ (case selected of Some s \<Rightarrow> [service_detail e s since] | None \<Rightarrow> []))])])"

text \<open>What the handlers do to the address; a retry starts a load with the window in it.\<close>

fun topology_query :: "env \<Rightarrow> jsnum \<Rightarrow> picker \<Rightarrow> topology_action \<Rightarrow> string \<Rightarrow> params \<Rightarrow> params" where
  "topology_query e now pk (Set_Focus i) typed ps = query_set ''focus'' [] i ps"
| "topology_query e now pk Set_Query typed ps = query_set ''q'' [] typed ps"
| "topology_query e now pk Toggle_Addresses typed ps =
     query_set ''addresses'' [] (if query_value ''addresses'' [] ps \<noteq> [] then [] else ''1'') ps"
| "topology_query e now pk (Set_Since a) typed ps =
     (case snd (picker_step e now typed a pk) of Some v \<Rightarrow> query_set ''since'' ''24h'' v ps | None \<Rightarrow> ps)"
| "topology_query e now pk Retry typed ps = ps"

subsection \<open>The guarded loads\<close>

lemma generation_apply [simp]: "tp_generation (topology_apply a st) = tp_generation st"
  by (cases a) (auto split: sum.split)

text \<open>The graph is the main answer.\<close>

definition graph_answer :: "string \<Rightarrow> topology_answer \<Rightarrow> bool" where
  "graph_answer since a = (case a of Graph_Answer _ \<Rightarrow> True | _ \<Rightarrow> False)"

definition graph_okay :: "topology_answer \<Rightarrow> bool" where
  "graph_okay a = (case a of Graph_Answer (Inr _) \<Rightarrow> True | _ \<Rightarrow> False)"

definition answered_graph :: "topology_answer \<Rightarrow> topology_graph option" where
  "answered_graph a = (case a of Graph_Answer (Inr g) \<Rightarrow> Some g | _ \<Rightarrow> None)"

interpretation topo: guarded_page tp_generation topology_load topology_settle tp_loading tp_error
  "\<lambda>st. Some (tp_graph st)" graph_answer graph_okay answered_graph
proof unfold_locales
  fix q s a r
  show "tp_generation (topology_load q s) = Suc (tp_generation s)" by (simp add: topology_load_def)
  show "tp_generation (topology_settle r a s) = tp_generation s" by (simp add: topology_settle_def)
  show "r \<noteq> tp_generation s \<Longrightarrow> topology_settle r a s = s" by (simp add: topology_settle_def)
  show "tp_loading (topology_load q s)" by (simp add: topology_load_def)
  show "graph_answer q a \<Longrightarrow> \<not> tp_loading (topology_settle (tp_generation s) a s)"
    by (cases a) (auto simp: topology_settle_def graph_answer_def split: sum.split)
  show "graph_answer q a \<Longrightarrow> \<not> graph_okay a \<Longrightarrow> tp_error (topology_settle (tp_generation s) a s)"
    by (cases a) (auto simp: topology_settle_def graph_answer_def graph_okay_def split: sum.splits)
  show "\<forall>q. \<not> graph_answer q a \<Longrightarrow> tp_loading (topology_settle r a s) = tp_loading s
      \<and> tp_error (topology_settle r a s) = tp_error s \<and> Some (tp_graph (topology_settle r a s)) = Some (tp_graph s)"
    by (cases a) (simp_all add: topology_settle_def graph_answer_def)
  show "graph_answer q a \<Longrightarrow> graph_okay a \<Longrightarrow> Some (tp_graph (topology_settle (tp_generation s) a s)) = answered_graph a"
    by (cases a) (auto simp: topology_settle_def graph_answer_def graph_okay_def answered_graph_def split: sum.splits)
qed

lemma pickService_None: "pickService ss focus = None \<longleftrightarrow> ss = []"
  by (auto simp: pickService_def split: option.split)

lemma focus_missing_iff: "focus_missing ranked focus \<longleftrightarrow> focus \<noteq> [] \<and> ranked \<noteq> [] \<and> focus \<notin> sv_id ` set ranked"
  by (auto simp: focus_missing_def list_ex_iff)

lemma pickService_Nil [simp]: "pickService [] focus = None"
  by (simp add: pickService_def)

lemma find_in_list: "x \<in> set xs \<Longrightarrow> P x \<Longrightarrow> \<exists>y. List.find P xs = Some y"
  by (induction xs) auto

lemma selected_None: "topology_selected ranked focus = None \<longleftrightarrow> ranked = []"
  by (auto simp: topology_selected_def Let_def pickService_None splitAddresses_eq split: option.split)

lemma selected_in:
  assumes "topology_selected ranked focus = Some s"
  shows "s \<in> set ranked"
  using assms pickService_in
  by (fastforce simp: topology_selected_def Let_def splitAddresses_eq split: option.splits if_splits)

lemma selected_focus:
  assumes "topology_selected ranked focus = Some s" "focus \<in> sv_id ` set ranked"
  shows "sv_id s = focus"
proof -
  have "\<not> focus_missing ranked focus" using assms(2) by (simp add: focus_missing_iff)
  moreover have "ranked \<noteq> []" using assms(2) by auto
  ultimately have "pickService ranked focus = Some s"
    using assms(1) pickService_None [of ranked focus]
    by (auto simp: topology_selected_def Let_def split: option.splits)
  then show ?thesis using pickService_focus assms(2) by blast
qed

subsection \<open>Properties\<close>

text \<open>C1. Whatever the order in which answers arrive and however often the window changes or the user
  retries, when the page neither loads nor reports an error the graph on it is the one answered to
  the request for the window in the address.\<close>

theorem topology_shows_current_window:
  assumes "guarded_reachable tp_generation topology_load topology_settle graph_answer graph_okay topology_init w"
    and "\<not> tp_loading (gw_page w)" "\<not> tp_error (gw_page w)"
  shows "\<exists>a. gw_shown w = Some (gw_query w, a) \<and> answered_graph a = Some (tp_graph (gw_page w))"
  using topo.shows_current [OF assms] by auto

text \<open>The page after its first load, and after the answer to that.\<close>

definition mounted :: "(string, topology_answer, topology_page) guarded" where
  "mounted = \<lparr>gw_page = topology_init\<lparr>tp_generation := 1\<rparr>, gw_query = ''24h'', gw_pending = [(1, ''24h'')], gw_shown = None\<rparr>"

definition answered :: "(string, topology_answer, topology_page) guarded" where
  "answered = \<lparr>gw_page = topology_init\<lparr>tp_generation := 1, tp_loading := False\<rparr>, gw_query = ''24h'',
     gw_pending = [], gw_shown = Some (''24h'', Graph_Answer (Inr emptyGraph))\<rparr>"

lemma mounted_reachable:
  "guarded_reachable tp_generation topology_load topology_settle graph_answer graph_okay topology_init mounted"
  using guarded_reachable.mount [of tp_generation topology_load topology_settle graph_answer graph_okay topology_init "''24h''"]
  by (simp add: mounted_def send_load_def topology_load_def topology_init_def Let_def)

lemma answered_reachable:
  "guarded_reachable tp_generation topology_load topology_settle graph_answer graph_okay topology_init answered"
proof -
  have p: "gw_pending mounted = [] @ (1, ''24h'') # []" by (simp add: mounted_def)
  have "guarded_step tp_generation topology_load topology_settle graph_answer graph_okay mounted answered"
    using guarded_step.main [OF p, of graph_answer "Graph_Answer (Inr emptyGraph)" tp_generation topology_load topology_settle graph_okay]
    by (simp add: mounted_def answered_def topology_settle_def topology_init_def emptyGraph_def graph_answer_def graph_okay_def)
  with mounted_reachable show ?thesis by (rule guarded_reachable.step)
qed

lemma topology_shows_current_window_witness:
  "\<exists>a. gw_shown answered = Some (gw_query answered, a) \<and> answered_graph a = Some (tp_graph (gw_page answered))"
  by (rule topology_shows_current_window [OF answered_reachable]) (simp_all add: answered_def topology_init_def)

text \<open>C28. The page never waits for nothing: while it says it is loading, the request of the current
  load is out, and its answer ends the loading with the graph answered, for the current window.\<close>

theorem topology_loading_ends:
  assumes "guarded_reachable tp_generation topology_load topology_settle graph_answer graph_okay topology_init w"
    and "tp_loading (gw_page w)"
  shows "\<exists>w'. guarded_step tp_generation topology_load topology_settle graph_answer graph_okay w w'
    \<and> \<not> tp_loading (gw_page w') \<and> tp_graph (gw_page w') = g \<and> gw_query w' = gw_query w
    \<and> gw_shown w' = Some (gw_query w, Graph_Answer (Inr g))"
  using topo.loading_ends [OF assms, of "Graph_Answer (Inr g)"]
  by (auto simp: graph_answer_def graph_okay_def topology_settle_def)

lemma topology_loading_ends_witness:
  "\<exists>w'. guarded_step tp_generation topology_load topology_settle graph_answer graph_okay mounted w'
    \<and> \<not> tp_loading (gw_page w') \<and> tp_graph (gw_page w') = emptyGraph \<and> gw_query w' = gw_query mounted
    \<and> gw_shown w' = Some (gw_query mounted, Graph_Answer (Inr emptyGraph))"
  by (rule topology_loading_ends [OF mounted_reachable]) (simp add: mounted_def topology_init_def)

text \<open>C29. Late answers leave no trace: the state after any run of loads and answers is the state after
  the same run without the answers that belong to a load that is no longer the latest.\<close>

theorem topology_stale_answers_vanish:
  "topo.run evs st = topo.run (topo.current_only (tp_generation st) evs) st"
  by (rule topo.stale_answers_vanish)

lemma pickService_first: "services \<noteq> [] \<Longrightarrow> focus \<notin> sv_id ` set services \<Longrightarrow> pickService services focus = Some (hd services)"
  using find_None_iff [of "\<lambda>s. sv_id s = focus" services] by (auto simp: pickService_def image_iff)

lemma selected_first:
  assumes "ranked \<noteq> []" "focus \<notin> sv_id ` set ranked" "[] \<notin> sv_id ` set ranked"
  shows "topology_selected ranked focus
    = Some (hd (if focus \<noteq> [] \<and> filter (\<lambda>s. \<not> isAddress (sv_id s)) ranked \<noteq> []
                then filter (\<lambda>s. \<not> isAddress (sv_id s)) ranked else ranked))"
proof -
  let ?named = "filter (\<lambda>s. \<not> isAddress (sv_id s)) ranked"
  have m: "focus_missing ranked focus \<longleftrightarrow> focus \<noteq> []" using assms(1,2) by (simp add: focus_missing_iff)
  have r: "pickService ranked [] = Some (hd ranked)" by (rule pickService_first [OF assms(1,3)])
  have n: "pickService ?named [] = (if ?named = [] then None else Some (hd ?named))"
  proof (cases "?named = []")
    case False
    have "[] \<notin> sv_id ` set ?named" using assms(3) by auto
    from pickService_first [OF False this] show ?thesis by (simp only: False if_False)
  qed (simp add: pickService_def)
  have sel: "topology_selected ranked focus =
    (case (if focus \<noteq> [] then pickService ?named [] else pickService ranked []) of
       Some s \<Rightarrow> Some s | None \<Rightarrow> pickService ranked [])"
    unfolding topology_selected_def Let_def m splitAddresses_eq fst_conv by (cases "focus = []") simp_all
  show ?thesis unfolding sel r n by (cases "focus = []"; cases "?named = []"; simp only: if_True if_False option.case simp_thms)
qed

text \<open>C16. A service is selected whenever there is one, it is one of the services shown, and the one the
  address names when that exists. Otherwise, in a graph without a service of the empty name, it is the first one: of the services
  that are no addresses when the address of the page names a service that is gone and there are any, and else of the whole
  ranked list, addresses included.\<close>

theorem topology_selection:
  "(topology_selected ranked focus = None \<longleftrightarrow> ranked = [])
   \<and> (\<forall>s. topology_selected ranked focus = Some s \<longrightarrow>
        s \<in> set ranked \<and> (focus \<in> sv_id ` set ranked \<longrightarrow> sv_id s = focus))
   \<and> (ranked \<noteq> [] \<and> focus \<notin> sv_id ` set ranked \<and> [] \<notin> sv_id ` set ranked \<longrightarrow>
        topology_selected ranked focus
          = Some (hd (if focus \<noteq> [] \<and> filter (\<lambda>s. \<not> isAddress (sv_id s)) ranked \<noteq> []
                      then filter (\<lambda>s. \<not> isAddress (sv_id s)) ranked else ranked)))"
proof (intro conjI allI impI)
  show "topology_selected ranked focus = None \<longleftrightarrow> ranked = []" by (rule selected_None)
  show "s \<in> set ranked" if "topology_selected ranked focus = Some s" for s using that by (rule selected_in)
  show "sv_id s = focus" if "topology_selected ranked focus = Some s" "focus \<in> sv_id ` set ranked" for s
    using that by (rule selected_focus)
qed (blast intro: selected_first)

lemma topology_selection_witness:
  "topology_selected [sample_service ''b'' Op_Critical, sample_service ''a'' Op_Unknown] ''a''
     = Some (sample_service ''a'' Op_Unknown)"
proof -
  let ?ss = "[sample_service ''b'' Op_Critical, sample_service ''a'' Op_Unknown]"
  have "topology_selected ?ss ''a'' \<noteq> None" using topology_selection [THEN conjunct1, of ?ss "''a''"] by simp
  then obtain s where s: "topology_selected ?ss ''a'' = Some s" by blast
  have "''a'' \<in> sv_id ` set ?ss" by (simp add: sample_service_def)
  then have "s \<in> set ?ss \<and> sv_id s = ''a''"
    using topology_selection [THEN conjunct2, THEN conjunct1, of ?ss "''a''"] s by blast
  with s show ?thesis by (auto simp: sample_service_def)
qed

end
