(* ===== verification/Polling.thy ===== *)
theory Polling
  imports Api
begin

text \<open>
  \<open>hooks/use-polling.ts\<close>: a load runs when the component appears or what it asks for changes, and
  again at each tick of a timer; nothing waits for the answers. The state machine keeps the
  questions that are out, in the order they were sent, and the question and the answer applied
  last. With \<open>ordered\<close> the network answers in the order it was asked; without it any question may
  be answered next.
\<close>

record ('q, 'a, 's) polled =
  pl_state :: 's
  pl_query :: 'q
  pl_pending :: "'q list"
  pl_shown :: "('q \<times> 'a) option"

definition poll_send :: "'q \<Rightarrow> ('q, 'a, 's) polled \<Rightarrow> ('q, 'a, 's) polled" where
  "poll_send q w = w\<lparr>pl_query := q, pl_pending := pl_pending w @ [q]\<rparr>"

definition poll_mount :: "'q \<Rightarrow> 's \<Rightarrow> ('q, 'a, 's) polled" where
  "poll_mount q s = poll_send q \<lparr>pl_state = s, pl_query = q, pl_pending = [], pl_shown = None\<rparr>"

inductive poll_step :: "bool \<Rightarrow> ('a \<Rightarrow> 's \<Rightarrow> 's) \<Rightarrow> ('q, 'a, 's) polled \<Rightarrow> ('q, 'a, 's) polled \<Rightarrow> bool"
  for ordered :: bool and settle :: "'a \<Rightarrow> 's \<Rightarrow> 's" where
  tick: "poll_step ordered settle w (poll_send (pl_query w) w)"
| change: "poll_step ordered settle w (poll_send q w)"
| answer: "pl_pending w = xs @ q # ys \<Longrightarrow> (ordered \<longrightarrow> xs = []) \<Longrightarrow>
    poll_step ordered settle w (w\<lparr>pl_state := settle r (pl_state w), pl_pending := xs @ ys, pl_shown := Some (q, r)\<rparr>)"

inductive_cases poll_stepE: "poll_step ordered settle w w'"

inductive poll_reachable :: "bool \<Rightarrow> ('a \<Rightarrow> 's \<Rightarrow> 's) \<Rightarrow> 's \<Rightarrow> ('q, 'a, 's) polled \<Rightarrow> bool"
  for ordered :: bool and settle :: "'a \<Rightarrow> 's \<Rightarrow> 's" and s0 :: 's where
  mount: "poll_reachable ordered settle s0 (poll_mount q s0)"
| step: "poll_reachable ordered settle s0 w \<Longrightarrow> poll_step ordered settle w w' \<Longrightarrow> poll_reachable ordered settle s0 w'"

subsection \<open>Answers in order\<close>

text \<open>Answered in order, the newest question is the last one out, or the one shown.\<close>

definition newest_is_last :: "('q, 'a, 's) polled \<Rightarrow> bool" where
  "newest_is_last w \<longleftrightarrow>
     (if pl_pending w = [] then map_option fst (pl_shown w) = Some (pl_query w) else last (pl_pending w) = pl_query w)"

lemma newest_send: "newest_is_last (poll_send q w)"
  by (simp add: newest_is_last_def poll_send_def)

lemma newest_step: "poll_step ordered settle w w' \<Longrightarrow> ordered \<Longrightarrow> newest_is_last w \<Longrightarrow> newest_is_last w'"
  by (induction rule: poll_step.induct) (auto simp: poll_send_def newest_is_last_def split: if_splits)

lemma newest_reachable: "poll_reachable ordered settle s0 w \<Longrightarrow> ordered \<Longrightarrow> newest_is_last w"
  by (induction rule: poll_reachable.induct) (auto simp: poll_mount_def newest_send intro: newest_step)

subsection \<open>What the component shows\<close>

text \<open>
  The contract of a polled component: what it shows after an answer (\<open>view\<close>, for the answers that
  succeeded) depends on that answer alone, and its other operations keep it.
\<close>

locale polled_load =
  fixes settle :: "'a \<Rightarrow> 's \<Rightarrow> 's" and okay :: "'a \<Rightarrow> bool" and view :: "'s \<Rightarrow> 'v" and content :: "'a \<Rightarrow> 'v"
  assumes view_settle: "okay r \<Longrightarrow> view (settle r s) = content r"
begin

definition shows_last :: "('q, 'a, 's) polled \<Rightarrow> bool" where
  "shows_last w \<longleftrightarrow> (\<forall>q r. pl_shown w = Some (q, r) \<longrightarrow> okay r \<longrightarrow> view (pl_state w) = content r)"

lemma shows_last_reachable: "poll_reachable ordered settle s0 w \<Longrightarrow> shows_last w"
  by (induction rule: poll_reachable.induct)
    (auto simp: shows_last_def poll_mount_def poll_send_def view_settle elim!: poll_stepE)

theorem shows_current:
  assumes "poll_reachable True settle s0 w" "pl_pending w = []"
  shows "\<exists>r. pl_shown w = Some (pl_query w, r) \<and> (okay r \<longrightarrow> view (pl_state w) = content r)"
  using newest_reachable [OF assms(1)] shows_last_reachable [OF assms(1)] assms(2)
  by (auto simp: newest_is_last_def shows_last_def)

end

subsection \<open>One question out\<close>

text \<open>Ticks and answers while nobody changes the question, in any order.\<close>

definition poll_quiet :: "('a \<Rightarrow> 's \<Rightarrow> 's) \<Rightarrow> ('q, 'a, 's) polled \<Rightarrow> ('q, 'a, 's) polled \<Rightarrow> bool" where
  "poll_quiet settle w w' \<longleftrightarrow> poll_step False settle w w' \<and> pl_query w' = pl_query w"

text \<open>When only the newest question is out, in whatever number, the order of the answers does not matter.\<close>

definition one_question :: "('q, 'a, 's) polled \<Rightarrow> bool" where
  "one_question w \<longleftrightarrow> (\<forall>q\<in>set (pl_pending w). q = pl_query w)
     \<and> (pl_pending w = [] \<longrightarrow> map_option fst (pl_shown w) = Some (pl_query w))"

lemma one_question_send: "pl_pending w = [] \<Longrightarrow> one_question (poll_send q w)"
  by (simp add: one_question_def poll_send_def)

lemma one_question_quiet: "poll_quiet settle w w' \<Longrightarrow> one_question w \<Longrightarrow> one_question w'"
  by (auto simp: poll_quiet_def one_question_def poll_send_def elim!: poll_stepE)

lemma one_question_later: "rtranclp (poll_quiet settle) w w' \<Longrightarrow> one_question w \<Longrightarrow> one_question w' \<and> pl_query w' = pl_query w"
  by (induction rule: rtranclp_induct) (auto simp: poll_quiet_def intro: one_question_quiet [unfolded poll_quiet_def])

lemma quiet_reachable:
  "rtranclp (poll_quiet settle) w w' \<Longrightarrow> poll_reachable False settle s0 w \<Longrightarrow> poll_reachable False settle s0 w'"
  by (induction rule: rtranclp_induct) (auto simp: poll_quiet_def intro: poll_reachable.step)

lemma rest_answered: "poll_reachable ordered settle s0 w \<Longrightarrow> pl_pending w = [] \<Longrightarrow> pl_shown w \<noteq> None"
proof -
  have "poll_reachable ordered settle s0 w \<Longrightarrow> pl_pending w \<noteq> [] \<or> pl_shown w \<noteq> None"
    by (induction rule: poll_reachable.induct) (auto simp: poll_mount_def poll_send_def elim!: poll_stepE)
  then show "poll_reachable ordered settle s0 w \<Longrightarrow> pl_pending w = [] \<Longrightarrow> pl_shown w \<noteq> None" by blast
qed

subsection \<open>Answers out of order\<close>

text \<open>Answered out of order, the older answer can come last and stay.\<close>

lemma poll_overtaken:
  fixes settle :: "'a \<Rightarrow> 's \<Rightarrow> 's" and q1 q2 :: 'q
  shows "\<exists>w. poll_reachable False settle s0 w \<and> pl_pending w = [] \<and> pl_query w = q2 \<and> pl_shown w = Some (q1, r1)
     \<and> pl_state w = settle r1 (settle r2 s0)"
proof -
  let ?w0 = "poll_mount q1 s0 :: ('q, 'a, 's) polled"
  let ?w1 = "poll_send q2 ?w0"
  let ?w2 = "?w1\<lparr>pl_state := settle r2 s0, pl_pending := [q1], pl_shown := Some (q2, r2)\<rparr>"
  let ?w3 = "?w2\<lparr>pl_state := settle r1 (settle r2 s0), pl_pending := [], pl_shown := Some (q1, r1)\<rparr>"
  have r1: "poll_reachable False settle s0 ?w1" by (rule step [OF mount change])
  have p1: "pl_pending ?w1 = [q1] @ q2 # []" by (simp add: poll_send_def poll_mount_def)
  have "poll_step False settle ?w1 (?w1\<lparr>pl_state := settle r2 (pl_state ?w1), pl_pending := [q1] @ [], pl_shown := Some (q2, r2)\<rparr>)"
    by (rule answer [OF p1]) simp
  then have "poll_step False settle ?w1 ?w2" by (simp add: poll_send_def poll_mount_def)
  then have r2: "poll_reachable False settle s0 ?w2" by (rule step [OF r1])
  have p2: "pl_pending ?w2 = [] @ q1 # []" by simp
  have "poll_step False settle ?w2 (?w2\<lparr>pl_state := settle r1 (pl_state ?w2), pl_pending := [] @ [], pl_shown := Some (q1, r1)\<rparr>)"
    by (rule answer [OF p2]) simp
  then have "poll_step False settle ?w2 ?w3" by simp
  then have "poll_reachable False settle s0 ?w3" by (rule step [OF r2])
  moreover have "pl_query ?w3 = q2" by (simp add: poll_send_def)
  ultimately show ?thesis by (intro exI [of _ ?w3]) simp
qed

end
