(* ===== verification/Filter_Page.thy ===== *)
theory Filter_Page
  imports Polling
begin

text \<open>
  A list whose filters and page are in the address, as \<open>LogLines\<close>, \<open>LogPatterns\<close>, \<open>TraceList\<close> and
  \<open>EventHistory\<close> have it: one effect sets the page back when the filters are not the ones it has seen, a later one
  asks again when what the load depends on has changed. A change of the address is one render with its
  effects, and another for as long as the effects change the address themselves. The answers come to
  the state machine of \<open>Polling\<close>.
\<close>

record ('d, 'q, 'a, 's) filter_page =
  fp_address :: params
  fp_seen :: string
  fp_deps :: 'd
  fp_poll :: "('q, 'a, 's) polled"

definition page_mount ::
  "(params \<Rightarrow> string) \<Rightarrow> (params \<Rightarrow> 'd) \<Rightarrow> (params \<Rightarrow> 'q) \<Rightarrow> params \<Rightarrow> 's \<Rightarrow> ('d, 'q, 'a, 's) filter_page" where
  "page_mount key deps question ps s =
     \<lparr>fp_address = ps, fp_seen = key ps, fp_deps = deps ps, fp_poll = poll_mount (question ps) s\<rparr>"

text \<open>The effects of one render, and the address they leave.\<close>

definition page_effects ::
  "(params \<Rightarrow> string) \<Rightarrow> (params \<Rightarrow> 'd) \<Rightarrow> (params \<Rightarrow> 'q) \<Rightarrow> params \<Rightarrow> ('d, 'q, 'a, 's) filter_page
     \<Rightarrow> ('d, 'q, 'a, 's) filter_page \<times> params" where
  "page_effects key deps question ps st =
     (let (seen, ps') = page_reset (key ps) (fp_seen st, ps);
          st = st\<lparr>fp_address := ps, fp_seen := seen\<rparr>
      in (if deps ps = fp_deps st then st
          else st\<lparr>fp_deps := deps ps, fp_poll := poll_send (question ps) (fp_poll st)\<rparr>, ps'))"

partial_function (option) page_commit ::
  "(params \<Rightarrow> string) \<Rightarrow> (params \<Rightarrow> 'd) \<Rightarrow> (params \<Rightarrow> 'q) \<Rightarrow> params \<Rightarrow> ('d, 'q, 'a, 's) filter_page
     \<Rightarrow> ('d, 'q, 'a, 's) filter_page option" where
  "page_commit key deps question ps st =
     (let (st', ps') = page_effects key deps question ps st
      in if ps' = ps then Some st' else page_commit key deps question ps' st')"

inductive page_session ::
  "bool \<Rightarrow> ('a \<Rightarrow> 's \<Rightarrow> 's) \<Rightarrow> 's \<Rightarrow> (params \<Rightarrow> string) \<Rightarrow> (params \<Rightarrow> 'd) \<Rightarrow> (params \<Rightarrow> 'q)
     \<Rightarrow> ('d, 'q, 'a, 's) filter_page \<Rightarrow> bool"
  for ordered :: bool and settle :: "'a \<Rightarrow> 's \<Rightarrow> 's" and s0 :: 's and key :: "params \<Rightarrow> string"
    and deps :: "params \<Rightarrow> 'd" and question :: "params \<Rightarrow> 'q" where
  open_page: "page_session ordered settle s0 key deps question (page_mount key deps question ps s0)"
| navigated: "page_session ordered settle s0 key deps question st \<Longrightarrow> page_commit key deps question ps st = Some st' \<Longrightarrow>
    page_session ordered settle s0 key deps question st'"
| network: "page_session ordered settle s0 key deps question st \<Longrightarrow> poll_step ordered settle (fp_poll st) w \<Longrightarrow>
    pl_query w = pl_query (fp_poll st) \<Longrightarrow> page_session ordered settle s0 key deps question (st\<lparr>fp_poll := w\<rparr>)"

subsection \<open>The contract\<close>

text \<open>
  The filters do not depend on the page, and what is asked depends on nothing but the dependencies.
\<close>

definition first_page :: "params \<Rightarrow> params" where
  "first_page ps = query_set ''page'' ''1'' ''1'' ps"

lemma first_page_other: "k \<noteq> ''page'' \<Longrightarrow> query_value k d (first_page ps) = query_value k d ps"
  by (simp add: first_page_def query_value_set_other)

lemma first_page_page: "query_value ''page'' ''1'' (first_page ps) = ''1''"
  by (simp add: first_page_def query_value_set)

lemma page_reset_eq: "page_reset k (seen, ps) = (k, if seen = k then ps else first_page ps)"
  by (simp add: page_reset_def first_page_def)

locale filter_reset =
  fixes key :: "params \<Rightarrow> string" and deps :: "params \<Rightarrow> 'd" and question :: "params \<Rightarrow> 'q"
  assumes key_first: "key (first_page ps) = key ps"
    and question_deps: "deps ps = deps ps' \<Longrightarrow> question ps = question ps'"
begin

definition settled_address :: "params \<Rightarrow> ('d, 'q, 'a, 's) filter_page \<Rightarrow> params" where
  "settled_address ps st = (if key ps = fp_seen st then ps else first_page ps)"

definition asked :: "params \<Rightarrow> ('d, 'q, 'a, 's) filter_page \<Rightarrow> 'q list" where
  "asked ps st =
     (if deps ps = fp_deps st then [] else [question ps])
     @ (if deps (settled_address ps st) = deps ps then [] else [question (settled_address ps st)])"

text \<open>Two renders are enough, whatever the address.\<close>

lemma commit_seen:
  assumes "key ps = fp_seen st"
  shows "page_commit key deps question ps st =
    Some (if deps ps = fp_deps st then st\<lparr>fp_address := ps\<rparr>
          else st\<lparr>fp_address := ps, fp_deps := deps ps, fp_poll := poll_send (question ps) (fp_poll st)\<rparr>)"
  by (subst page_commit.simps) (simp add: page_effects_def page_reset_eq assms Let_def)

lemma commit_result:
  "\<exists>st'. page_commit key deps question ps st = Some st' \<and> fp_address st' = settled_address ps st \<and> fp_seen st' = key ps
     \<and> fp_deps st' = deps (settled_address ps st)
     \<and> fp_poll st' = foldl (\<lambda>w q. poll_send q w) (fp_poll st) (asked ps st)"
proof (cases "key ps = fp_seen st")
  case True
  then show ?thesis by (simp add: commit_seen settled_address_def asked_def)
next
  case False
  let ?st = "(if deps ps = fp_deps st then st
     else st\<lparr>fp_deps := deps ps, fp_poll := poll_send (question ps) (fp_poll st)\<rparr>)\<lparr>fp_address := ps, fp_seen := key ps\<rparr>"
  have e: "page_effects key deps question ps st = (?st, first_page ps)"
    using False by (auto simp: page_effects_def page_reset_eq Let_def)
  show ?thesis
  proof (cases "first_page ps = ps")
    case True
    then have "page_commit key deps question ps st = Some ?st" by (subst page_commit.simps) (simp add: e)
    then show ?thesis using False True by (simp add: settled_address_def asked_def)
  next
    case moved: False
    have "page_commit key deps question ps st = page_commit key deps question (first_page ps) ?st"
      using moved by (subst page_commit.simps) (simp add: e)
    moreover have "key (first_page ps) = fp_seen ?st" by (simp add: key_first)
    ultimately show ?thesis using False
      by (simp add: commit_seen settled_address_def asked_def)
  qed
qed

text \<open>One render by its effects, and the second one, which leaves the address alone.\<close>

lemma two_renders:
  "\<exists>st1 ps1. page_effects key deps question ps st = (st1, ps1)
    \<and> (if ps1 = ps then page_commit key deps question ps st = Some st1
       else \<exists>st2. page_effects key deps question ps1 st1 = (st2, ps1) \<and> page_commit key deps question ps st = Some st2)"
proof -
  obtain st1 ps1 where e: "page_effects key deps question ps st = (st1, ps1)" by (rule prod.exhaust)
  have c: "page_commit key deps question ps st = (if ps1 = ps then Some st1 else page_commit key deps question ps1 st1)"
    by (subst page_commit.simps) (simp add: e)
  have s: "fp_seen st1 = key ps" "ps1 = ps \<or> ps1 = first_page ps"
    using e by (auto simp: page_effects_def page_reset_eq Let_def split: if_splits)
  obtain st2 ps2 where e2: "page_effects key deps question ps1 st1 = (st2, ps2)" by (rule prod.exhaust)
  have "ps2 = ps1" if "ps1 \<noteq> ps"
    using e2 s that by (auto simp: page_effects_def page_reset_eq Let_def key_first)
  then have "page_commit key deps question ps1 st1 = Some st2" if "ps1 \<noteq> ps"
    by (subst page_commit.simps) (simp add: e2 that)
  with e e2 c \<open>ps1 \<noteq> ps \<Longrightarrow> ps2 = ps1\<close> show ?thesis by auto
qed

lemma commit_cases:
  assumes "page_commit key deps question ps st = Some st'"
  shows "fp_address st' = settled_address ps st" "fp_seen st' = key ps" "fp_deps st' = deps (settled_address ps st)"
    "fp_poll st' = foldl (\<lambda>w q. poll_send q w) (fp_poll st) (asked ps st)"
  using commit_result [of ps st] assms by auto

text \<open>The address, what has been seen of it and what was asked last agree.\<close>

definition in_step :: "('d, 'q, 'a, 's) filter_page \<Rightarrow> bool" where
  "in_step st \<longleftrightarrow> fp_seen st = key (fp_address st) \<and> fp_deps st = deps (fp_address st)
     \<and> pl_query (fp_poll st) = question (fp_address st)"

lemma in_step_commit:
  assumes "in_step st" "page_commit key deps question ps st = Some st'"
  shows "in_step st'"
proof -
  have k: "key (settled_address ps st) = key ps" by (simp add: settled_address_def key_first)
  have "pl_query (foldl (\<lambda>w q. poll_send q w) (fp_poll st) (asked ps st)) = question (settled_address ps st)"
    using assms(1) question_deps [of ps "fp_address st"] question_deps [of "settled_address ps st" ps]
    by (auto simp: asked_def in_step_def poll_send_def)
  then show ?thesis using commit_cases [OF assms(2)] k by (simp add: in_step_def)
qed

lemma session_in_step: "page_session ordered settle s0 key deps question st \<Longrightarrow> in_step st"
proof (induction rule: page_session.induct)
  case (open_page ps)
  then show ?case by (simp add: in_step_def page_mount_def poll_mount_def poll_send_def)
next
  case (navigated st ps st')
  then show ?case by (blast intro: in_step_commit)
qed (simp add: in_step_def)

lemma reachable_sends:
  "poll_reachable ordered settle s0 w \<Longrightarrow> poll_reachable ordered settle s0 (foldl (\<lambda>w q. poll_send q w) w qs)"
  by (induction qs arbitrary: w) (auto intro: poll_reachable.step poll_step.change)

lemma session_reachable: "page_session ordered settle s0 key deps question st \<Longrightarrow> poll_reachable ordered settle s0 (fp_poll st)"
proof (induction rule: page_session.induct)
  case (open_page ps)
  then show ?case by (simp add: page_mount_def poll_reachable.mount)
next
  case (navigated st ps st')
  then show ?case using reachable_sends commit_cases(4) by metis
next
  case (network st w)
  then show ?case by (auto intro: poll_reachable.step)
qed

lemma rest_shows:
  assumes "page_session True settle s0 key deps question st"
    and "\<And>w. poll_reachable True settle s0 w \<Longrightarrow> pl_pending w = [] \<Longrightarrow> \<exists>r. pl_shown w = Some (pl_query w, r) \<and> Q w r"
    and "pl_pending (fp_poll st) = []"
  shows "\<exists>r. pl_shown (fp_poll st) = Some (question (fp_address st), r) \<and> Q (fp_poll st) r"
  using assms(2) [OF session_reachable [OF assms(1)] assms(3)] session_in_step [OF assms(1)] by (simp add: in_step_def)

lemma session_commit:
  assumes "page_session ordered settle s0 key deps question st"
  shows "\<exists>st'. page_commit key deps question ps st = Some st'
    \<and> fp_address st' = (if key ps = key (fp_address st) then ps else first_page ps)
    \<and> pl_query (fp_poll st') = question (fp_address st')"
proof -
  obtain st' where c: "page_commit key deps question ps st = Some st'" "fp_address st' = settled_address ps st"
    using commit_result by blast
  have "in_step st" by (rule session_in_step [OF assms])
  moreover from this have "in_step st'" by (rule in_step_commit [OF _ c(1)])
  ultimately show ?thesis using c by (auto simp: settled_address_def in_step_def)
qed

text \<open>A change of the address that asks one question, when nothing is out.\<close>

lemma waited_for:
  assumes "page_session False settle s0 key deps question st" "pl_pending (fp_poll st) = []"
    and "page_commit key deps question ps st = Some st'" "key ps = key (fp_address st) \<or> first_page ps = ps"
    and "deps ps \<noteq> deps (fp_address st)" "rtranclp (poll_quiet settle) (fp_poll st') w" "pl_pending w = []"
  shows "\<exists>r. pl_shown w = Some (question ps, r) \<and> poll_reachable False settle s0 w"
proof -
  have i: "in_step st" by (rule session_in_step [OF assms(1)])
  have "settled_address ps st = ps" using assms(4) i by (auto simp: settled_address_def in_step_def)
  then have "asked ps st = [question ps]" using assms(5) i by (simp add: asked_def in_step_def)
  then have f: "fp_poll st' = poll_send (question ps) (fp_poll st)" using commit_cases(4) [OF assms(3)] by simp
  have q: "one_question w" "pl_query w = pl_query (fp_poll st')"
    using one_question_later [OF assms(6)] one_question_send [OF assms(2)] unfolding f by blast+
  have "map_option fst (pl_shown w) = Some (question ps)"
    using q assms(7) by (simp add: one_question_def f poll_send_def)
  moreover have "page_session False settle s0 key deps question st'" by (rule page_session.navigated [OF assms(1,3)])
  then have "poll_reachable False settle s0 w" by (intro quiet_reachable [OF assms(6)] session_reachable)
  ultimately show ?thesis by auto
qed

end

end
