(* ===== verification/Logs.thy ===== *)
theory Logs
  imports Topology_Page Filter_Page
begin

text \<open>
  \<open>pages/logs.tsx\<close> and \<open>views/log-patterns.tsx\<close>: the filters of the log page as operations on
  the address, the drafts of its two inputs, the polled search behind the lines and the patterns,
  and what is rendered. The polled loads are not guarded: an answer is applied whenever it comes.
  The topics of a line are what the hub writes, an array of strings; a row whose \<open>topics\<close> are
  something else has no rendering (\<open>filter\<close> throws) and is None.
\<close>

subsection \<open>Labels\<close>

definition levelVariant :: "string \<Rightarrow> string" where
  "levelVariant level = coalesce
     (map_of [(''error'', ''destructive''), (''warn'', ''secondary''), (''warning'', ''secondary''),
              (''debug'', ''outline''), (''info'', ''outline'')] level) ''outline''"

definition getTraceId :: "log_row \<Rightarrow> string option" where
  "getTraceId row =
     (case l_fields row of
        None \<Rightarrow> None
      | Some fs \<Rightarrow> (case map_of fs ''trace_id'' of Some (JStr tid) \<Rightarrow> if length tid > 0 then Some tid else None
                   | _ \<Rightarrow> None))"

definition levelKey :: "string \<Rightarrow> string option" where
  "levelKey level = map_of
     [(''error'', ''error''), (''warn'', ''warn''), (''warning'', ''warn''), (''info'', ''info''), (''debug'', ''debug'')] level"

definition levelLabel :: "translate \<Rightarrow> string \<Rightarrow> string" where
  "levelLabel t level =
     (if level = ''all'' then t ''logs.all'' []
      else case levelKey level of Some k \<Rightarrow> t (''logs.levels.'' @ k) [] | None \<Rightarrow> level)"

definition formatTraceShort :: "string \<Rightarrow> string" where
  "formatTraceShort tid = (if length tid \<le> 12 then tid else slice 0 8 tid @ ellipsis)"

subsection \<open>The page\<close>

text \<open>What the page reads from the address.\<close>

record logs_filters =
  lf_mode :: string
  lf_q :: string
  lf_trace_id :: string
  lf_since :: string
  lf_level :: string
  lf_topic :: string
  lf_container :: string
  lf_group :: string

definition log_filters :: "params \<Rightarrow> logs_filters" where
  "log_filters ps =
     (let traceId = query_value ''trace_id'' [] ps in
      \<lparr>lf_mode = query_value ''mode'' ''lines'' ps, lf_q = query_value ''q'' [] ps, lf_trace_id = traceId,
       lf_since = query_value ''since'' (if traceId \<noteq> [] then ''24h'' else ''1h'') ps,
       lf_level = query_value ''level'' ''all'' ps, lf_topic = query_value ''topic'' ''all'' ps,
       lf_container = query_value ''container'' ''all'' ps, lf_group = query_value ''group'' [] ps\<rparr>)"

record logs_page =
  queryDraft :: string
  qSeen :: string
  traceDraft :: string
  traceSeen :: string
  lg_containers :: "string list"

definition logs_init :: "params \<Rightarrow> logs_page" where
  "logs_init ps =
     (let f = log_filters ps in
      \<lparr>queryDraft = lf_q f, qSeen = lf_q f, traceDraft = lf_trace_id f, traceSeen = lf_trace_id f, lg_containers = []\<rparr>)"

text \<open>The updates made while rendering: a draft follows its parameter when that changes.\<close>

definition logs_sync :: "params \<Rightarrow> logs_page \<Rightarrow> logs_page" where
  "logs_sync ps st =
     (let f = log_filters ps;
          st = (if lf_q f \<noteq> qSeen st then st\<lparr>qSeen := lf_q f, queryDraft := lf_q f\<rparr> else st)
      in if lf_trace_id f \<noteq> traceSeen st
         then st\<lparr>traceSeen := lf_trace_id f, traceDraft := lf_trace_id f\<rparr> else st)"

definition logs_workloads :: "api_error + workload_snapshot list \<Rightarrow> logs_page \<Rightarrow> logs_page" where
  "logs_workloads answer st =
     st\<lparr>lg_containers := (case answer of Inr wl \<Rightarrow> sort (map w_container wl) | Inl _ \<Rightarrow> [])\<rparr>"

definition log_patterns_mode :: "logs_filters \<Rightarrow> bool" where
  "log_patterns_mode f = (lf_mode f = ''patterns'')"

definition traceActive :: "logs_filters \<Rightarrow> bool" where
  "traceActive f = (\<not> log_patterns_mode f \<and> length (lf_trace_id f) > 0)"

datatype logs_action =
    Select_Group | Select_Container | Set_Window picker_action | Set_Mode string
  | Edit_Query | Submit_Query | Edit_Trace | Submit_Trace | Set_Topic string | Set_Level string
  | Clear_Trace | Open_Lines log_pattern | Go_Page jsnum | Reload

text \<open>The address after an action; \<open>typed\<close> is the value its event carries.\<close>

fun logs_query :: "env \<Rightarrow> jsnum \<Rightarrow> picker \<Rightarrow> logs_page \<Rightarrow> logs_action \<Rightarrow> string \<Rightarrow> params \<Rightarrow> params" where
  "logs_query e now pk st Select_Group typed ps =
     query_patch [(''group'', Some typed),
                  (''container'', if typed \<noteq> [] then None else Some (lf_container (log_filters ps)))] [] ps"
| "logs_query e now pk st Select_Container typed ps = query_set ''container'' ''all'' typed ps"
| "logs_query e now pk st (Set_Window a) typed ps =
     (case snd (picker_step e now typed a pk) of
        Some v \<Rightarrow> query_set ''since'' (if lf_trace_id (log_filters ps) \<noteq> [] then ''24h'' else ''1h'') v ps
      | None \<Rightarrow> ps)"
| "logs_query e now pk st (Set_Mode m) typed ps =
     query_patch [(''mode'', Some m), (''page'', None)] [(''mode'', ''lines'')] ps"
| "logs_query e now pk st Submit_Query typed ps = query_patch [(''q'', Some (trim (queryDraft st)))] [] ps"
| "logs_query e now pk st Submit_Trace typed ps =
     (let tid = trim (traceDraft st); since = lf_since (log_filters ps) in
      query_patch [(''trace_id'', Some tid),
                   (''since'', Some (if tid \<noteq> [] \<and> since = ''1h'' then ''24h'' else since))] [(''since'', ''1h'')] ps)"
| "logs_query e now pk st (Set_Topic v) typed ps = query_set ''topic'' ''all'' v ps"
| "logs_query e now pk st (Set_Level v) typed ps = query_set ''level'' ''all'' v ps"
| "logs_query e now pk st Clear_Trace typed ps = query_patch [(''trace_id'', None)] [] ps"
| "logs_query e now pk st (Open_Lines p) typed ps =
     query_patch [(''mode'', None), (''q'', Some (slice 0 40 (pt_pattern p))),
                  (''container'', Some (pt_container p)), (''group'', None)] [] ps"
| "logs_query e now pk st (Go_Page n) typed ps = query_set ''page'' ''1'' (num_string n) ps"
| "logs_query e now pk st _ typed ps = ps"

text \<open>The two drafts.\<close>

fun logs_edit :: "logs_action \<Rightarrow> string \<Rightarrow> logs_page \<Rightarrow> logs_page" where
  "logs_edit Edit_Query typed st = st\<lparr>queryDraft := typed\<rparr>"
| "logs_edit Edit_Trace typed st = st\<lparr>traceDraft := typed\<rparr>"
| "logs_edit _ typed st = st"

subsection \<open>The lines\<close>

record log_lines =
  ll_result :: "log_row list_page"
  ll_loading :: bool
  ll_error :: "string option"

definition no_lines :: "log_row list_page" where
  "no_lines = \<lparr>entries = [], total = 0, limit = Fin 50, offset = 0, truncated = False\<rparr>"

definition log_lines_init :: log_lines where
  "log_lines_init = \<lparr>ll_result = no_lines, ll_loading = True, ll_error = None\<rparr>"

definition lines_filter_key :: "logs_filters \<Rightarrow> string" where
  "lines_filter_key f = join ''|''
     [lf_q f, lf_since f, lf_level f, lf_topic f, lf_container f, lf_group f, lf_trace_id f]"

definition log_page :: "params \<Rightarrow> jsnum" where
  "log_page ps = pageIndex (query_value ''page'' ''1'' ps)"

text \<open>What the callback of the load depends on.\<close>

definition lines_key :: "params \<Rightarrow> string" where
  "lines_key ps = lines_filter_key (log_filters ps)"

definition lines_deps :: "params \<Rightarrow> string list \<times> jsnum" where
  "lines_deps ps =
     (let f = log_filters ps
      in ([lf_q f, lf_since f, lf_level f, lf_topic f, lf_container f, lf_group f, lf_trace_id f], log_page ps))"

definition given :: "string \<Rightarrow> string option" where
  "given s = (if s \<noteq> [] then Some s else None)"

definition lines_request :: "params \<Rightarrow> log_search_params" where
  "lines_request ps =
     (let f = log_filters ps; tid = lf_trace_id f; group = lf_group f in
      \<lparr>ls_q = Some (lf_q f), ls_since = Some (lf_since f), ls_level = Some (lf_level f),
       ls_container = (if tid \<noteq> [] \<or> group \<noteq> [] then None else Some (lf_container f)),
       ls_topic = Some (lf_topic f),
       ls_group = (if tid \<noteq> [] then None else given group),
       ls_trace_id = given tid,
       ls_limit = Some (Fin 50), ls_offset = Some ((log_page ps - 1) * Fin 50)\<rparr>)"

definition lines_answer :: "translate \<Rightarrow> api_error + log_row list_page \<Rightarrow> log_lines \<Rightarrow> log_lines" where
  "lines_answer t r st =
     (case r of
        Inr p \<Rightarrow> st\<lparr>ll_result := p, ll_error := None\<rparr>
      | Inl _ \<Rightarrow> st\<lparr>ll_error := Some (t ''logs.searchError'' []), ll_result := no_lines\<rparr>)\<lparr>ll_loading := False\<rparr>"

definition log_topics :: "log_row \<Rightarrow> string list option" where
  "log_topics row =
     (case l_fields row of
        None \<Rightarrow> Some []
      | Some fs \<Rightarrow> (case map_of fs ''topics'' of
            None \<Rightarrow> Some []
          | Some JNull \<Rightarrow> Some []
          | Some (JArr xs) \<Rightarrow> those (map (\<lambda>x. case x of JStr s \<Rightarrow> Some s | _ \<Rightarrow> None) xs)
          | _ \<Rightarrow> None))"

definition log_container :: "log_row \<Rightarrow> string" where
  "log_container row = last (split_on (CHR '':'') (l_entity_uid row))"

definition log_row_view :: "env \<Rightarrow> string \<Rightarrow> log_row \<Rightarrow> logs_action ui option" where
  "log_row_view e since row = map_option (\<lambda>topics.
     (let t = tr e; tid = getTraceId row; container = log_container row in
      el ''TableRow''
        [el ''TableCell'' [El ''time'' [(''dateTime'', AStr (l_ts row)), (''title'', AStr (formatDateTime e (l_ts row)))]
           [Text (formatClock e (l_ts row))]],
         el ''TableCell'' [badge (levelVariant (l_level row)) (levelLabel t (l_level row))],
         el ''TableCell'' [El ''Link'' [(''to'', AStr (''/metrics?container='' @ encodeURIComponent container)),
             (''title'', AStr (t ''logs.metricsOf'' [(''container'', TStr container)]))] [Text container]],
         el ''TableCell''
          [case tid of
             Some i \<Rightarrow> El ''Link'' [(''to'', AStr (''/traces?'' @ params_string [(''trace_id'', i), (''since'', since)])),
                 (''title'', AStr i)] [Text (formatTraceShort i)]
           | None \<Rightarrow> el ''span'' [Text dash]],
         el ''TableCell'' [el ''div'' (map (\<lambda>topicId. badge ''outline''
             (if topicId = ''error'' then t ''logs.errors'' []
              else t (''logs.'' @ topicId) [(''defaultValue'', TStr topicId)]))
           (filter (\<lambda>topicId. topicId \<noteq> ''general'') topics))],
         el ''TableCell'' [Text (stripAnsi (l_message row))]])) (log_topics row)"

definition table_header :: "string list \<Rightarrow> 'h ui" where
  "table_header cols = el ''TableHeader'' [el ''TableRow'' (map (\<lambda>c. el ''TableHead'' [Text c]) cols)]"

definition log_lines_view :: "env \<Rightarrow> params \<Rightarrow> log_lines \<Rightarrow> logs_action ui list option" where
  "log_lines_view e ps st = map_option (\<lambda>rows.
     (let t = tr e; res = ll_result st in
      (case ll_error st of Some m \<Rightarrow> if m \<noteq> [] then [load_error t m (Some Reload)] else [] | None \<Rightarrow> [])
      @ [El ''ScrollArea'' [(''aria-busy'', ABool (ll_loading st))]
          [el ''Table''
            [table_header [t ''logs.time'' [], t ''logs.level'' [], t ''common.container'' [], t ''logs.trace'' [],
                           t ''logs.topics'' [], t ''logs.message'' []],
             el ''TableBody''
              (if ll_loading st \<and> entries res = [] then [el ''TableRow'' [el ''TableCell'' [skeleton]]]
               else if entries res = [] then [el ''TableRow'' [el ''TableCell'' [Text (t ''logs.linesEmpty'' [])]]]
               else rows)]],
         remote_pager t res (log_page ps) Go_Page]))
     (those (map (log_row_view e (lf_since (log_filters ps))) (entries (ll_result st))))"

subsection \<open>The patterns\<close>

record log_patterns =
  lpt_rows :: "log_pattern list"
  lpt_loading :: bool
  lpt_error :: "string option"

definition log_patterns_init :: log_patterns where
  "log_patterns_init = \<lparr>lpt_rows = [], lpt_loading = True, lpt_error = None\<rparr>"

definition pattern_filters :: "logs_filters \<Rightarrow> log_pattern_params" where
  "pattern_filters f =
     \<lparr>lp_since = Some (lf_since f), lp_q = Some (lf_q f), lp_container = Some (lf_container f), lp_group = Some (lf_group f)\<rparr>"

definition patterns_filter_key :: "logs_filters \<Rightarrow> string" where
  "patterns_filter_key f = join ''|'' [lf_since f, lf_q f, lf_container f, lf_group f]"

definition patterns_key :: "params \<Rightarrow> string" where
  "patterns_key ps = patterns_filter_key (log_filters ps)"

definition patterns_deps :: "params \<Rightarrow> string list" where
  "patterns_deps ps = (let f = log_filters ps in [lf_since f, lf_q f, lf_container f, lf_group f])"

definition patterns_answer :: "translate \<Rightarrow> api_error + log_pattern list \<Rightarrow> log_patterns \<Rightarrow> log_patterns" where
  "patterns_answer t r st =
     (case r of
        Inr rows \<Rightarrow> st\<lparr>lpt_rows := rows, lpt_error := None\<rparr>
      | Inl _ \<Rightarrow> st\<lparr>lpt_error := Some (t ''logs.patternsError'' [])\<rparr>)\<lparr>lpt_loading := False\<rparr>"

definition pattern_card :: "translate \<Rightarrow> log_pattern \<Rightarrow> logs_action ui" where
  "pattern_card t p = el ''Card''
     [el ''CardHeader''
       [el ''div''
         [el ''CardTitle'' [Text (str_or (pt_service p) (pt_container p))],
          badge (if pt_count p \<ge> 200 then ''destructive'' else if pt_count p \<ge> 50 then ''secondary'' else ''outline'')
            (if pt_count p = 1 then t ''logs.oneOccurrence'' []
             else t ''logs.nOccurrences'' [(''count'', TInt (pt_count p))])],
        El ''Link'' [(''to'', AStr (''/metrics?container='' @ encodeURIComponent (pt_container p))),
           (''title'', AStr (t ''logs.metricsOf'' [(''container'', TStr (pt_container p))]))] [Text (pt_container p)]],
      el ''CardContent''
       [el ''p'' [Text (pt_pattern p)], button False (Open_Lines p) (t ''logs.viewLines'' [])]]"

definition log_patterns_view :: "translate \<Rightarrow> params \<Rightarrow> log_patterns \<Rightarrow> logs_action ui" where
  "log_patterns_view t ps st =
     (if lpt_loading st \<and> lpt_rows st = [] then skeleton
      else if truthy_str (lpt_error st) then load_error t (the (lpt_error st)) (Some Reload)
      else if lpt_rows st = [] then el ''p'' [Text (t ''logs.patternsEmpty'' [])]
      else let s = pageSlice (lpt_rows st) (log_page ps) PAGE_SIZE in
        el ''div''
          [el ''div'' (map (pattern_card t) (ps_rows s)),
           list_pager t (ps_start s) (ps_end s) (ps_total s) (ps_page s) PAGE_SIZE False Go_Page])"

subsection \<open>The view of the page\<close>

definition choice_button :: "string \<Rightarrow> string \<Rightarrow> bool \<Rightarrow> bool \<Rightarrow> 'h \<Rightarrow> string \<Rightarrow> 'h ui" where
  "choice_button on off chosen dis h label =
     El ''Button'' [(''variant'', AStr (if chosen then on else off)), (''aria-pressed'', ABool chosen),
       (''disabled'', ABool dis), (''onClick'', AHandler h)] [Text label]"

definition logs_header ::
  "env \<Rightarrow> logs_filters \<Rightarrow> picker \<Rightarrow> group_select_state \<Rightarrow> string list \<Rightarrow> logs_action ui" where
  "logs_header e f pk gs containers =
     (let t = tr e in
      page_header (t ''logs.title'' []) None
       [map_ui (\<lambda>_. Select_Group) (group_select t (lf_group f) (traceActive f) None gs),
        El ''select''
         [(''name'', AStr ''container''), (''aria-label'', AStr (t ''common.container'' [])), (''value'', AStr (lf_container f)),
          (''disabled'', ABool (lf_group f \<noteq> [] \<or> traceActive f)), (''onChange'', AHandler Select_Container)]
         (El ''option'' [(''value'', AStr ''all'')] [Text (t ''common.allContainers'' [])]
          # map (\<lambda>c. El ''option'' [(''value'', AStr c)] [Text c]) containers),
        map_ui Set_Window (time_range_picker e (lf_since f) pk)])"

definition logs_search_forms :: "translate \<Rightarrow> logs_filters \<Rightarrow> logs_page \<Rightarrow> logs_action ui" where
  "logs_search_forms t f st =
     el ''div''
      [El ''form'' [(''role'', AStr ''search''), (''onSubmit'', AHandler Submit_Query)]
        [El ''Input'' [(''type'', AStr ''search''), (''name'', AStr ''q''), (''aria-label'', AStr (t ''logs.message'' [])),
            (''placeholder'', AStr (t ''logs.messagePlaceholder'' [])), (''value'', AStr (queryDraft st)),
            (''onChange'', AHandler Edit_Query)] [],
         El ''Button'' [(''type'', AStr ''submit'')] [Text (t ''logs.search'' [])]],
       El ''form'' [(''onSubmit'', AHandler Submit_Trace)]
        [El ''Input'' [(''type'', AStr ''search''), (''name'', AStr ''trace_id''), (''aria-label'', AStr (t ''traces.traceId'' [])),
            (''placeholder'', AStr (t ''traces.traceId'' [])), (''value'', AStr (traceDraft st)),
            (''disabled'', ABool (log_patterns_mode f)), (''onChange'', AHandler Edit_Trace)] [],
         El ''Button'' [(''type'', AStr ''submit''), (''disabled'', ABool (log_patterns_mode f))]
           [Text (t ''logs.filterTrace'' [])]]]"

definition logs_choices :: "translate \<Rightarrow> logs_filters \<Rightarrow> logs_action ui" where
  "logs_choices t f =
     el ''div''
      [El ''div'' [(''role'', AStr ''group''), (''aria-label'', AStr (t ''logs.topic'' []))]
        [el ''p'' [Text (t ''logs.topic'' [])],
         el ''div'' (map (\<lambda>i. choice_button ''default'' ''outline'' (lf_topic f = i) (log_patterns_mode f) (Set_Topic i)
           (if i = ''error'' then t ''logs.errors'' [] else t (''logs.'' @ i) [])) LOG_TOPICS)],
       El ''div'' [(''role'', AStr ''group''), (''aria-label'', AStr (t ''logs.level'' []))]
        [el ''p'' [Text (t ''logs.level'' [])],
         el ''div'' (map (\<lambda>i. choice_button ''secondary'' ''ghost'' (lf_level f = i) (log_patterns_mode f) (Set_Level i)
           (levelLabel t i)) LOG_LEVELS)]]"

definition logs_view ::
  "env \<Rightarrow> params \<Rightarrow> picker \<Rightarrow> group_select_state \<Rightarrow> logs_page \<Rightarrow> log_lines \<Rightarrow> log_patterns \<Rightarrow> logs_action ui option" where
  "logs_view e ps pk gs st lines pats =
     (let t = tr e; f = log_filters ps; patterns = log_patterns_mode f in
      map_option (\<lambda>body. el ''div''
       ([logs_header e f pk gs (lg_containers st),
         El ''Tabs'' [(''value'', AStr (lf_mode f))]
          [El ''TabsList'' [(''aria-label'', AStr (t ''common.mode'' []))]
            [El ''TabsTrigger'' [(''value'', AStr ''lines''), (''onSelect'', AHandler (Set_Mode ''lines''))] [Text (t ''logs.lines'' [])],
             El ''TabsTrigger'' [(''value'', AStr ''patterns''), (''onSelect'', AHandler (Set_Mode ''patterns''))]
               [Text (t ''logs.patterns'' [])]]],
         logs_search_forms t f st, logs_choices t f]
        @ opt patterns (el ''p'' [Text (t ''logs.linesOnlyFilters'' [])])
        @ opt (traceActive f) (el ''div''
            [el ''span'' [Text (t ''logs.traceBanner'' []), Text '' '', el ''span'' [Text (lf_trace_id f)]],
             link (''/traces?'' @ params_string [(''trace_id'', lf_trace_id f), (''since'', lf_since f)])
               [Text (t ''logs.viewTrace'' [])],
             button False Clear_Trace (t ''logs.clearTrace'' [])])
        @ body))
       (if patterns then Some [log_patterns_view t ps pats] else log_lines_view e ps lines))"

subsection \<open>What the lines ask for\<close>

lemma params_get_search:
  "params_get (search_params p) ''container'' =
     (if truthy_str (ls_container p) \<and> ls_container p \<noteq> Some ''all'' then ls_container p else None)"
  "params_get (search_params p) ''group'' = (if truthy_str (ls_group p) then ls_group p else None)"
  "params_get (search_params p) ''trace_id'' = (if truthy_str (ls_trace_id p) then ls_trace_id p else None)"
  "params_get (search_params p) ''since'' = Some (coalesce (ls_since p) ''1h'')"
  "params_get (search_params p) ''q'' = (if truthy_str (ls_q p) then ls_q p else None)"
  unfolding search_params_def Let_def by (simp_all add: params_get_rules) (simp_all add: params_get_def)

lemma log_filters_patch_trace:
  assumes "tid \<noteq> []"
  shows "lf_since (log_filters (query_patch [(''trace_id'', Some tid), (''since'', Some v)] [(''since'', ''1h'')] ps))
    = (if v = [] \<or> v = ''1h'' then ''24h'' else v)"
  using assms by (simp add: log_filters_def query_value_def params_get_patch elided_def)

subsection \<open>The polled loads\<close>

definition lines_shown :: "log_lines \<Rightarrow> log_row list_page \<times> bool" where
  "lines_shown st = (ll_result st, ll_error st \<noteq> None)"

definition lines_answered :: "api_error + log_row list_page \<Rightarrow> log_row list_page \<times> bool" where
  "lines_answered r = (case r of Inr p \<Rightarrow> (p, False) | Inl _ \<Rightarrow> (no_lines, True))"

interpretation lines_poll: polled_load "lines_answer t" "\<lambda>_. True" lines_shown lines_answered
  for t by unfold_locales (simp add: lines_answer_def lines_shown_def lines_answered_def split: sum.split)

definition patterns_answered :: "api_error + log_pattern list \<Rightarrow> log_pattern list option" where
  "patterns_answered r = (case r of Inr rows \<Rightarrow> Some rows | Inl _ \<Rightarrow> None)"

interpretation patterns_poll: polled_load "patterns_answer t" "\<lambda>r. patterns_answered r \<noteq> None"
  "\<lambda>st. Some (lpt_rows st)" patterns_answered
  for t by unfold_locales (simp add: patterns_answer_def patterns_answered_def split: sum.splits)

subsection \<open>The filters and the page\<close>

lemma log_filters_first: "log_filters (first_page ps) = log_filters ps"
  by (simp add: log_filters_def first_page_other)

lemma log_page_first: "log_page (first_page ps) = pageIndex ''1''"
  by (simp add: log_page_def first_page_page)

interpretation lines_page: filter_reset lines_key lines_deps lines_request
  by unfold_locales
    (simp_all add: lines_key_def log_filters_first lines_deps_def lines_request_def Let_def)

interpretation patterns_page: filter_reset patterns_key patterns_deps "\<lambda>ps. pattern_filters (log_filters ps)"
  by unfold_locales
    (simp_all add: patterns_key_def log_filters_first patterns_deps_def pattern_filters_def Let_def)

text \<open>A change of the address as the patterns take it.\<close>

definition patterns_commit ::
  "params \<Rightarrow> (string list, log_pattern_params, 'a, log_patterns) filter_page
     \<Rightarrow> (string list, log_pattern_params, 'a, log_patterns) filter_page option" where
  "patterns_commit = page_commit patterns_key patterns_deps (\<lambda>ps. pattern_filters (log_filters ps))"

lemma patterns_follow_address:
  assumes "page_session ordered settle s0 patterns_key patterns_deps (\<lambda>ps. pattern_filters (log_filters ps)) st"
  shows "\<exists>st'. patterns_commit ps st = Some st'
    \<and> fp_address st' = (if patterns_key ps = patterns_key (fp_address st) then ps else first_page ps)
    \<and> pl_query (fp_poll st') = pattern_filters (log_filters (fp_address st'))"
  unfolding patterns_commit_def by (rule patterns_page.session_commit [OF assms])

text \<open>Away from the first page a change of the filters asks twice, first for the page the address still names.\<close>

lemma filter_change_asks_twice:
  assumes "page_session ordered (lines_answer t) log_lines_init lines_key lines_deps lines_request st"
    and "lines_key ps \<noteq> lines_key (fp_address st)" "lines_deps ps \<noteq> lines_deps (fp_address st)" "log_page ps \<noteq> pageIndex ''1''"
    and "page_commit lines_key lines_deps lines_request ps st = Some st'"
  shows "pl_pending (fp_poll st') = pl_pending (fp_poll st) @ [lines_request ps, lines_request (first_page ps)]"
proof -
  have i: "fp_seen st = lines_key (fp_address st)" "fp_deps st = lines_deps (fp_address st)"
    using lines_page.session_in_step [OF assms(1)] by (simp_all add: lines_page.in_step_def)
  have "lines_deps (first_page ps) \<noteq> lines_deps ps"
    using assms(4) by (simp add: lines_deps_def log_page_first Let_def)
  then have "lines_page.asked ps st = [lines_request ps, lines_request (first_page ps)]"
    using assms(2,3) i by (simp add: lines_page.asked_def lines_page.settled_address_def)
  then show ?thesis using lines_page.commit_cases(4) [OF assms(5)] by (simp add: poll_send_def)
qed

subsection \<open>Properties\<close>

text \<open>What the lines ask the hub: a trace excludes the container and the group, a group excludes
  the container, and the filters not excluded are sent when they say something; a window is always
  sent.\<close>

theorem lines_request_functional:
  "let f = log_filters ps; q = search_params (lines_request ps) in
     params_get q ''trace_id'' = (if lf_trace_id f \<noteq> [] then Some (lf_trace_id f) else None)
   \<and> params_get q ''group'' = (if lf_trace_id f = [] \<and> lf_group f \<noteq> [] then Some (lf_group f) else None)
   \<and> params_get q ''container'' =
       (if lf_trace_id f = [] \<and> lf_group f = [] \<and> lf_container f \<noteq> [] \<and> lf_container f \<noteq> ''all''
        then Some (lf_container f) else None)
   \<and> params_get q ''q'' = (if lf_q f \<noteq> [] then Some (lf_q f) else None)
   \<and> params_get q ''since'' = Some (lf_since f)"
  unfolding Let_def params_get_search by (simp add: lines_request_def Let_def given_def)

text \<open>Searching for a trace never leaves the window too short for it: submitting a trace
  identifier puts it, trimmed, into the address, and when the window was an hour it becomes a day;
  any other window stays.\<close>

theorem trace_search_widens_window:
  assumes "trim (traceDraft st) \<noteq> []"
  shows "lf_trace_id (log_filters (logs_query e now pk st Submit_Trace typed ps)) = trim (traceDraft st)
    \<and> lf_since (log_filters (logs_query e now pk st Submit_Trace typed ps))
      = (if lf_since (log_filters ps) = ''1h'' \<or> lf_since (log_filters ps) = [] then ''24h''
         else lf_since (log_filters ps))"
  using assms log_filters_patch_trace [OF assms]
  by (simp add: Let_def) (simp add: log_filters_def query_value_def params_get_patch elided_def)

lemma trace_search_widens_window_witness:
  "lf_since (log_filters (logs_query sample_env 0 (picker_init ''1h'')
     \<lparr>queryDraft = [], qSeen = [], traceDraft = '' abc '', traceSeen = [], lg_containers = []\<rparr> Submit_Trace [] [])) = ''24h''"
  using trace_search_widens_window [of "\<lparr>queryDraft = [], qSeen = [], traceDraft = '' abc '', traceSeen = [], lg_containers = []\<rparr>"
      sample_env 0 "picker_init ''1h''" "[]" "[]"]
  by (simp add: trim_def is_space_def log_filters_def query_value_def params_get_def)

text \<open>A draft never hides the filter in force: when the address changes under the page the draft
  shows the new filter, otherwise it is what was typed; synchronising again changes nothing.\<close>

theorem drafts_follow_address:
  "(lf_q (log_filters ps) \<noteq> qSeen st \<longrightarrow> queryDraft (logs_sync ps st) = lf_q (log_filters ps))
   \<and> (lf_q (log_filters ps) = qSeen st \<longrightarrow> queryDraft (logs_sync ps st) = queryDraft st)
   \<and> (lf_trace_id (log_filters ps) \<noteq> traceSeen st \<longrightarrow> traceDraft (logs_sync ps st) = lf_trace_id (log_filters ps))
   \<and> (lf_trace_id (log_filters ps) = traceSeen st \<longrightarrow> traceDraft (logs_sync ps st) = traceDraft st)
   \<and> logs_sync ps (logs_sync ps st) = logs_sync ps st"
  by (simp add: logs_sync_def Let_def)

lemma drafts_follow_address_witness:
  "queryDraft (logs_sync [(''q'', ''oom'')] (logs_init [])) = ''oom''"
  using drafts_follow_address [of "[(''q'', ''oom'')]" "logs_init []"]
  by (simp add: logs_init_def log_filters_def query_value_def params_get_def)

text \<open>C31. The log lines follow the address, whatever the order in which the searches are answered: a
  change of the address settles after at most one more render; it is kept as it is when it leaves the filters alone and is set
  back to the first page when it does not; the search in force is then the one the address describes. When no search is
  out, the page shows the answer that came last, its lines or none and the error; and when the address is changed then, to another search that needs no
  setting back of the page, and not again, the page shows the answer to the new address as soon as no search is out again,
  however often the timer repeated it. (Changes while a search is out have no such guarantee, see \<open>stale_lines_can_win\<close>.)\<close>

theorem lines_follow_address:
  assumes "page_session False (lines_answer t) log_lines_init lines_key lines_deps lines_request st"
  shows "(\<exists>st1 ps1. page_effects lines_key lines_deps lines_request ps st = (st1, ps1)
      \<and> (if ps1 = ps then page_commit lines_key lines_deps lines_request ps st = Some st1
         else \<exists>st2. page_effects lines_key lines_deps lines_request ps1 st1 = (st2, ps1)
                \<and> page_commit lines_key lines_deps lines_request ps st = Some st2))
    \<and> (\<exists>st'. page_commit lines_key lines_deps lines_request ps st = Some st'
      \<and> fp_address st' = (if lines_key ps = lines_key (fp_address st) then ps else first_page ps)
      \<and> pl_query (fp_poll st') = lines_request (fp_address st'))
    \<and> (pl_pending (fp_poll st) = [] \<longrightarrow>
        (\<exists>q r. pl_shown (fp_poll st) = Some (q, r) \<and> lines_shown (pl_state (fp_poll st)) = lines_answered r))
    \<and> (\<forall>st' w. pl_pending (fp_poll st) = [] \<and> page_commit lines_key lines_deps lines_request ps st = Some st'
        \<and> (lines_key ps = lines_key (fp_address st) \<or> first_page ps = ps) \<and> lines_deps ps \<noteq> lines_deps (fp_address st)
        \<and> rtranclp (poll_quiet (lines_answer t)) (fp_poll st') w \<and> pl_pending w = [] \<longrightarrow>
        (\<exists>r. pl_shown w = Some (lines_request ps, r) \<and> lines_shown (pl_state w) = lines_answered r))"
proof (intro conjI allI impI)
  have shows_last: "lines_shown (pl_state w) = lines_answered r"
    if "poll_reachable False (lines_answer t) log_lines_init w" "pl_shown w = Some (q, r)" for w q r
    using lines_poll.shows_last_reachable [OF that(1)] that(2) by (simp add: lines_poll.shows_last_def)
  show "\<exists>st1 ps1. page_effects lines_key lines_deps lines_request ps st = (st1, ps1)
      \<and> (if ps1 = ps then page_commit lines_key lines_deps lines_request ps st = Some st1
         else \<exists>st2. page_effects lines_key lines_deps lines_request ps1 st1 = (st2, ps1)
                \<and> page_commit lines_key lines_deps lines_request ps st = Some st2)"
    by (rule lines_page.two_renders)
  show "\<exists>st'. page_commit lines_key lines_deps lines_request ps st = Some st'
      \<and> fp_address st' = (if lines_key ps = lines_key (fp_address st) then ps else first_page ps)
      \<and> pl_query (fp_poll st') = lines_request (fp_address st')"
    by (rule lines_page.session_commit [OF assms])
  note reach = lines_page.session_reachable [OF assms]
  show "\<exists>q r. pl_shown (fp_poll st) = Some (q, r) \<and> lines_shown (pl_state (fp_poll st)) = lines_answered r"
    if "pl_pending (fp_poll st) = []"
    using rest_answered [OF reach that] shows_last [OF reach] by fastforce
  show "\<exists>r. pl_shown w = Some (lines_request ps, r) \<and> lines_shown (pl_state w) = lines_answered r"
    if "pl_pending (fp_poll st) = [] \<and> page_commit lines_key lines_deps lines_request ps st = Some st'
        \<and> (lines_key ps = lines_key (fp_address st) \<or> first_page ps = ps) \<and> lines_deps ps \<noteq> lines_deps (fp_address st)
        \<and> rtranclp (poll_quiet (lines_answer t)) (fp_poll st') w \<and> pl_pending w = []" for st' w
  proof -
    note a = that [THEN conjunct1] and b = that [THEN conjunct2]
    note c = b [THEN conjunct1] b [THEN conjunct2, THEN conjunct1]
    note d = b [THEN conjunct2, THEN conjunct2]
    note f = d [THEN conjunct1] d [THEN conjunct2, THEN conjunct1] d [THEN conjunct2, THEN conjunct2]
    obtain r where r: "pl_shown w = Some (lines_request ps, r)" "poll_reachable False (lines_answer t) log_lines_init w"
      using lines_page.waited_for [OF assms a c f] by blast
    from r(1) shows_last [OF r(2,1)] show ?thesis by blast
  qed
qed

text \<open>A list on its third page, answered once.\<close>

definition sample_lines :: "(string list \<times> jsnum, log_search_params, api_error + log_row list_page, log_lines) filter_page" where
  "sample_lines = (page_mount lines_key lines_deps lines_request [(''page'', ''3'')] log_lines_init)
     \<lparr>fp_poll := (poll_mount (lines_request [(''page'', ''3'')]) log_lines_init)
        \<lparr>pl_state := lines_answer (\<lambda>k _. k) (Inr no_lines) log_lines_init, pl_pending := [],
         pl_shown := Some (lines_request [(''page'', ''3'')], Inr no_lines)\<rparr>\<rparr>"

lemma sample_lines_session: "page_session False (lines_answer (\<lambda>k _. k)) log_lines_init lines_key lines_deps lines_request sample_lines"
proof -
  let ?q = "lines_request [(''page'', ''3'')]"
  let ?m = "page_mount lines_key lines_deps lines_request [(''page'', ''3'')] log_lines_init
    :: (string list \<times> jsnum, log_search_params, api_error + log_row list_page, log_lines) filter_page"
  let ?w = "(fp_poll ?m)\<lparr>pl_state := lines_answer (\<lambda>k _. k) (Inr no_lines) (pl_state (fp_poll ?m)), pl_pending := [] @ [],
      pl_shown := Some (?q, Inr no_lines)\<rparr>"
  have p: "pl_pending (fp_poll ?m) = [] @ ?q # []" by (simp add: page_mount_def poll_mount_def poll_send_def)
  have "poll_step False (lines_answer (\<lambda>k _. k)) (fp_poll ?m) ?w" by (rule poll_step.answer [OF p]) simp
  then have "page_session False (lines_answer (\<lambda>k _. k)) log_lines_init lines_key lines_deps lines_request (?m\<lparr>fp_poll := ?w\<rparr>)"
    by (rule page_session.network [OF page_session.open_page]) simp
  moreover have "?m\<lparr>fp_poll := ?w\<rparr> = sample_lines" by (simp add: sample_lines_def page_mount_def poll_mount_def poll_send_def)
  ultimately show ?thesis by (simp only:)
qed

lemma lines_follow_address_witness:
  "(\<exists>st'. page_commit lines_key lines_deps lines_request [(''q'', ''oom''), (''page'', ''3'')] sample_lines = Some st'
      \<and> fp_address st' = [(''q'', ''oom'')])
    \<and> (\<exists>q r. pl_shown (fp_poll sample_lines) = Some (q, r) \<and> lines_shown (pl_state (fp_poll sample_lines)) = lines_answered r)"
proof -
  have "lines_key [(''q'', ''oom''), (''page'', ''3'')] \<noteq> lines_key (fp_address sample_lines)"
    by (simp add: sample_lines_def page_mount_def lines_key_def lines_filter_key_def log_filters_def query_value_def params_get_def)
  moreover have "first_page [(''q'', ''oom''), (''page'', ''3'')] = [(''q'', ''oom'')]"
    by (simp add: first_page_def query_set_def query_patch_def elided_def params_delete_def)
  moreover have "pl_pending (fp_poll sample_lines) = []" by (simp add: sample_lines_def page_mount_def)
  ultimately show ?thesis
    using lines_follow_address [OF sample_lines_session, of "[(''q'', ''oom''), (''page'', ''3'')]"] by auto
qed

text \<open>When the address changes while a search is out, an older search can have the last word (see the findings).\<close>

lemma stale_lines_can_win:
  "\<exists>w. poll_reachable False (lines_answer t) log_lines_init w \<and> pl_pending w = []
     \<and> pl_query w = ''new'' \<and> pl_shown w = Some (''old'', Inr old_page) \<and> ll_error (pl_state w) = None
     \<and> ll_result (pl_state w) = old_page"
  using poll_overtaken [of "lines_answer t" log_lines_init "''new''" "''old''" "Inr old_page" "Inr no_lines"]
  by (auto simp: lines_answer_def)

end
