(* ===== verification/Containers.thy ===== *)
theory Containers
  imports Groups_Panel Charts Logs
begin

text \<open>
  \<open>pages/containers.tsx\<close>: the rows joined from the workloads and the fleet, their counts, the grid
  and the table, the polled load of four requests at once, the members of the chosen group, and
  the address updates. The members are asked for without a guard, so an answer is applied
  whenever it comes.
\<close>

definition GRID_LIMIT :: nat where
  "GRID_LIMIT = 40"

record container_row =
  r_container :: string
  r_workload :: "workload_snapshot option"
  r_status :: "container_fleet_status option"

subsection \<open>State and loads\<close>

record containers_page =
  ct_workloads :: "workload_snapshot list"
  ct_fleet :: "fleet_status_response option"
  ct_cpu :: "container_series list"
  ct_mem :: "container_series list"
  ct_groups :: "workload_group list"
  ct_members :: "string list option"
  ct_loading :: bool
  ct_error :: "string option"

definition containers_init :: containers_page where
  "containers_init = \<lparr>ct_workloads = [], ct_fleet = None, ct_cpu = [], ct_mem = [], ct_groups = [],
     ct_members = None, ct_loading = True, ct_error = None\<rparr>"

definition empty_series :: metric_series_response where
  "empty_series = \<lparr>m_metric_name = [], m_series = Some []\<rparr>"

type_synonym containers_data =
  "workload_snapshot list \<times> fleet_status_response \<times> metric_series_response \<times> metric_series_response"

definition containers_request ::
  "workload_snapshot body fetch \<Rightarrow> fleet_status_response fetch \<Rightarrow> metric_series_response fetch \<Rightarrow> string
     \<Rightarrow> string \<Rightarrow> bool \<Rightarrow> api_error + containers_data" where
  "containers_request wfetch ffetch mfetch base since withSeries =
     both (listWorkloads wfetch base (Some ''30m''))
       (both (fetchFleetStatus ffetch base)
         (both (if withSeries then fetchMetricSeries mfetch base ''cpu.usage'' (Some since) None None else Inr empty_series)
               (if withSeries then fetchMetricSeries mfetch base ''memory.usage_pct'' (Some since) None None
                else Inr empty_series)))"

definition containers_answer :: "translate \<Rightarrow> api_error + containers_data \<Rightarrow> containers_page \<Rightarrow> containers_page" where
  "containers_answer t r st =
     (case r of
        Inr (wl, fl, cpu, mem) \<Rightarrow>
          st\<lparr>ct_workloads := wl, ct_fleet := Some fl, ct_cpu := coalesce (m_series cpu) [],
             ct_mem := coalesce (m_series mem) [], ct_error := None\<rparr>
      | Inl _ \<Rightarrow> st\<lparr>ct_error := Some (t ''containers.loadError'' [])\<rparr>)\<lparr>ct_loading := False\<rparr>"

definition groups_loaded :: "api_error + workload_group list \<Rightarrow> containers_page \<Rightarrow> containers_page" where
  "groups_loaded r st = st\<lparr>ct_groups := (case r of Inr gs \<Rightarrow> gs | Inl _ \<Rightarrow> [])\<rparr>"

text \<open>The effect of the group: no group, no members; otherwise what it asks for.\<close>

definition members_effect :: "string \<Rightarrow> containers_page \<Rightarrow> containers_page \<times> string option" where
  "members_effect grp st = (if grp = [] then (st\<lparr>ct_members := None\<rparr>, None) else (st, Some grp))"

definition summary_members :: "api_error + workload_group_summary \<Rightarrow> string list" where
  "summary_members r = (case r of Inr s \<Rightarrow> firsts (map w_container (gs_members s)) | Inl _ \<Rightarrow> [])"

definition members_answer :: "api_error + workload_group_summary \<Rightarrow> containers_page \<Rightarrow> containers_page" where
  "members_answer r st = st\<lparr>ct_members := Some (summary_members r)\<rparr>"

subsection \<open>What the page derives\<close>

definition row_unstable :: "container_row \<Rightarrow> bool" where
  "row_unstable r = (case r_status r of Some s \<Rightarrow> isUnstable s | None \<Rightarrow> False)"

definition row_cpu :: "container_row \<Rightarrow> jsnum" where
  "row_cpu r = (case r_workload r of Some w \<Rightarrow> cpu_usage w | None \<Rightarrow> 0)"

definition rows_by_name ::
  "workload_snapshot list \<Rightarrow> container_fleet_status list \<Rightarrow> (string \<times> container_row) list" where
  "rows_by_name workloads fleet =
     (let byName = foldl (\<lambda>m w. map_set (w_container w)
            \<lparr>r_container = w_container w, r_workload = Some w, r_status = None\<rparr> m) [] workloads
      in foldl (\<lambda>m s.
           let row = coalesce (map_get m (f_container s))
                       \<lparr>r_container = f_container s, r_workload = None, r_status = None\<rparr>
           in map_set (f_container s) (row\<lparr>r_status := Some s\<rparr>) m) byName fleet)"

definition row_order :: "container_row \<Rightarrow> container_row \<Rightarrow> jsnum" where
  "row_order a b =
     (let ua = (if row_unstable a then 1 else 0); ub = (if row_unstable b then 1 else 0)
      in if ua \<noteq> ub then num_of_int (ub - ua) else row_cpu b - row_cpu a)"

definition fleet_rows :: "containers_page \<Rightarrow> container_fleet_status list" where
  "fleet_rows st = (case ct_fleet st of Some f \<Rightarrow> coalesce (fr_containers f) [] | None \<Rightarrow> [])"

definition container_rows :: "containers_page \<Rightarrow> string \<Rightarrow> container_row list" where
  "container_rows st flt =
     (let lst = map_values (rows_by_name (ct_workloads st) (fleet_rows st));
          lst = (case ct_members st of Some ms \<Rightarrow> filter (\<lambda>r. r_container r \<in> set ms) lst | None \<Rightarrow> lst);
          lst = (if flt = ''unstable'' then filter row_unstable lst else lst)
      in js_sort row_order lst)"

record counts_of_rows =
  cc_running :: int
  cc_unstable :: int
  cc_stopped :: int
  cc_restarts :: int

definition row_state :: "container_row \<Rightarrow> string option" where
  "row_state r = map_option (\<lambda>s. to_lower (f_state s)) (r_status r)"

definition count_row :: "counts_of_rows \<Rightarrow> container_row \<Rightarrow> counts_of_rows" where
  "count_row c r =
     (let state = row_state r in
      \<lparr>cc_running = cc_running c + (if state = Some ''running'' then 1 else 0),
       cc_unstable = cc_unstable c + (if row_unstable r then 1 else 0),
       cc_stopped = cc_stopped c + (if state = Some ''exited'' \<or> state = Some ''dead'' then 1 else 0),
       cc_restarts = cc_restarts c + (case r_status r of Some s \<Rightarrow> restart_count s | None \<Rightarrow> 0)\<rparr>)"

definition container_counts :: "container_row list \<Rightarrow> counts_of_rows" where
  "container_counts rows = foldl count_row \<lparr>cc_running = 0, cc_unstable = 0, cc_stopped = 0, cc_restarts = 0\<rparr> rows"

definition series_by_name :: "container_series list \<Rightarrow> (string \<times> series_point list) list" where
  "series_by_name series = foldl (\<lambda>m s. map_set (s_container s) (coalesce (s_points s) []) m) [] series"

definition stacked_cpu :: "container_row list \<Rightarrow> container_series list \<Rightarrow> container_series list" where
  "stacked_cpu rows cpuSeries =
     (let top = map r_container (slice 0 8
            (js_sort (\<lambda>a b. row_cpu b - row_cpu a) (filter (\<lambda>r. r_workload r \<noteq> None) rows)))
      in filter (\<lambda>s. s_container s \<in> set top) cpuSeries)"

definition with_workload :: "container_row list \<Rightarrow> container_row list" where
  "with_workload rows = filter (\<lambda>r. r_workload r \<noteq> None) rows"

definition all_containers :: "containers_page \<Rightarrow> string list" where
  "all_containers st = sort (map w_container (ct_workloads st))"

subsection \<open>Actions and address\<close>

datatype containers_action =
    Ct_Group | Ct_Window picker_action | Open_Groups | Set_View string | Show_All | Ct_Page jsnum
  | Ct_Reload | Groups_Sheet groups_action

definition set_panel :: "bool \<Rightarrow> params \<Rightarrow> params" where
  "set_panel shown ps = query_set ''panel'' [] (if shown then ''groups'' else []) ps"

fun containers_query :: "env \<Rightarrow> jsnum \<Rightarrow> picker \<Rightarrow> containers_action \<Rightarrow> string \<Rightarrow> params \<Rightarrow> params" where
  "containers_query e now pk Ct_Group typed ps = query_set ''group'' [] typed ps"
| "containers_query e now pk (Ct_Window a) typed ps =
     (case snd (picker_step e now typed a pk) of Some v \<Rightarrow> query_set ''since'' ''1h'' v ps | None \<Rightarrow> ps)"
| "containers_query e now pk Open_Groups typed ps = query_set ''panel'' [] ''groups'' ps"
| "containers_query e now pk (Set_View v) typed ps = query_set ''view'' ''grid'' v ps"
| "containers_query e now pk Show_All typed ps = query_set ''filter'' [] [] ps"
| "containers_query e now pk (Ct_Page n) typed ps = query_set ''page'' ''1'' (num_string n) ps"
| "containers_query e now pk (Groups_Sheet (Sheet_Open b)) typed ps = set_panel b ps"
| "containers_query e now pk _ typed ps = ps"

text \<open>What the panel of groups asks of the page (the rest of what it asks goes to the hub).\<close>

fun groups_request_query :: "groups_request \<Rightarrow> params \<Rightarrow> params" where
  "groups_request_query (Select_Group_Id i) ps = query_set ''group'' [] i ps"
| "groups_request_query _ ps = ps"

definition containers_filter_key :: "params \<Rightarrow> string" where
  "containers_filter_key ps = query_value ''group'' [] ps @ ''|'' @ query_value ''filter'' [] ps"

subsection \<open>Views\<close>

definition empty_rows :: "translate \<Rightarrow> bool \<Rightarrow> 'h ui" where
  "empty_rows t filtered = el ''p'' [Text (if filtered then t ''containers.empty'' [] else t ''containers.emptyAgent'' [])]"

definition state_cell :: "translate \<Rightarrow> container_row \<Rightarrow> 'h ui" where
  "state_cell t row =
     (let state = row_state row; disp = (case r_status row of Some s \<Rightarrow> disposition s | None \<Rightarrow> None) in
      if truthy_str disp then
        badge (if disp = Some ''intentional'' then ''outline'' else ''destructive'') (stateLabel t (the disp))
      else if truthy_str state then badge (stateVariant (the state)) (stateLabel t (the state))
      else Text dash)"

definition cpu_cell :: "env \<Rightarrow> container_row \<Rightarrow> 'h ui" where
  "cpu_cell e row =
     (case r_workload row of
        Some w \<Rightarrow> badge (if cpu_usage w > Fin 80 then ''destructive'' else ''secondary'')
          (if cpu_usage w > Fin 80 then tr e ''containers.cpuHigh'' [(''pct'', TStr (formatPercent e (cpu_usage w) 1))]
           else formatPercent e (cpu_usage w) 1)
      | None \<Rightarrow> Text dash)"

definition memory_text :: "env \<Rightarrow> workload_snapshot \<Rightarrow> string" where
  "memory_text e w =
     (if memory_limit w > 0
      then tr e ''card.memoryOf'' [(''used'', TStr (formatBytes e (memory_usage w))),
                                  (''limit'', TStr (formatBytes e (memory_limit w)))]
      else formatBytes e (memory_usage w))"

definition container_row_view :: "env \<Rightarrow> container_row \<Rightarrow> containers_action ui" where
  "container_row_view e row =
     (let t = tr e; status = r_status row; unstable = row_unstable row;
          many = (case status of Some s \<Rightarrow> restart_count s > 3 | None \<Rightarrow> False)
      in El ''TableRow'' [(''unstable'', ABool unstable)]
       [el ''TableCell'' [Text (r_container row)],
        el ''TableCell'' [state_cell t row],
        el ''TableCell'' [cpu_cell e row],
        el ''TableCell'' [Text (case r_workload row of Some w \<Rightarrow> memory_text e w | None \<Rightarrow> dash)],
        El ''TableCell'' [(''tone'', AStr (if many then textTone Tone_Warning else []))]
          (Text (case status of Some s \<Rightarrow> int_string (restart_count s) | None \<Rightarrow> dash)
           # opt many (el ''span'' [Text (t ''severity.warning'' [])])),
        el ''TableCell'' [Text (case status of Some s \<Rightarrow> if unstable then instabilityReason t s else dash | None \<Rightarrow> dash)],
        el ''TableCell''
          [link (''/metrics?container='' @ encodeURIComponent (r_container row)) [Text (t ''containers.metricsLink'' [])],
           link (''/logs?container='' @ encodeURIComponent (r_container row)) [Text (t ''containers.logsLink'' [])]]])"

definition count_or_dash :: "int \<Rightarrow> string" where
  "count_or_dash n = (if n = 0 then dash else int_string n)"

definition replicas_section :: "translate \<Rightarrow> service_replica_status list \<Rightarrow> containers_action ui" where
  "replicas_section t services = el ''section''
     [el ''h2'' [Text (t ''containers.replicasByService'' [])],
      el ''Table''
       [table_header [t ''common.service'' [], t ''containers.replicasUp'' [], t ''containers.restarting'' [],
                      t ''containers.healthFailing'' []],
        el ''TableBody'' (map (\<lambda>s. el ''TableRow''
          [el ''TableCell'' [Text (sr_service s)],
           el ''TableCell'' [Text (t ''containers.replicasValue''
             [(''up'', TInt (sr_replicas_up s)), (''total'', TInt (sr_replicas_total s))])],
           el ''TableCell'' [Text (count_or_dash (sr_restarting s))],
           el ''TableCell'' [Text (count_or_dash (sr_unhealthy s))]]) services)]]"

text \<open>The card of the containers with issues leads to the table of just those.\<close>

definition unstable_link :: "string \<Rightarrow> string" where
  "unstable_link grp = ''/containers?'' @ params_string
     ((if grp \<noteq> [] then [(''group'', grp)] else []) @ [(''filter'', ''unstable''), (''view'', ''table'')])"

definition count_cards :: "translate \<Rightarrow> string \<Rightarrow> string \<Rightarrow> counts_of_rows \<Rightarrow> bool \<Rightarrow> containers_action ui" where
  "count_cards t grp flt c loading =
     (let seeThose = (cc_unstable c > 0 \<and> flt \<noteq> ''unstable'') in
      el ''div''
       [stat_card t (t ''containers.running'' []) (int_string (cc_running c)) Tone_Default None None loading,
        stat_card t (t ''containers.withIssues'' []) (int_string (cc_unstable c))
          (if cc_unstable c > 0 then Tone_Critical else Tone_Default)
          (if seeThose then Some (t ''containers.seeThose'' []) else None)
          (if seeThose then Some (unstable_link grp) else None) loading,
        stat_card t (t ''containers.stopped'' []) (int_string (cc_stopped c)) Tone_Default None None loading,
        stat_card t (t ''containers.restarts'' []) (int_string (cc_restarts c))
          (if cc_restarts c > 10 then Tone_Warning else Tone_Default) None None loading])"

definition grid_view :: "env \<Rightarrow> string \<Rightarrow> string \<Rightarrow> container_row list \<Rightarrow> containers_page \<Rightarrow> containers_action ui" where
  "grid_view e grp flt rows st =
     (let t = tr e; loading = ct_loading st; withW = with_workload rows; gridRows = slice 0 GRID_LIMIT withW;
          top = stacked_cpu rows (ct_cpu st); cpu = series_by_name (ct_cpu st); mem = series_by_name (ct_mem st)
      in el ''div''
       ([stacked_area_chart e (t ''containers.cpuTopTitle'' [])
           (Some (t ''containers.cpuTopOf'' [(''shown'', TInt (int (length top))), (''total'', TInt (int (length withW)))]))
           top loading ''%'' None None,
         el ''div''
          (if loading then replicate 6 skeleton
           else map (\<lambda>r. container_metric_card e (the (r_workload r)) (r_status r)
                  (coalesce (map_get cpu (r_container r)) []) (coalesce (map_get mem (r_container r)) [])) gridRows)]
        @ opt (\<not> loading \<and> gridRows = []) (empty_rows t (grp \<noteq> [] \<or> flt \<noteq> []))
        @ opt (length withW > length gridRows)
            (el ''p'' [Text (t ''containers.gridShows'' [(''shown'', TInt (int (length gridRows))), (''total'', TInt (int (length withW)))]),
                     Text '' '', El ''button'' [(''onClick'', AHandler (Set_View ''table''))] [Text (t ''containers.seeAllTable'' [])]])))"

definition table_view :: "env \<Rightarrow> params \<Rightarrow> container_row list \<Rightarrow> containers_page \<Rightarrow> containers_action ui" where
  "table_view e ps rows st =
     (let t = tr e; grp = query_value ''group'' [] ps; flt = query_value ''filter'' [] ps;
          tablePage = pageSlice rows (log_page ps) PAGE_SIZE
      in el ''div''
       ([el ''Table''
          [table_header [t ''common.container'' [], t ''containers.state'' [], t ''containers.cpu'' [], t ''containers.memory'' [],
                         t ''containers.restarts'' [], t ''containers.attention'' [], t ''containers.actions'' []],
           el ''TableBody''
            (if ct_loading st \<and> rows = [] then [el ''TableRow'' [el ''TableCell'' [skeleton]]]
             else if rows = [] then [el ''TableRow'' [el ''TableCell'' [empty_rows t (grp \<noteq> [] \<or> flt \<noteq> [])]]]
             else map (container_row_view e) (ps_rows tablePage))],
         list_pager t (ps_start tablePage) (ps_end tablePage) (ps_total tablePage) (ps_page tablePage) PAGE_SIZE False Ct_Page]
        @ (case ct_fleet st of
             Some f \<Rightarrow> opt (fr_services f \<noteq> [] \<and> grp = []) (replicas_section t (fr_services f))
           | None \<Rightarrow> [])))"

definition containers_view ::
  "env \<Rightarrow> params \<Rightarrow> picker \<Rightarrow> groups_panel \<Rightarrow> containers_page \<Rightarrow> containers_action ui" where
  "containers_view e ps pk gp st =
     (let t = tr e; view = query_value ''view'' ''grid'' ps; grp = query_value ''group'' [] ps;
          flt = query_value ''filter'' [] ps; rows = container_rows st flt
      in el ''div''
       ([page_header (t ''containers.title'' []) None
          [map_ui (\<lambda>_. Ct_Group) (group_select t grp False (Some (ct_groups st)) group_select_init),
           map_ui Ct_Window (time_range_picker e (query_value ''since'' ''1h'' ps) pk),
           button False Open_Groups (t ''containers.manageGroups'' []),
           El ''Tabs'' [(''value'', AStr view)]
            [El ''TabsList'' [(''aria-label'', AStr (t ''containers.view'' []))]
              [El ''TabsTrigger'' [(''value'', AStr ''grid''), (''onSelect'', AHandler (Set_View ''grid''))] [Text (t ''containers.grid'' [])],
               El ''TabsTrigger'' [(''value'', AStr ''table''), (''onSelect'', AHandler (Set_View ''table''))] [Text (t ''containers.table'' [])]]]]]
        @ opt (truthy_str (ct_error st)) (load_error t (the (ct_error st)) (Some Ct_Reload))
        @ [count_cards t grp flt (container_counts rows) (ct_loading st)]
        @ opt (flt = ''unstable'') (el ''div'' [el ''span'' [Text (t ''containers.unstableBanner'' [])],
            button False Show_All (t ''containers.showAll'' [])])
        @ [if view = ''grid'' then grid_view e grp flt rows st else table_view e ps rows st,
           map_ui Groups_Sheet (groups_view t (query_value ''panel'' [] ps = ''groups'') (ct_groups st)
             (all_containers st) grp gp)]))"

subsection \<open>The rows\<close>

text \<open>The last entry of a list with a name, and the row that belongs to a name.\<close>

definition last_named :: "('a \<Rightarrow> string) \<Rightarrow> string \<Rightarrow> 'a list \<Rightarrow> 'a option" where
  "last_named key k xs = (let ys = filter (\<lambda>x. key x = k) xs in if ys = [] then None else Some (last ys))"

definition row_for :: "containers_page \<Rightarrow> string \<Rightarrow> container_row" where
  "row_for st n = \<lparr>r_container = n, r_workload = last_named w_container n (ct_workloads st),
     r_status = last_named f_container n (fleet_rows st)\<rparr>"

lemma fold_last: "foldl (\<lambda>v x. Some (g x)) v xs = (if xs = [] then v else Some (g (last xs)))"
  by (induction xs rule: rev_induct) auto

lemma last_key: "filter (\<lambda>x. key x = k) xs \<noteq> [] \<Longrightarrow> key (last (filter (\<lambda>x. key x = k) xs)) = k"
  using last_in_set by fastforce

lemma fold_status:
  "\<forall>s\<in>set xs. f_container s = k \<Longrightarrow>
   foldl (\<lambda>v s. Some ((coalesce v \<lparr>r_container = f_container s, r_workload = None, r_status = None\<rparr>)\<lparr>r_status := Some s\<rparr>)) v xs
     = (if xs = [] then v
        else Some ((coalesce v \<lparr>r_container = k, r_workload = None, r_status = None\<rparr>)\<lparr>r_status := Some (last xs)\<rparr>))"
  by (induction xs rule: rev_induct) auto

lemma rows_by_name_upsert:
  "rows_by_name wl fl = js_map.upsert_all f_container
     (\<lambda>s old. (coalesce old \<lparr>r_container = f_container s, r_workload = None, r_status = None\<rparr>)\<lparr>r_status := Some s\<rparr>) fl
     (js_map.upsert_all w_container (\<lambda>w _. \<lparr>r_container = w_container w, r_workload = Some w, r_status = None\<rparr>) wl [])"
  by (simp add: rows_by_name_def js_map.upsert_all_def Let_def)

lemma rows_by_name_keys:
  "distinct (map_keys (rows_by_name wl fl))"
  "set (map_keys (rows_by_name wl fl)) = w_container ` set wl \<union> f_container ` set fl"
  unfolding rows_by_name_upsert
  by (intro js_map.distinct_keys_upsert) (auto simp: js_map.keys_upsert js_map.keys_empty set_firsts_from)

lemma rows_by_name_get:
  assumes "k \<in> w_container ` set wl \<union> f_container ` set fl"
  shows "map_get (rows_by_name wl fl) k
    = Some \<lparr>r_container = k, r_workload = last_named w_container k wl, r_status = last_named f_container k fl\<rparr>"
proof -
  let ?ws = "filter (\<lambda>w. w_container w = k) wl" and ?fs = "filter (\<lambda>s. f_container s = k) fl"
  have "?ws \<noteq> [] \<or> ?fs \<noteq> []" using assms by (auto simp: filter_empty_conv)
  moreover have "w_container (last ?ws) = k" if "?ws \<noteq> []" using that by (rule last_key)
  ultimately show ?thesis
    unfolding rows_by_name_upsert js_map.lookup_upsert fold_last
    by (subst fold_status [where k = k]) (auto simp: last_named_def Let_def map_get_def)
qed

lemma row_values:
  "map_values (rows_by_name (ct_workloads st) (fleet_rows st))
     = map (row_for st) (map_keys (rows_by_name (ct_workloads st) (fleet_rows st)))"
  unfolding map_values_get [OF rows_by_name_keys(1)]
  by (rule map_cong [OF refl]) (simp add: rows_by_name_get rows_by_name_keys(2) row_for_def)

definition known_names :: "containers_page \<Rightarrow> string set" where
  "known_names st = w_container ` set (ct_workloads st) \<union> f_container ` set (fleet_rows st)"

lemma container_rows_members:
  "r \<in> set (container_rows st flt) \<longleftrightarrow>
     (\<exists>n\<in>known_names st. r = row_for st n \<and> (\<forall>ms. ct_members st = Some ms \<longrightarrow> n \<in> set ms)
        \<and> (flt = ''unstable'' \<longrightarrow> row_unstable r))"
  by (auto simp: container_rows_def row_values rows_by_name_keys known_names_def Let_def row_for_def split: option.split)

lemma map_container_row_for: "map r_container (map (row_for st) ns) = ns"
  by (induction ns) (simp_all add: row_for_def)

lemma container_rows_distinct: "distinct (map r_container (container_rows st flt))"
proof -
  have "distinct (map r_container (map_values (rows_by_name (ct_workloads st) (fleet_rows st))))"
    unfolding row_values map_container_row_for by (rule rows_by_name_keys)
  then show ?thesis
    by (simp add: container_rows_def Let_def distinct_map_filter split: option.split)
qed

text \<open>The order: the unstable rows first, among equals the busier one.\<close>

definition row_before :: "container_row \<Rightarrow> container_row \<Rightarrow> bool" where
  "row_before a b \<longleftrightarrow> (row_unstable b \<longrightarrow> row_unstable a)
     \<and> (row_unstable a = row_unstable b \<longrightarrow> \<not> row_cpu a < row_cpu b)"

lemma row_order_iff:
  assumes "is_double (row_cpu a)" "is_double (row_cpu b)"
  shows "\<not> 0 < row_order a b \<longleftrightarrow> row_before a b"
  using sign_minus_double [OF assms(2,1)]
  by (auto simp: row_order_def row_before_def num_of_int_pos Let_def)

interpretation rows_cmp: js_comparator row_order "\<lambda>r. is_double (row_cpu r)"
proof unfold_locales
  fix x y z
  assume d: "is_double (row_cpu x)" "is_double (row_cpu y)"
  show "0 < row_order x y \<Longrightarrow> \<not> 0 < row_order y x"
    using row_order_iff [OF d] row_order_iff [OF d(2,1)] d
    by (auto simp: row_before_def is_double_def split: jsnum.splits)
  assume e: "is_double (row_cpu z)"
  show "\<not> 0 < row_order x y \<Longrightarrow> \<not> 0 < row_order y z \<Longrightarrow> \<not> 0 < row_order x z"
    unfolding row_order_iff [OF d] row_order_iff [OF d(2) e] row_order_iff [OF d(1) e]
    using d e by (auto simp: row_before_def is_double_def split: jsnum.splits)
qed

lemma row_cpu_double:
  assumes "\<forall>w\<in>set (ct_workloads st). is_double (cpu_usage w)"
  shows "is_double (row_cpu (row_for st n))"
proof (cases "filter (\<lambda>w. w_container w = n) (ct_workloads st) = []")
  case True
  then show ?thesis by (simp add: row_cpu_def row_for_def last_named_def is_double_def)
next
  case False
  then have "last (filter (\<lambda>w. w_container w = n) (ct_workloads st)) \<in> set (ct_workloads st)"
    by (metis filter_is_subset last_in_set subsetD)
  with False assms show ?thesis by (simp add: row_cpu_def row_for_def last_named_def)
qed

lemma container_rows_sorted:
  assumes "\<forall>w\<in>set (ct_workloads st). is_double (cpu_usage w)"
  shows "sorted_wrt row_before (container_rows st flt)"
proof -
  have d: "is_double (row_cpu r)" if "r \<in> set (container_rows st flt)" for r
    using that row_cpu_double [OF assms] by (auto simp: container_rows_members)
  obtain lst where l: "container_rows st flt = js_sort row_order lst" by (simp add: container_rows_def Let_def)
  have "\<forall>r\<in>set lst. is_double (row_cpu r)" using d unfolding l by simp
  then have "sorted_wrt (\<lambda>a b. \<not> 0 < row_order a b) (container_rows st flt)"
    unfolding l by (rule rows_cmp.sorted_js_sort)
  then show ?thesis
    by (rule sorted_wrt_mono_rel [rotated]) (use d row_order_iff in blast)
qed

subsection \<open>The counts\<close>

lemma foldl_counts:
  "foldl count_row c rows =
     \<lparr>cc_running = cc_running c + int (length (filter (\<lambda>r. row_state r = Some ''running'') rows)),
      cc_unstable = cc_unstable c + int (length (filter row_unstable rows)),
      cc_stopped = cc_stopped c + int (length (filter (\<lambda>r. row_state r = Some ''exited'' \<or> row_state r = Some ''dead'') rows)),
      cc_restarts = cc_restarts c + (\<Sum>r\<leftarrow>rows. case r_status r of Some s \<Rightarrow> restart_count s | None \<Rightarrow> 0)\<rparr>"
  by (induction rows arbitrary: c) (simp_all add: count_row_def Let_def)

lemma counts_unstable: "cc_unstable (container_counts rows) = int (length (filter row_unstable rows))"
  by (simp add: container_counts_def foldl_counts)

lemma filter_js_sort_length: "length (filter P (js_sort cmp xs)) = length (filter P xs)"
  by (metis mset_filter mset_js_sort size_mset)

lemma unstable_rows_count:
  "length (filter row_unstable (container_rows st flt)) = length (container_rows st ''unstable'')"
  by (simp add: container_rows_def Let_def filter_js_sort_length)

subsection \<open>Properties\<close>

text \<open>C5. The rows of the page: every container that the workloads or the fleet name, and that the
  group and the filter let through, is shown exactly once, with its last workload and its last
  status; the unstable ones come first, and among equals the one that uses more CPU.\<close>

theorem container_rows_functional:
  assumes "\<forall>w\<in>set (ct_workloads st). is_double (cpu_usage w)"
  shows "set (container_rows st flt) =
      {r. \<exists>n\<in>known_names st. r = row_for st n \<and> (\<forall>ms. ct_members st = Some ms \<longrightarrow> n \<in> set ms)
            \<and> (flt = ''unstable'' \<longrightarrow> row_unstable r)}
    \<and> distinct (map r_container (container_rows st flt))
    \<and> sorted_wrt row_before (container_rows st flt)"
  using container_rows_members container_rows_distinct container_rows_sorted [OF assms] by blast

definition sample_workload :: "string \<Rightarrow> jsnum \<Rightarrow> workload_snapshot" where
  "sample_workload c cpu = \<lparr>w_container = c, w_entity_uid = ''docker:'' @ c, w_stack = None, w_service = None,
     w_labels = None, cpu_usage = cpu, memory_usage = 0, memory_limit = 0, w_updated_at = []\<rparr>"

lemma container_rows_functional_witness:
  "distinct (map r_container (container_rows
     (containers_init\<lparr>ct_workloads := [sample_workload ''a'' (Fin 1), sample_workload ''b'' (Fin 2), sample_workload ''a'' (Fin 3)]\<rparr>) []))"
  using container_rows_functional
    [of "containers_init\<lparr>ct_workloads := [sample_workload ''a'' (Fin 1), sample_workload ''b'' (Fin 2), sample_workload ''a'' (Fin 3)]\<rparr>" "[]"]
    rep_of_int [of 1] rep_of_int [of 2] rep_of_int [of 3]
  by (simp add: sample_workload_def is_double_def)

text \<open>C37. The number on the card of containers with issues is the number of rows on the page the card
  leads to, whatever filter is in force, and that page keeps the group.\<close>

theorem issues_card_leads_to_its_rows:
  "cc_unstable (container_counts (container_rows st flt)) = int (length (container_rows st ''unstable''))
   \<and> (\<exists>ps. unstable_link grp = ''/containers?'' @ params_string ps
        \<and> parse_query (params_string ps) = Some ps
        \<and> query_value ''filter'' [] ps = ''unstable'' \<and> query_value ''view'' ''grid'' ps = ''table''
        \<and> query_value ''group'' [] ps = grp)"
proof
  show "cc_unstable (container_counts (container_rows st flt)) = int (length (container_rows st ''unstable''))"
    by (simp add: counts_unstable unstable_rows_count)
  let ?ps = "(if grp \<noteq> [] then [(''group'', grp)] else []) @ [(''filter'', ''unstable''), (''view'', ''table'')]"
  show "\<exists>ps. unstable_link grp = ''/containers?'' @ params_string ps
        \<and> parse_query (params_string ps) = Some ps
        \<and> query_value ''filter'' [] ps = ''unstable'' \<and> query_value ''view'' ''grid'' ps = ''table''
        \<and> query_value ''group'' [] ps = grp"
    by (rule exI [of _ ?ps]) (simp add: unstable_link_def parse_params_string query_value_def params_get_def)
qed

text \<open>The members are not guarded: an answer for a group that is no longer chosen filters the rows
  although no group is in force (see the findings).\<close>

lemma stale_members_filter_rows:
  "ct_members (members_answer r (fst (members_effect [] (fst (members_effect grp st))))) = Some (summary_members r)"
  by (simp add: members_answer_def)

end
