(* ===== verification/Container_Metrics.thy ===== *)
theory Container_Metrics
  imports Groups_Panel Charts Observability Run_Guard Containers
begin

text \<open>
  \<open>views/container-metrics.tsx\<close>: the metrics of one container. An effect chooses a container
  when the address names none; a load asks for nine series at once and takes them only if all
  arrive; leaving the container or asking again cancels the load before.
\<close>

subsection \<open>Which containers, and the default\<close>

definition selectable :: "workload_snapshot list \<Rightarrow> string list option \<Rightarrow> string list" where
  "selectable workloads members =
     sort (map w_container
       (filter (\<lambda>w. case members of None \<Rightarrow> True | Some ms \<Rightarrow> w_container w \<in> set ms) workloads))"

text \<open>\<open>b.cpu_usage - a.cpu_usage || b.memory_usage - a.memory_usage\<close>\<close>

definition load_order :: "workload_snapshot \<Rightarrow> workload_snapshot \<Rightarrow> jsnum" where
  "load_order a b =
     (let d = cpu_usage b - cpu_usage a in if truthy_num d then d else memory_usage b - memory_usage a)"

definition busiest :: "workload_snapshot list \<Rightarrow> string list \<Rightarrow> workload_snapshot option" where
  "busiest workloads containers =
     (case js_sort load_order (filter (\<lambda>w. w_container w \<in> set containers) workloads) of
        [] \<Rightarrow> None | w # _ \<Rightarrow> Some w)"

text \<open>The effect: what it changes in the address, None when it does nothing.\<close>

definition default_container ::
  "string \<Rightarrow> string \<Rightarrow> string list \<Rightarrow> workload_snapshot list \<Rightarrow> patch option" where
  "default_container selected service containers workloads =
     (if selected \<noteq> [] \<or> containers = [] then None
      else
        let byService = (if service \<noteq> []
              then List.find (\<lambda>w. matchesService (w_container w) (w_service w) service) workloads else None)
        in Some [(''container'', Some (coalesce (map_option w_container byService)
                    (coalesce (map_option w_container (busiest workloads containers)) (hd containers)))),
                 (''service'', None)])"

definition default_effect :: "workload_snapshot list \<Rightarrow> string list option \<Rightarrow> params \<Rightarrow> params option" where
  "default_effect workloads members ps =
     map_option (\<lambda>p. query_patch p [] ps)
       (default_container (query_value ''container'' [] ps) (query_value ''service'' [] ps)
          (selectable workloads members) workloads)"

subsection \<open>The load\<close>

record metric_points =
  mp_cpu :: "series_point list"
  mp_mem :: "series_point list"
  mp_memPct :: "series_point list"
  mp_httpLatency :: "series_point list"
  mp_httpErrors :: "series_point list"
  mp_netRx :: "series_point list"
  mp_netTx :: "series_point list"
  mp_blkRead :: "series_point list"
  mp_blkWrite :: "series_point list"

definition no_points :: metric_points where
  "no_points = \<lparr>mp_cpu = [], mp_mem = [], mp_memPct = [], mp_httpLatency = [], mp_httpErrors = [], mp_netRx = [],
     mp_netTx = [], mp_blkRead = [], mp_blkWrite = []\<rparr>"

record container_metrics =
  cm_series :: metric_points
  cm_loading :: bool
  cm_error :: "string option"
  cm_attempt :: nat
  cm_run :: nat

definition container_metrics_init :: container_metrics where
  "container_metrics_init = \<lparr>cm_series = no_points, cm_loading = False, cm_error = None, cm_attempt = 0, cm_run = 0\<rparr>"

definition first_points :: "metric_series_response \<Rightarrow> series_point list" where
  "first_points r = (case coalesce (m_series r) [] of [] \<Rightarrow> [] | s # _ \<Rightarrow> coalesce (s_points s) [])"

definition get_points ::
  "metric_series_response fetch \<Rightarrow> string \<Rightarrow> string \<Rightarrow> string \<Rightarrow> string \<Rightarrow> api_error + series_point list" where
  "get_points mfetch base since selected metric =
     then_value first_points (fetchMetricSeries mfetch base metric (Some since) (Some selected) None)"

definition container_request ::
  "metric_series_response fetch \<Rightarrow> string \<Rightarrow> string \<times> string \<Rightarrow> api_error + metric_points" where
  "container_request mfetch base query =
     (let (selected, since) = query; get = get_points mfetch base since selected in
      then_value
        (\<lambda>(cpu, mem, memPct, httpLatency, httpErrors, netRx, netTx, blkRead, blkWrite).
           \<lparr>mp_cpu = cpu, mp_mem = mem, mp_memPct = memPct, mp_httpLatency = httpLatency, mp_httpErrors = httpErrors,
            mp_netRx = netRx, mp_netTx = netTx, mp_blkRead = blkRead, mp_blkWrite = blkWrite\<rparr>)
        (both (get ''cpu.usage'') (both (get ''memory.usage'') (both (get ''memory.usage_pct'')
          (both (get ''http.duration_ms'') (both (get ''http.error_rate'') (both (get ''network.rx'')
            (both (get ''network.tx'') (both (get ''block.read'') (get ''block.write''))))))))))"

text \<open>The effect of a container, a window or an attempt; without a container it only cancels.\<close>

definition container_load :: "string \<times> string \<Rightarrow> container_metrics \<Rightarrow> container_metrics" where
  "container_load q st = st\<lparr>cm_loading := True, cm_run := Suc (cm_run st)\<rparr>"

definition container_effect :: "string \<times> string \<Rightarrow> container_metrics \<Rightarrow> container_metrics" where
  "container_effect q st = (if fst q = [] then st\<lparr>cm_run := Suc (cm_run st)\<rparr> else container_load q st)"

definition container_settle ::
  "translate \<Rightarrow> nat \<Rightarrow> api_error + metric_points \<Rightarrow> container_metrics \<Rightarrow> container_metrics" where
  "container_settle t run r st =
     (if run \<noteq> cm_run st then st
      else (case r of
              Inr s \<Rightarrow> st\<lparr>cm_series := s, cm_error := None\<rparr>
            | Inl _ \<Rightarrow> st\<lparr>cm_error := Some (t ''metrics.loadError'' [])\<rparr>)\<lparr>cm_loading := False\<rparr>)"

subsection \<open>What is shown\<close>

definition pick :: "stat_mode \<Rightarrow> series_point list \<Rightarrow> jsnum" where
  "pick stat pts =
     (case summarize (map p_value pts) stat of None \<Rightarrow> 0 | Some v \<Rightarrow> math_round (v * Fin 10) / Fin 10)"

datatype cm_action = Choose_Container string | Choose_Stat stat_mode | Retry_Metrics

fun container_metrics_query :: "cm_action \<Rightarrow> params \<Rightarrow> params" where
  "container_metrics_query (Choose_Container name) ps = query_patch [(''container'', Some name)] [] ps"
| "container_metrics_query (Choose_Stat m) ps = query_set ''stat'' ''avg'' (mode_string m) ps"
| "container_metrics_query Retry_Metrics ps = ps"

fun container_metrics_step :: "cm_action \<Rightarrow> container_metrics \<Rightarrow> container_metrics" where
  "container_metrics_step Retry_Metrics st = st\<lparr>cm_attempt := Suc (cm_attempt st)\<rparr>"
| "container_metrics_step _ st = st"

definition stat_word :: "translate \<Rightarrow> stat_mode \<Rightarrow> string" where
  "stat_word t stat =
     (if stat = Avg then t ''metrics.statAvg'' [] else if stat = Max then t ''metrics.statPeak'' [] else mode_string stat)"

definition container_list :: "translate \<Rightarrow> string \<Rightarrow> string list \<Rightarrow> cm_action ui" where
  "container_list t selected containers =
     el ''aside''
      [el ''h2'' [Text (t ''common.container'' [])],
       el ''ul''
        (if containers = [] then [el ''li'' [Text (t ''metrics.noContainer'' [])]]
         else map (\<lambda>name. el ''li''
           [El ''button'' ((if selected = name then [(''aria-current'', AStr ''true'')] else [])
              @ [(''onClick'', AHandler (Choose_Container name))]) [Text name]]) containers)]"

definition container_heading ::
  "translate \<Rightarrow> string \<Rightarrow> string \<Rightarrow> stat_mode \<Rightarrow> workload_snapshot list \<Rightarrow> string list \<Rightarrow> cm_action ui" where
  "container_heading t since selected stat workloads containers =
     (let service = Option.bind (List.find (\<lambda>w. w_container w = selected) workloads) w_service in
      el ''div''
       [el ''div''
         ([el ''h2'' [Text selected]]
          @ opt (workloads \<noteq> [] \<and> selected \<notin> set containers) (El ''p'' [(''role'', AStr ''status'')] [Text (t ''metrics.notRecent'' [])])
          @ [el ''div''
              [link (''/logs?container='' @ encodeURIComponent selected @ ''&since='' @ since) [Text (t ''metrics.logsOf'' [])],
               link (''/traces?service='' @ encodeURIComponent (if truthy_str service then the service else selected) @ ''&since='' @ since)
                 [Text (t ''sloExtra.traces'' [])],
               link (''/metrics?mode=compare&containers='' @ encodeURIComponent selected @ ''&since='' @ since)
                 [Text (t ''metrics.compareOthers'' [])]]]),
        map_ui Choose_Stat (stat_toggle t stat)])"

definition mebibytes :: "jsnum \<Rightarrow> jsnum" where
  "mebibytes v = math_round (v / Fin 1024 / Fin 1024)"

definition tenths_pct :: "jsnum \<Rightarrow> jsnum" where
  "tenths_pct v = math_round (v * Fin 1000) / Fin 10"

definition container_charts :: "env \<Rightarrow> stat_mode \<Rightarrow> container_metrics \<Rightarrow> cm_action ui list" where
  "container_charts e stat st =
     (let t = tr e; s = cm_series st; loading = cm_loading st; word = stat_word t stat;
          chart = (\<lambda>title points unit f. time_series_chart e title None points loading unit f)
      in [el ''div''
           [metric_meter e (t ''metrics.cpuStat'' [(''stat'', TStr word)]) (pick stat (mp_cpu s)) (Fin 75) (Fin 90),
            metric_meter e (t ''metrics.memStat'' [(''stat'', TStr word)]) (pick stat (mp_memPct s)) (Fin 75) (Fin 90)],
          el ''div''
           [chart (t ''containers.cpu'' []) (mp_cpu s) ''%'' None,
            chart (t ''metrics.memoryVsLimit'' []) (mp_memPct s) ''%'' None],
          el ''div''
           ([chart (t ''metrics.memoryUsed'' []) (mp_mem s) '' MiB'' (Some mebibytes)]
            @ (if mp_netRx s \<noteq> [] \<or> mp_netTx s \<noteq> []
               then [chart (t ''metrics.netRxBytes'' []) (mp_netRx s) '' B/s'' (Some math_round),
                     chart (t ''metrics.netTxBytes'' []) (mp_netTx s) '' B/s'' (Some math_round)] else [])
            @ (if mp_blkRead s \<noteq> [] \<or> mp_blkWrite s \<noteq> []
               then [chart (t ''metrics.diskReadBytes'' []) (mp_blkRead s) '' B/s'' (Some math_round),
                     chart (t ''metrics.diskWriteBytes'' []) (mp_blkWrite s) '' B/s'' (Some math_round)] else []))]
         @ opt (mp_httpLatency s \<noteq> [] \<or> mp_httpErrors s \<noteq> [])
             (el ''div''
               [time_series_chart e (t ''metrics.httpDuration'' []) (Some (t ''metrics.httpLatencyLogs'' [])) (mp_httpLatency s)
                  loading '' ms'' (Some math_round),
                time_series_chart e (t ''metrics.httpErrorRate'' []) (Some (t ''metrics.httpErrorStatus'' [])) (mp_httpErrors s)
                  loading ''%'' (Some tenths_pct)]))"

definition container_metrics_view ::
  "env \<Rightarrow> string \<Rightarrow> workload_snapshot list \<Rightarrow> string list option \<Rightarrow> params \<Rightarrow> container_metrics \<Rightarrow> cm_action ui" where
  "container_metrics_view e since workloads members ps st =
     (let t = tr e; selected = query_value ''container'' [] ps; stat = parseStatMode (query_value ''stat'' ''avg'' ps);
          containers = selectable workloads members
      in el ''div''
       [container_list t selected containers,
        el ''div''
         (opt (selected \<noteq> []) (container_heading t since selected stat workloads containers)
          @ opt (truthy_str (cm_error st))
              (El ''Card'' [(''role'', AStr ''alert'')]
                [el ''span'' [Text (the (cm_error st))], button False Retry_Metrics (t ''common.retry'' [])])
          @ (if selected = [] then (if containers = [] then [] else [skeleton])
             else container_charts e stat st))])"

subsection \<open>The order by load\<close>

definition busier :: "workload_snapshot \<Rightarrow> workload_snapshot \<Rightarrow> bool" where
  "busier a b \<longleftrightarrow> cpu_usage b < cpu_usage a
     \<or> (cpu_usage a = cpu_usage b \<and> \<not> memory_usage a < memory_usage b)"

definition measured :: "workload_snapshot \<Rightarrow> bool" where
  "measured w \<longleftrightarrow> is_double (cpu_usage w) \<and> is_double (memory_usage w)"

lemma measuredE:
  assumes "measured w"
  obtains c m where "cpu_usage w = Fin c" "memory_usage w = Fin m"
  using assms by (auto simp: measured_def is_double_def split: jsnum.splits)

lemma load_order_iff:
  assumes "measured a" "measured b"
  shows "\<not> 0 < load_order a b \<longleftrightarrow> busier a b"
proof -
  have d: "is_double (cpu_usage a)" "is_double (cpu_usage b)" "is_double (memory_usage a)" "is_double (memory_usage b)"
    using assms by (simp_all add: measured_def)
  obtain c m c' m' where f: "cpu_usage a = Fin c" "memory_usage a = Fin m" "cpu_usage b = Fin c'" "memory_usage b = Fin m'"
    using measuredE assms by metis
  show ?thesis
    using sign_minus_double [OF d(2,1)] sign_minus_double [OF d(4,3)] minus_truthy [OF d(2,1)]
    by (auto simp: load_order_def busier_def Let_def f)
qed

interpretation loads_cmp: js_comparator load_order measured
proof unfold_locales
  fix x y z
  assume x: "measured x" and y: "measured y"
  obtain c m c' m' where f: "cpu_usage x = Fin c" "memory_usage x = Fin m" "cpu_usage y = Fin c'" "memory_usage y = Fin m'"
    using measuredE x y by metis
  show "0 < load_order x y \<Longrightarrow> \<not> 0 < load_order y x"
    using load_order_iff [OF x y] load_order_iff [OF y x] by (auto simp: busier_def f)
  assume z: "measured z"
  obtain c'' m'' where g: "cpu_usage z = Fin c''" "memory_usage z = Fin m''" using measuredE [OF z] by metis
  show "\<not> 0 < load_order x y \<Longrightarrow> \<not> 0 < load_order y z \<Longrightarrow> \<not> 0 < load_order x z"
    unfolding load_order_iff [OF x y] load_order_iff [OF y z] load_order_iff [OF x z]
    by (auto simp: busier_def f g)
qed

lemma busiest_first:
  assumes "busiest workloads containers = Some w" "\<forall>w\<in>set workloads. measured w"
  shows "w \<in> set workloads" "w_container w \<in> set containers"
    and "w' \<in> set workloads \<Longrightarrow> w_container w' \<in> set containers \<Longrightarrow> busier w w'"
proof -
  let ?ws = "filter (\<lambda>w. w_container w \<in> set containers) workloads"
  obtain ws where ws: "js_sort load_order ?ws = w # ws"
    using assms(1) by (auto simp: busiest_def split: list.splits)
  then have "w \<in> set ?ws" by (metis list.set_intros(1) set_js_sort)
  then show w: "w \<in> set workloads" "w_container w \<in> set containers" by auto
  assume w': "w' \<in> set workloads" "w_container w' \<in> set containers"
  then have "\<not> 0 < load_order (hd (js_sort load_order ?ws)) w'"
    using assms(2) by (intro loads_cmp.hd_js_sort) auto
  then show "busier w w'" using load_order_iff [of w w'] w w' assms(2) by (simp add: ws)
qed

lemma busiest_exists:
  assumes "selectable workloads members \<noteq> []"
  obtains w where "busiest workloads (selectable workloads members) = Some w"
proof -
  obtain c where "c \<in> set (selectable workloads members)" using assms by (cases "selectable workloads members") auto
  then have "filter (\<lambda>w. w_container w \<in> set (selectable workloads members)) workloads \<noteq> []"
    by (auto simp: selectable_def filter_empty_conv)
  then show ?thesis using that
    by (cases "js_sort load_order (filter (\<lambda>w. w_container w \<in> set (selectable workloads members)) workloads)")
      (simp_all add: busiest_def)
qed

text \<open>The container the effect chooses.\<close>

definition of_service :: "string \<Rightarrow> workload_snapshot list \<Rightarrow> workload_snapshot option" where
  "of_service service workloads =
     (if service = [] then None else List.find (\<lambda>w. matchesService (w_container w) (w_service w) service) workloads)"

definition chosen :: "workload_snapshot list \<Rightarrow> string list option \<Rightarrow> string \<Rightarrow> workload_snapshot" where
  "chosen workloads members service =
     (case of_service service workloads of
        Some w \<Rightarrow> w
      | None \<Rightarrow> the (busiest workloads (selectable workloads members)))"

lemma default_effect_chosen:
  assumes "query_value ''container'' [] ps = []" "selectable workloads members \<noteq> []"
  shows "default_effect workloads members ps =
     Some (query_patch [(''container'', Some (w_container (chosen workloads members (query_value ''service'' [] ps)))),
                        (''service'', None)] [] ps)"
proof -
  obtain w where "busiest workloads (selectable workloads members) = Some w" by (rule busiest_exists [OF assms(2)])
  then show ?thesis using assms
    by (auto simp: default_effect_def default_container_def chosen_def of_service_def split: option.split)
qed

lemma chosen_workload:
  assumes "selectable workloads members \<noteq> []" "\<forall>w\<in>set workloads. measured w"
  shows "chosen workloads members service \<in> set workloads"
proof -
  obtain w where "busiest workloads (selectable workloads members) = Some w" by (rule busiest_exists [OF assms(1)])
  then show ?thesis using busiest_first(1) assms(2)
    by (auto simp: chosen_def of_service_def split: option.split if_splits dest: find_Some_in)
qed

subsection \<open>The guarded load\<close>

interpretation container_run: guarded_page cm_run container_load "container_settle t" cm_loading
  "\<lambda>s. cm_error s \<noteq> None" "\<lambda>s. Some (cm_series s)" "\<lambda>_ _. True" is_okay answered_value for t
proof unfold_locales
  fix q s r a
  show "cm_run (container_load q s) = Suc (cm_run s)" by (simp add: container_load_def)
  show "cm_run (container_settle t r a s) = cm_run s" by (simp add: container_settle_def split: sum.split)
  show "r \<noteq> cm_run s \<Longrightarrow> container_settle t r a s = s" by (simp add: container_settle_def)
  show "cm_loading (container_load q s)" by (simp add: container_load_def)
  show "\<not> cm_loading (container_settle t (cm_run s) a s)" by (simp add: container_settle_def)
  show "\<not> is_okay a \<Longrightarrow> cm_error (container_settle t (cm_run s) a s) \<noteq> None"
    by (simp add: container_settle_def is_okay_def split: sum.splits)
  show "is_okay a \<Longrightarrow> Some (cm_series (container_settle t (cm_run s) a s)) = answered_value a"
    by (simp add: container_settle_def is_okay_def answered_value_def split: sum.splits)
qed simp

text \<open>A load that fails leaves the series of the container before under the new heading, and a new
  load keeps the error until it ends (see the findings).\<close>

lemma failed_load_keeps_series:
  "cm_series (container_settle t (Suc (cm_run st)) (Inl e) (container_load q st)) = cm_series st
   \<and> cm_error (container_load q st) = cm_error st"
  by (simp add: container_settle_def container_load_def)

subsection \<open>Properties\<close>

text \<open>C14. Without a container in the address the page chooses one, once: where some container can be
  chosen the effect changes the address, the address then names a known container and no service,
  and the effect does nothing more. It is the first workload of the wanted service, or else the
  busiest of the selectable containers, by CPU and then by memory.\<close>

theorem default_container_settles:
  assumes "\<forall>w\<in>set workloads. measured w \<and> w_container w \<noteq> []"
    and "query_value ''container'' [] ps = []" "selectable workloads members \<noteq> []"
  shows "\<exists>w ps'. default_effect workloads members ps = Some ps' \<and> default_effect workloads members ps' = None
     \<and> w \<in> set workloads \<and> query_value ''container'' [] ps' = w_container w \<and> query_value ''service'' [] ps' = []
     \<and> (case of_service (query_value ''service'' [] ps) workloads of
          Some v \<Rightarrow> w = v
        | None \<Rightarrow> w_container w \<in> set (selectable workloads members)
            \<and> (\<forall>v\<in>set workloads. w_container v \<in> set (selectable workloads members) \<longrightarrow> busier w v))"
proof -
  let ?s = "query_value ''service'' [] ps"
  let ?w = "chosen workloads members ?s"
  let ?ps = "query_patch [(''container'', Some (w_container ?w)), (''service'', None)] [] ps"
  have e: "default_effect workloads members ps = Some ?ps" by (rule default_effect_chosen [OF assms(2,3)])
  have w: "?w \<in> set workloads" using assms(1) by (intro chosen_workload [OF assms(3)]) blast
  then have n: "w_container ?w \<noteq> []" using assms(1) by blast
  have c: "query_value ''container'' [] ?ps = w_container ?w" "query_value ''service'' [] ?ps = []"
    using n by (simp_all add: query_value_def params_get_patch elided_def)
  then have stop: "default_effect workloads members ?ps = None"
    using n by (simp add: default_effect_def default_container_def)
  obtain b where b: "busiest workloads (selectable workloads members) = Some b" by (rule busiest_exists [OF assms(3)])
  have m: "\<forall>w\<in>set workloads. measured w" using assms(1) by blast
  have "case of_service ?s workloads of
          Some v \<Rightarrow> ?w = v
        | None \<Rightarrow> w_container ?w \<in> set (selectable workloads members)
            \<and> (\<forall>v\<in>set workloads. w_container v \<in> set (selectable workloads members) \<longrightarrow> busier ?w v)"
    using busiest_first [OF b m] by (auto simp: chosen_def b split: option.split)
  with e stop w c show ?thesis by blast
qed

lemma default_container_settles_witness:
  "\<exists>ps'. default_effect [sample_workload ''a'' (Fin 1), sample_workload ''b'' (Fin 2)] None [] = Some ps'
     \<and> default_effect [sample_workload ''a'' (Fin 1), sample_workload ''b'' (Fin 2)] None ps' = None"
proof -
  have "is_double (Fin 1)" "is_double (Fin 2)" "is_double 0"
    using rep_of_int [of 1] rep_of_int [of 2] by (simp_all add: is_double_def)
  then show ?thesis
    using default_container_settles [of "[sample_workload ''a'' (Fin 1), sample_workload ''b'' (Fin 2)]" "[]" None]
    by (auto simp: sample_workload_def measured_def query_value_def params_get_def selectable_def)
qed

text \<open>When the page neither loads nor reports an error, its nine series are those of one answer to
  the container and the window in the address, whatever came late.\<close>

theorem container_series_current:
  assumes "guarded_reachable cm_run container_load (container_settle t) (\<lambda>_ _. True) is_okay container_metrics_init w"
    and "\<not> cm_loading (gw_page w)" "cm_error (gw_page w) = None"
  shows "\<exists>s. gw_shown w = Some (gw_query w, Inr s) \<and> cm_series (gw_page w) = s"
proof -
  obtain a where "gw_shown w = Some (gw_query w, a)" "Some (cm_series (gw_page w)) = answered_value a"
    using container_run.shows_current [OF assms(1,2)] assms(3) by auto
  then show ?thesis by (cases a) (simp_all add: answered_value_def)
qed

definition sample_container_shown :: "(string \<times> string, api_error + metric_points, container_metrics) guarded" where
  "sample_container_shown = \<lparr>gw_page = container_metrics_init\<lparr>cm_run := 1\<rparr>, gw_query = (''web'', ''1h''), gw_pending = [],
     gw_shown = Some ((''web'', ''1h''), Inr no_points)\<rparr>"

lemma sample_container_reachable:
  "guarded_reachable cm_run container_load (container_settle (\<lambda>k _. k)) (\<lambda>_ _. True) is_okay container_metrics_init sample_container_shown"
proof -
  let ?w0 = "\<lparr>gw_page = container_metrics_init\<lparr>cm_loading := True, cm_run := 1\<rparr>, gw_query = (''web'', ''1h''),
    gw_pending = [(1, (''web'', ''1h''))], gw_shown = None\<rparr>"
  have m: "guarded_reachable cm_run container_load (container_settle (\<lambda>k _. k)) (\<lambda>_ _. True) is_okay container_metrics_init ?w0"
    using guarded_reachable.mount [of cm_run container_load "container_settle (\<lambda>k _. k)" "\<lambda>_ _. True" is_okay
        container_metrics_init "(''web'', ''1h'')"]
    by (simp add: send_load_def container_load_def container_metrics_init_def Let_def)
  have p: "gw_pending ?w0 = [] @ (1, (''web'', ''1h'')) # []" by simp
  have "guarded_step cm_run container_load (container_settle (\<lambda>k _. k)) (\<lambda>_ _. True) is_okay ?w0 sample_container_shown"
    using guarded_step.main [OF p, of "\<lambda>_ _. True" "Inr no_points" cm_run container_load "container_settle (\<lambda>k _. k)" is_okay]
    by (simp add: container_settle_def container_metrics_init_def is_okay_def sample_container_shown_def)
  with m show ?thesis by (rule guarded_reachable.step)
qed

lemma container_series_current_witness:
  "\<exists>s. gw_shown sample_container_shown = Some (gw_query sample_container_shown, Inr s)
     \<and> cm_series (gw_page sample_container_shown) = s"
  by (rule container_series_current [OF sample_container_reachable])
    (simp_all add: sample_container_shown_def container_metrics_init_def)

end
