(* ===== verification/Json_Parse.thy ===== *)
theory Json_Parse
  imports Json
begin

text \<open>
  \<open>JSON.parse\<close>, by recursive descent with fuel. Each call costs one unit; a value needs at most
  two per character, so twice the length and two is always enough (\<open>json_parse_fuel\<close>), and the
  fuel never decides a result. A number is read as \<open>Number\<close> reads it once its text has the JSON
  form. An escape above \<open>00FF\<close> denotes a unit outside the strings of this model and is not read.
  What \<open>JSON.stringify\<close> writes is read back (\<open>json_parse_stringify\<close>).
\<close>

definition json_space :: "char \<Rightarrow> bool" where
  "json_space c \<longleftrightarrow> c = CHR 0x20 \<or> c = CHR 0x09 \<or> c = CHR 0x0A \<or> c = CHR 0x0D"

definition skip_ws :: "string \<Rightarrow> string" where
  "skip_ws s = dropWhile json_space s"

definition cons_read :: "'a \<Rightarrow> ('a list \<times> string) option \<Rightarrow> ('a list \<times> string) option" where
  "cons_read x r = map_option (\<lambda>(xs, rest). (x # xs, rest)) r"

definition escape_char :: "char \<Rightarrow> char option" where
  "escape_char c =
     (if c = CHR 0x22 \<or> c = CHR 0x5C \<or> c = CHR 0x2F then Some c
      else if c = CHR 0x62 then Some (CHR 0x08)
      else if c = CHR 0x66 then Some (CHR 0x0C)
      else if c = CHR 0x6E then Some (CHR 0x0A)
      else if c = CHR 0x72 then Some (CHR 0x0D)
      else if c = CHR 0x74 then Some (CHR 0x09)
      else None)"

definition hex_unit :: "char \<Rightarrow> char \<Rightarrow> char \<Rightarrow> char \<Rightarrow> char option" where
  "hex_unit a b c d =
     (if list_all (\<lambda>x. radix_digit x < 16) [a, b, c, d]
      then let n = 4096 * radix_digit a + 256 * radix_digit b + 16 * radix_digit c + radix_digit d
           in if n < 256 then Some (char_of n) else None
      else None)"

text \<open>The characters of a string up to its closing quote.\<close>

fun parse_string :: "string \<Rightarrow> (string \<times> string) option" where
  "parse_string [] = None"
| "parse_string (c # s) =
     (if c = CHR 0x22 then Some ([], s)
      else if c = CHR 0x5C then
        (case s of
           [] \<Rightarrow> None
         | e # s1 \<Rightarrow>
             if e = CHR 0x75 then
               (case s1 of
                  a # b # d # f # s2 \<Rightarrow>
                    (case hex_unit a b d f of None \<Rightarrow> None | Some x \<Rightarrow> cons_read x (parse_string s2))
                | _ \<Rightarrow> None)
             else (case escape_char e of None \<Rightarrow> None | Some x \<Rightarrow> cons_read x (parse_string s1)))
      else if code_unit c < 32 then None
      else cons_read c (parse_string s))"

text \<open>The longest prefix of number characters, when it has the JSON form.\<close>

definition digits_split :: "string \<Rightarrow> string \<times> string" where
  "digits_split s = (takeWhile is_digit s, dropWhile is_digit s)"

definition json_int :: "string \<Rightarrow> (string \<times> string) option" where
  "json_int s =
     (let (ds, r) = digits_split s in
      if ds = [] \<or> (hd ds = CHR ''0'' \<and> length ds > 1) then None else Some (ds, r))"

definition json_frac :: "string \<Rightarrow> (string \<times> string) option" where
  "json_frac s =
     (case s of
        [] \<Rightarrow> Some ([], [])
      | c # t \<Rightarrow> if c = CHR ''.'' then (let (ds, r) = digits_split t in if ds = [] then None else Some (c # ds, r))
               else Some ([], s))"

definition json_exp :: "string \<Rightarrow> (string \<times> string) option" where
  "json_exp s =
     (case s of
        [] \<Rightarrow> Some ([], [])
      | c # t \<Rightarrow>
          if c = CHR ''e'' \<or> c = CHR ''E'' then
            (let (sg, u) = (case t of x # v \<Rightarrow> if x = CHR ''+'' \<or> x = CHR ''-'' then ([x], v) else ([], t) | [] \<Rightarrow> ([], []));
                 (ds, r) = digits_split u
             in if ds = [] then None else Some (c # sg @ ds, r))
          else Some ([], s))"

definition parse_number :: "string \<Rightarrow> (json \<times> string) option" where
  "parse_number s =
     (let (sg, u) = (case s of x # v \<Rightarrow> if x = CHR ''-'' then ([x], v) else ([], s) | [] \<Rightarrow> ([], [])) in
      case json_int u of None \<Rightarrow> None
      | Some (i, r) \<Rightarrow>
          (case json_frac r of None \<Rightarrow> None
           | Some (f, r') \<Rightarrow>
               (case json_exp r' of None \<Rightarrow> None
                | Some (x, r'') \<Rightarrow> Some (JNum (decimal_number (sg @ i @ f @ x)), r''))))"

definition literal :: "string \<Rightarrow> json \<Rightarrow> string \<Rightarrow> (json \<times> string) option" where
  "literal name v s = (if starts_with s name then Some (v, drop (length name) s) else None)"

definition object_of :: "(string \<times> json) list \<Rightarrow> json" where
  "object_of ms = JObj (foldl (\<lambda>m (k, v). map_set k v m) [] ms)"

fun parse_value :: "nat \<Rightarrow> string \<Rightarrow> (json \<times> string) option"
and parse_items :: "nat \<Rightarrow> string \<Rightarrow> (json list \<times> string) option"
and parse_members :: "nat \<Rightarrow> string \<Rightarrow> ((string \<times> json) list \<times> string) option" where
  "parse_value 0 s = None"
| "parse_value (Suc n) s =
     (case skip_ws s of
        [] \<Rightarrow> None
      | c # r \<Rightarrow>
          if c = CHR 0x22 then map_option (\<lambda>(t, rest). (JStr t, rest)) (parse_string r)
          else if c = CHR 0x5B then
            (case skip_ws r of
               [] \<Rightarrow> None
             | d # r' \<Rightarrow> if d = CHR 0x5D then Some (JArr [], r')
                        else map_option (\<lambda>(vs, rest). (JArr vs, rest)) (parse_items n r))
          else if c = CHR 0x7B then
            (case skip_ws r of
               [] \<Rightarrow> None
             | d # r' \<Rightarrow> if d = CHR 0x7D then Some (JObj [], r')
                        else map_option (\<lambda>(ms, rest). (object_of ms, rest)) (parse_members n r))
          else if c = CHR ''t'' then literal ''true'' (JBool True) (c # r)
          else if c = CHR ''f'' then literal ''false'' (JBool False) (c # r)
          else if c = CHR ''n'' then literal ''null'' JNull (c # r)
          else parse_number (c # r))"
| "parse_items 0 s = None"
| "parse_items (Suc n) s =
     (case parse_value n s of
        None \<Rightarrow> None
      | Some (v, r) \<Rightarrow>
          (case skip_ws r of
             [] \<Rightarrow> None
           | d # r' \<Rightarrow> if d = CHR 0x2C then cons_read v (parse_items n r')
                      else if d = CHR 0x5D then Some ([v], r') else None))"
| "parse_members 0 s = None"
| "parse_members (Suc n) s =
     (case skip_ws s of
        [] \<Rightarrow> None
      | q # r \<Rightarrow>
          if q \<noteq> CHR 0x22 then None
          else (case parse_string r of
             None \<Rightarrow> None
           | Some (k, r1) \<Rightarrow>
               (case skip_ws r1 of
                  [] \<Rightarrow> None
                | d # r2 \<Rightarrow>
                    if d \<noteq> CHR 0x3A then None
                    else (case parse_value n r2 of
                       None \<Rightarrow> None
                     | Some (v, r3) \<Rightarrow>
                         (case skip_ws r3 of
                            [] \<Rightarrow> None
                          | x # r4 \<Rightarrow> if x = CHR 0x2C then cons_read (k, v) (parse_members n r4)
                                     else if x = CHR 0x7D then Some ([(k, v)], r4) else None)))))"

definition json_parse :: "string \<Rightarrow> json option" where
  "json_parse s =
     (case parse_value (2 * length s + 2) s of
        Some (v, r) \<Rightarrow> if skip_ws r = [] then Some v else None
      | None \<Rightarrow> None)"

subsection \<open>Reading back what was written\<close>

lemma hex_lower_digit: "k < 16 \<Longrightarrow> radix_digit (hex_lower k) = k"
  by (auto simp: radix_digit_def hex_lower_def Let_def)

lemma code_unit_eq: "code_unit c = n \<Longrightarrow> n < 256 \<Longrightarrow> c = char_of n"
  by (metis char_of_char)

lemma escaped_units:
  "char_of (34 :: nat) = CHR 0x22" "char_of (92 :: nat) = CHR 0x5C" "char_of (8 :: nat) = CHR 0x08"
  "char_of (12 :: nat) = CHR 0x0C" "char_of (10 :: nat) = CHR 0x0A" "char_of (13 :: nat) = CHR 0x0D"
  "char_of (9 :: nat) = CHR 0x09"
  by code_simp+

lemma parse_control:
  assumes "code_unit c < 32"
  shows "hex_unit (CHR ''0'') (CHR ''0'') (hex_lower (code_unit c div 16)) (hex_lower (code_unit c mod 16)) = Some c"
proof -
  have "code_unit c div 16 < 16" using assms by simp
  then have "radix_digit (hex_lower (code_unit c div 16)) = code_unit c div 16"
    "radix_digit (hex_lower (code_unit c mod 16)) = code_unit c mod 16"
    by (simp_all add: hex_lower_digit)
  moreover have "radix_digit (CHR ''0'') = 0" by (simp add: radix_digit_def)
  moreover have "16 * (code_unit c div 16) + code_unit c mod 16 = code_unit c" by simp
  ultimately show ?thesis using assms \<open>code_unit c div 16 < 16\<close> by (simp add: hex_unit_def)
qed

lemma parse_json_char: "parse_string (json_char c @ s) = cons_read c (parse_string s)"
proof -
  consider "code_unit c \<in> {34, 92, 8, 12, 10, 13, 9}" | "code_unit c \<notin> {34, 92, 8, 12, 10, 13, 9}" "code_unit c < 32"
    | "code_unit c \<notin> {34, 92}" "\<not> code_unit c < 32" by auto
  then show ?thesis
  proof cases
    case 1
    then show ?thesis
      by (auto simp: json_char_def escape_char_def escaped_units dest!: code_unit_eq)
  next
    case 2
    then show ?thesis by (simp add: json_char_def parse_control Let_def)
  next
    case 3
    then have "c \<noteq> CHR 0x22" "c \<noteq> CHR 0x5C" by auto
    with 3 show ?thesis by (simp add: json_char_def)
  qed
qed

lemma parse_quoted: "parse_string (concat (map json_char s) @ CHR 0x22 # r) = Some (s, r)"
proof (induction s)
  case (Cons c s)
  then show ?case by (simp add: parse_json_char cons_read_def)
qed simp

lemma parse_json_quote:
  "json_quote s @ r = CHR 0x22 # (concat (map json_char s) @ CHR 0x22 # r)"
  by (simp add: json_quote_def)

text \<open>Values whose objects have different keys and whose numbers are counts up to \<open>2^53\<close>.\<close>

definition count_num :: "jsnum \<Rightarrow> bool" where
  "count_num n = (case n of Fin x \<Rightarrow> x = of_int \<lfloor>x\<rfloor> \<and> 0 \<le> x \<and> x \<le> 2 ^ 53 | _ \<Rightarrow> False)"

fun textual :: "json \<Rightarrow> bool" where
  "textual (JNum n) = count_num n"
| "textual (JArr xs) = list_all textual xs"
| "textual (JObj ms) = (distinct (map fst ms) \<and> list_all (\<lambda>m. textual (snd m)) ms)"
| "textual _ = True"

lemma skip_ws_id: "\<not> json_space c \<Longrightarrow> skip_ws (c # s) = c # s"
  by (simp add: skip_ws_def)

lemma json_space_chars [simp]:
  "\<not> json_space (CHR 0x22)" "\<not> json_space (CHR 0x5B)" "\<not> json_space (CHR 0x5D)" "\<not> json_space (CHR 0x7B)"
  "\<not> json_space (CHR 0x7D)" "\<not> json_space (CHR 0x2C)" "\<not> json_space (CHR 0x3A)" "\<not> json_space (CHR ''t'')"
  "\<not> json_space (CHR ''f'')" "\<not> json_space (CHR ''n'')"
  by (simp_all add: json_space_def)

lemma count_num_nat:
  assumes "count_num n"
  obtains k where "n = Fin (of_nat k)" "int k \<le> 2 ^ 53"
proof -
  obtain x where x: "n = Fin x" "x = of_int \<lfloor>x\<rfloor>" "0 \<le> x" "x \<le> 2 ^ 53"
    using assms by (auto simp: count_num_def split: jsnum.splits)
  then have "0 \<le> \<lfloor>x\<rfloor>" by simp
  then obtain k where k: "\<lfloor>x\<rfloor> = int k" by (rule nonneg_int_cases)
  have "of_int \<lfloor>x\<rfloor> \<le> (of_int (2 ^ 53) :: rat)" using x(2,4) by simp
  then have "\<lfloor>x\<rfloor> \<le> 2 ^ 53" by (simp only: of_int_le_iff)
  with k x(1,2) show ?thesis using that [of k] by (metis of_int_of_nat_eq)
qed

lemma stringify_count: "int k \<le> 2 ^ 53 \<Longrightarrow> json_stringify (JNum (Fin (of_nat k))) = nat_digits k"
  by (simp add: num_string_nat)

text \<open>A decimal text has no sign, no leading zero and nothing after its digits.\<close>

lemma nat_digits_lead: "0 < n \<Longrightarrow> hd (nat_digits n) \<noteq> CHR ''0''"
proof (induction n rule: nat_digits.induct)
  case (1 n)
  have "digit_char n \<noteq> CHR ''0''" if "n < 10" "0 < n"
  proof
    assume "digit_char n = CHR ''0''"
    then have "digit_val (digit_char n) = digit_val (digit_char 0)" by (simp only: digit_char_zero)
    with that show False by simp
  qed
  with 1 show ?case by (subst nat_digits.simps) auto
qed

lemma nat_digits_single: "1 < length (nat_digits n) \<Longrightarrow> hd (nat_digits n) \<noteq> CHR ''0''"
proof (cases "n = 0")
  case True
  have "nat_digits 0 = [digit_char 0]" by (subst nat_digits.simps) simp
  then show "1 < length (nat_digits n) \<Longrightarrow> ?thesis" by (simp add: True)
qed (simp add: nat_digits_lead)

definition ends_value :: "string \<Rightarrow> bool" where
  "ends_value r = (case r of [] \<Rightarrow> True | c # _ \<Rightarrow> c = CHR 0x2C \<or> c = CHR 0x5D \<or> c = CHR 0x7D)"

lemma ends_value_simps [simp]:
  "ends_value []" "ends_value (CHR 0x2C # r)" "ends_value (CHR 0x5D # r)" "ends_value (CHR 0x7D # r)"
  by (simp_all add: ends_value_def)

lemma json_int_digits:
  assumes "ends_value r"
  shows "json_int (nat_digits n @ r) = Some (nat_digits n, r)"
proof -
  have nd: "\<not> is_digit c" if "r = c # t" for c t
    using assms that by (auto simp: ends_value_def is_digit_def)
  have r: "takeWhile is_digit r = []" "dropWhile is_digit r = r"
    using nd by (cases r; simp)+
  have "digits_split (nat_digits n @ r) = (nat_digits n, r)"
    using nat_digits_digits [of n] by (simp add: digits_split_def takeWhile_append2 dropWhile_append2 r)
  then show ?thesis using nat_digits_single [of n] by (auto simp: json_int_def)
qed

lemma parse_number_digits:
  assumes "ends_value r" "int n \<le> 2 ^ 53"
  shows "parse_number (nat_digits n @ r) = Some (JNum (Fin (of_nat n)), r)"
proof -
  obtain c t where c: "nat_digits n = c # t" by (cases "nat_digits n") auto
  have "is_digit c" using nat_digits_digits [of n] by (simp add: c)
  then have m: "c \<noteq> CHR ''-''" by (rule digit_units [THEN conjunct1])
  have f: "json_frac r = Some ([], r)" "json_exp r = Some ([], r)"
    using assms(1) by (auto simp: ends_value_def json_frac_def json_exp_def split: list.splits)
  have "decimal_number (nat_digits n) = to_num (of_nat n)"
    using decimal_number_digits [OF nat_digits_digits nat_digits_neq_Nil, of n] by simp
  also have "\<dots> = Fin (of_nat n)" using to_num_of_int [of "int n"] assms(2) by simp
  finally have d: "decimal_number (nat_digits n) = Fin (of_nat n)" .
  show ?thesis
    using json_int_digits [OF assms(1), of n] m d f by (simp add: parse_number_def c)
qed

lemma stringify_first:
  assumes "textual v"
  obtains c t where "json_stringify v = c # t" "\<not> json_space c" "c \<noteq> CHR 0x5D"
proof (cases v)
  case (JBool b)
  then show ?thesis using that by (cases b) simp_all
next
  case (JNum n)
  then obtain k where k: "n = Fin (of_nat k)" "int k \<le> 2 ^ 53" using assms by (auto elim: count_num_nat)
  obtain c t where c: "nat_digits k = c # t" by (cases "nat_digits k") auto
  have "is_digit c" using nat_digits_digits [of k] by (simp add: c)
  then have "\<not> json_space c" "c \<noteq> CHR 0x5D" by (auto simp: is_digit_def json_space_def)
  moreover have "json_stringify v = c # t" unfolding JNum k(1) c [symmetric] by (rule stringify_count [OF k(2)])
  ultimately show ?thesis by (intro that)
qed (use assms that in \<open>auto simp: json_quote_def\<close>)

lemma object_of_distinct: "distinct (map fst ms) \<Longrightarrow> object_of ms = JObj ms"
proof -
  have set_new: "map_set k v m = m @ [(k, v)]" if "k \<notin> fst ` set m" for k v and m :: "(string \<times> json) list"
    using that by (induction m) auto
  have "foldl (\<lambda>m (k, v). map_set k v m) m ms = m @ ms" if "distinct (map fst (m @ ms))" for m
    using that by (induction ms arbitrary: m) (auto simp: set_new)
  from this [of "[]"] show "distinct (map fst ms) \<Longrightarrow> ?thesis" by (simp add: object_of_def)
qed

definition member_text :: "string \<times> json \<Rightarrow> string" where
  "member_text m = json_quote (fst m) @ '':'' @ json_stringify (snd m)"

lemma stringify_object: "json_stringify (JObj ms) = ''{'' @ join '','' (map member_text ms) @ ''}''"
proof -
  have m: "(\<lambda>(k, v). json_quote k @ '':'' @ json_stringify v) = member_text"
    by (simp add: member_text_def fun_eq_iff)
  show ?thesis unfolding json_stringify.simps m by (rule refl)
qed

lemma length_join_Cons: "xs \<noteq> [] \<Longrightarrow> join sep (x # xs) = x @ sep @ join sep xs"
  by (cases xs) simp_all

text \<open>What the lists of an array and of an object read, from what their values read.\<close>

lemma parse_items_join:
  assumes "xs \<noteq> []" "2 * length (join '','' (map json_stringify xs)) + 2 \<le> n"
    and "\<And>x m r. x \<in> set xs \<Longrightarrow> 2 * length (json_stringify x) + 1 \<le> m \<Longrightarrow> ends_value r \<Longrightarrow>
      parse_value m (json_stringify x @ r) = Some (x, r)"
  shows "parse_items n (join '','' (map json_stringify xs) @ CHR 0x5D # r) = Some (xs, r)"
  using assms
proof (induction xs arbitrary: n)
  case (Cons x xs)
  obtain n' where n: "n = Suc n'" using Cons.prems(2) by (cases n) auto
  show ?case
  proof (cases "xs = []")
    case True
    then show ?thesis using Cons.prems(2) Cons.prems(3) [of x n' "CHR 0x5D # r"] by (simp add: n skip_ws_id)
  next
    case False
    then have j: "join '','' (map json_stringify (x # xs)) = json_stringify x @ '','' @ join '','' (map json_stringify xs)"
      by (simp add: length_join_Cons)
    have "parse_items n' (join '','' (map json_stringify xs) @ CHR 0x5D # r) = Some (xs, r)"
      using Cons.prems(2) unfolding j n by (intro Cons.IH [OF False]) (auto intro: Cons.prems(3))
    moreover have "2 * length (json_stringify x) + 1 \<le> n'" using Cons.prems(2) unfolding j n by simp
    ultimately show ?thesis
      using Cons.prems(3) [of x n' "'','' @ join '','' (map json_stringify xs) @ CHR 0x5D # r"]
      by (simp only: j append_assoc) (simp add: n skip_ws_id cons_read_def)
  qed
qed simp

lemma parse_members_join:
  assumes "ms \<noteq> []" "2 * length (join '','' (map member_text ms)) + 2 \<le> n"
    and "\<And>m k r. m \<in> set ms \<Longrightarrow> 2 * length (json_stringify (snd m)) + 1 \<le> k \<Longrightarrow> ends_value r \<Longrightarrow>
      parse_value k (json_stringify (snd m) @ r) = Some (snd m, r)"
  shows "parse_members n (join '','' (map member_text ms) @ CHR 0x7D # r) = Some (ms, r)"
  using assms
proof (induction ms arbitrary: n)
  case (Cons m ms)
  obtain n' where n: "n = Suc n'" using Cons.prems(2) by (cases n) auto
  obtain k v where m: "m = (k, v)" by (cases m)
  have head: "member_text m @ t = CHR 0x22 # (concat (map json_char k) @ CHR 0x22 # CHR 0x3A # (json_stringify v @ t))" for t
    by (simp add: member_text_def m json_quote_def)
  show ?case
  proof (cases "ms = []")
    case True
    then show ?thesis
      using Cons.prems(2) Cons.prems(3) [of m n' "CHR 0x7D # r"]
      by (simp add: n head [of "CHR 0x7D # r"] skip_ws_id parse_quoted) (simp add: m member_text_def skip_ws_id)
  next
    case False
    then have j: "join '','' (map member_text (m # ms)) = member_text m @ '','' @ join '','' (map member_text ms)"
      by (simp add: length_join_Cons)
    let ?t = "'','' @ join '','' (map member_text ms) @ CHR 0x7D # r"
    have rest: "parse_members n' (join '','' (map member_text ms) @ CHR 0x7D # r) = Some (ms, r)"
      using Cons.prems(2) unfolding j n by (intro Cons.IH [OF False]) (auto intro: Cons.prems(3))
    have len: "2 * length (json_stringify v) + 1 \<le> n'"
      using Cons.prems(2) unfolding j n by (simp add: m member_text_def)
    have "join '','' (map member_text (m # ms)) @ CHR 0x7D # r = member_text m @ ?t" by (simp only: j append_assoc)
    then show ?thesis
      using Cons.prems(3) [of m n' ?t] len rest
      by (simp only: head) (simp add: n m skip_ws_id parse_quoted cons_read_def)
  qed
qed simp

lemma parse_value_stringify:
  "textual v \<Longrightarrow> ends_value r \<Longrightarrow> 2 * length (json_stringify v) + 1 \<le> n \<Longrightarrow>
    parse_value n (json_stringify v @ r) = Some (v, r)"
proof (induction v arbitrary: n r rule: json.induct)
  case (JStr s)
  then obtain n' where n: "n = Suc n'" by (cases n) auto
  show ?case by (simp add: n parse_json_quote skip_ws_id parse_quoted)
next
  case (JArr xs)
  then obtain n' where n: "n = Suc n'" by (cases n) auto
  show ?case
  proof (cases "xs = []")
    case True
    then show ?thesis by (simp add: n skip_ws_id)
  next
    case False
    then obtain x xs' where xs: "xs = x # xs'" by (cases xs) auto
    have "textual x" using JArr.prems(1) xs by simp
    then obtain c t where c: "json_stringify x = c # t" "\<not> json_space c" "c \<noteq> CHR 0x5D" by (rule stringify_first)
    obtain u where u: "join '','' (map json_stringify xs) = c # u" using c(1) by (cases xs') (auto simp: xs)
    have "parse_items n' (join '','' (map json_stringify xs) @ CHR 0x5D # r) = Some (xs, r)"
      using JArr.prems by (intro parse_items_join [OF False]) (auto simp: n list_all_iff intro!: JArr.IH)
    then show ?thesis using c(2,3) by (simp add: n u skip_ws_id)
  qed
next
  case (JObj ms)
  then obtain n' where n: "n = Suc n'" by (cases n) auto
  show ?case
  proof (cases "ms = []")
    case True
    then show ?thesis by (simp add: n skip_ws_id)
  next
    case False
    then obtain m ms' where ms: "ms = m # ms'" by (cases ms) auto
    obtain u where u: "join '','' (map member_text ms) = CHR 0x22 # u"
      by (cases ms') (auto simp: ms member_text_def json_quote_def)
    have len: "2 * length (join '','' (map member_text ms)) + 2 \<le> n'"
      using JObj.prems(3) unfolding stringify_object by (simp add: n)
    have "parse_members n' (join '','' (map member_text ms) @ CHR 0x7D # r) = Some (ms, r)"
      using JObj.prems(1) by (intro parse_members_join [OF False len]) (auto simp: list_all_iff intro!: JObj.IH snds.intros)
    then show ?thesis
      using JObj.prems(1) unfolding stringify_object by (simp add: n u skip_ws_id object_of_distinct)
  qed
next
  case JNull
  then obtain n' where n: "n = Suc n'" by (cases n) auto
  show ?case by (simp add: n skip_ws_id literal_def)
next
  case (JBool b)
  then obtain n' where n: "n = Suc n'" by (cases n) auto
  show ?case by (cases b) (simp_all add: n skip_ws_id literal_def)
next
  case (JNum a)
  then obtain n' where n: "n = Suc n'" by (cases n) auto
  obtain k where k: "a = Fin (of_nat k)" "int k \<le> 2 ^ 53" using JNum.prems(1) by (auto elim: count_num_nat)
  obtain c t where c: "nat_digits k = c # t" by (cases "nat_digits k") auto
  have "is_digit c" using nat_digits_digits [of k] by (simp add: c)
  then have d: "\<not> json_space c" "c \<noteq> CHR 0x22" "c \<noteq> CHR 0x5B" "c \<noteq> CHR 0x7B" "c \<noteq> CHR ''t''" "c \<noteq> CHR ''f''" "c \<noteq> CHR ''n''"
    by (auto simp: is_digit_def json_space_def)
  show ?case
    using parse_number_digits [OF JNum.prems(2) k(2)] d
    unfolding k(1) stringify_count [OF k(2)] by (simp add: n c skip_ws_id)
qed

lemma json_parse_stringify:
  assumes "textual v"
  shows "json_parse (json_stringify v) = Some v"
proof -
  have "parse_value (2 * length (json_stringify v) + 2) (json_stringify v @ []) = Some (v, [])"
    by (rule parse_value_stringify [OF assms]) simp_all
  then show ?thesis by (simp add: json_parse_def skip_ws_def)
qed

subsection \<open>The fuel\<close>

lemma cons_read_Some: "cons_read x r = Some (ys, rest) \<longleftrightarrow> (\<exists>xs. r = Some (xs, rest) \<and> ys = x # xs)"
  by (cases r) (auto simp: cons_read_def)

lemma skip_ws_length: "length (skip_ws s) \<le> length s"
  by (simp add: skip_ws_def length_dropWhile_le)

lemma skip_ws_Cons: "skip_ws s = c # r \<Longrightarrow> length r < length s"
  using skip_ws_length [of s] by simp

lemma parse_string_shorter: "parse_string s = Some (t, r) \<Longrightarrow> length r < length s"
  by (induction s arbitrary: t rule: parse_string.induct)
    (force simp: cons_read_Some split: if_splits list.splits option.splits)+

lemma digits_split_shorter: "digits_split s = (ds, r) \<Longrightarrow> length ds + length r = length s"
  by (auto simp: digits_split_def simp flip: length_append)

lemma json_int_shorter: "json_int s = Some (ds, r) \<Longrightarrow> length r < length s"
proof -
  assume a: "json_int s = Some (ds, r)"
  obtain ds' r' where d: "digits_split s = (ds', r')" by (cases "digits_split s")
  then have "ds = ds'" "r = r'" "ds \<noteq> []" using a by (auto simp: json_int_def split: if_splits)
  with digits_split_shorter [OF d] show ?thesis by (cases ds) auto
qed

lemma json_frac_shorter: "json_frac s = Some (ds, r) \<Longrightarrow> length r \<le> length s"
  by (auto simp: json_frac_def split: if_splits prod.splits list.splits dest!: digits_split_shorter)

lemma json_exp_shorter: "json_exp s = Some (ds, r) \<Longrightarrow> length r \<le> length s"
  by (auto simp: json_exp_def split: if_splits prod.splits list.splits dest!: digits_split_shorter)

lemma parse_number_shorter: "parse_number s = Some (v, r) \<Longrightarrow> length r < length s"
  by (auto simp: parse_number_def split: option.splits prod.splits list.splits if_splits
      dest!: json_int_shorter json_frac_shorter json_exp_shorter)

lemma literal_shorter: "literal name v s = Some (w, r) \<Longrightarrow> name \<noteq> [] \<Longrightarrow> s \<noteq> [] \<Longrightarrow> length r < length s"
  by (auto simp: literal_def split: if_splits)

lemma parse_shorter:
  "\<And>v r. parse_value n s = Some (v, r) \<Longrightarrow> length r < length s"
  "\<And>vs r. parse_items n s = Some (vs, r) \<Longrightarrow> length r < length s"
  "\<And>ms r. parse_members n s = Some (ms, r) \<Longrightarrow> length r < length s"
proof (induction n s and n s and n s rule: parse_value_parse_items_parse_members.induct)
  case (2 n s)
  show ?case
  proof (cases "skip_ws s")
    case (Cons c u)
    then have l: "length u < length s" by (rule skip_ws_Cons)
    show ?thesis using 2 l Cons
      by (fastforce split: if_splits list.splits
          dest: parse_string_shorter literal_shorter parse_number_shorter skip_ws_Cons)
  qed (use 2 in simp)
next
  case (4 n s)
  then show ?case
    by (fastforce simp: cons_read_Some split: option.splits list.splits if_splits dest: skip_ws_Cons)
next
  case (6 n s)
  then show ?case
    by (fastforce simp: cons_read_Some split: option.splits list.splits if_splits dest: skip_ws_Cons parse_string_shorter)
qed simp_all

text \<open>Whatever fuel reads a text, the fuel \<open>json_parse\<close> gives reads the same from it.\<close>

lemma parse_enough:
  "\<And>x m. parse_value n s = Some x \<Longrightarrow> 2 * length s + 1 \<le> m \<Longrightarrow> parse_value m s = Some x"
  "\<And>x m. parse_items n s = Some x \<Longrightarrow> 2 * length s + 2 \<le> m \<Longrightarrow> parse_items m s = Some x"
  "\<And>x m. parse_members n s = Some x \<Longrightarrow> 2 * length s + 2 \<le> m \<Longrightarrow> parse_members m s = Some x"
proof (induction n s and n s and n s rule: parse_value_parse_items_parse_members.induct)
  case (2 n s)
  obtain m' where m: "m = Suc m'" using 2(4) by (cases m) auto
  obtain c u where c: "skip_ws s = c # u" using 2(3) by (auto split: list.splits)
  then have "length u < length s" by (rule skip_ws_Cons)
  then have l: "2 * length u + 2 \<le> m'" using 2(4) m by simp
  have items: "parse_items m' u = Some y" if "parse_items n u = Some y" "skip_ws u = d # r'" "c = CHR 0x5B" "d \<noteq> CHR 0x5D" for y d r'
    using 2(1) [OF c] that l by simp
  have members: "parse_members m' u = Some y" if "parse_members n u = Some y" "skip_ws u = d # r'" "c = CHR 0x7B" "d \<noteq> CHR 0x7D" for y d r'
    using 2(2) [OF c] that l by simp
  consider "c = CHR 0x5B" | "c = CHR 0x7B" | "c \<noteq> CHR 0x5B" "c \<noteq> CHR 0x7B" by blast
  then show ?case
  proof cases
    case 1
    then show ?thesis
      using 2(3) unfolding m by (cases "skip_ws u"; cases "parse_items n u") (auto simp: c items split: if_splits)
  next
    case b: 2
    then show ?thesis
      using 2(3) unfolding m by (cases "skip_ws u"; cases "parse_members n u") (auto simp: c members split: if_splits)
  next
    case 3
    then show ?thesis using 2(3) unfolding m by (auto simp: c split: if_splits)
  qed
next
  case (4 n s)
  obtain m' where m: "m = Suc m'" using 4(4) by (cases m) auto
  obtain v r where v: "parse_value n s = Some (v, r)" using 4(3) by (cases "parse_value n s"; cases "the (parse_value n s)") simp_all
  then have v': "parse_value m' s = Some (v, r)" using 4(4) m by (intro 4(1) [OF v]) simp
  have r: "length r < length s" using parse_shorter(1) [OF v] .
  have items: "parse_items m' r' = Some y" if "parse_items n r' = Some y" "skip_ws r = d # r'" "d = CHR 0x2C" for y d r'
    using skip_ws_Cons [OF that(2)] r 4(4) m by (intro 4(2) [OF v refl that(2,3,1)]) simp
  obtain d r' where d: "skip_ws r = d # r'" using 4(3) v by (cases "skip_ws r") simp_all
  show ?case
  proof (cases "d = CHR 0x2C")
    case True
    then show ?thesis
      using 4(3) unfolding m by (cases "parse_items n r'") (simp_all add: v v' d items [OF _ d] cons_read_def)
  next
    case False
    then show ?thesis using 4(3) unfolding m by (simp add: v v' d)
  qed
next
  case (6 n s)
  obtain m' where m: "m = Suc m'" using 6(4) by (cases m) auto
  obtain q u where q: "skip_ws s = q # u" "q = CHR 0x22"
    using 6(3) by (cases "skip_ws s") (simp_all split: if_splits)
  obtain k r1 where k: "parse_string u = Some (k, r1)" using 6(3) q by (cases "parse_string u"; cases "the (parse_string u)") simp_all
  obtain d r2 where d: "skip_ws r1 = d # r2" "d = CHR 0x3A"
    using 6(3) q k by (cases "skip_ws r1") (simp_all split: if_splits)
  obtain v r3 where v: "parse_value n r2 = Some (v, r3)" using 6(3) q k d by (cases "parse_value n r2"; cases "the (parse_value n r2)") simp_all
  have l: "length u < length s" "length r1 < length u" "length r2 < length r1" "length r3 < length r2"
    using skip_ws_Cons q(1) parse_string_shorter [OF k] skip_ws_Cons [OF d(1)] parse_shorter(1) [OF v] by auto
  have v': "parse_value m' r2 = Some (v, r3)"
    using q d l 6(4) m by (intro 6(1) [OF q(1) _ k refl d(1) _ v]) simp_all
  have members: "parse_members m' r4 = Some y" if "parse_members n r4 = Some y" "skip_ws r3 = x # r4" "x = CHR 0x2C" for y x r4
    using q d l skip_ws_Cons [OF that(2)] 6(4) m
    by (intro 6(2) [OF q(1) _ k refl d(1) _ v refl that(2,3,1)]) simp_all
  obtain x' r4 where x: "skip_ws r3 = x' # r4" using 6(3) q k d v by (cases "skip_ws r3") simp_all
  show ?case
  proof (cases "x' = CHR 0x2C")
    case True
    then show ?thesis
      using 6(3) unfolding m
      by (cases "parse_members n r4") (simp_all add: q k d v v' x members [OF _ x] cons_read_def)
  next
    case False
    then show ?thesis using 6(3) unfolding m by (simp add: q k d v v' x)
  qed
qed simp_all

lemma json_parse_fuel:
  "parse_value n s = Some (v, r) \<Longrightarrow> skip_ws r = [] \<Longrightarrow> json_parse s = Some v"
  using parse_enough(1) [of n s "(v, r)" "2 * length s + 2"] by (simp add: json_parse_def)

end
