(* ===== verification/Saved_Views.thy ===== *)
theory Saved_Views
  imports Json_Parse I18n
begin

text \<open>
  The saved views of \<open>lib/observability.ts\<close>: a list kept as JSON text under one key of
  \<open>localStorage\<close>, the newest first and twenty at most. What is stored may be anything, so the
  operations work on JSON values as the code does: reading never fails (a text that is not JSON, or
  a storage that refuses, reads as no views), while saving and deleting fail (\<open>None\<close>, the
  exception reaches the caller) when the stored value is not an array, when an element is
  \<open>null\<close>, and when the storage refuses the write.
\<close>

record saved_view =
  sv_id :: string
  sv_name :: string
  sv_metric :: string
  sv_containers :: "string list"
  sv_since :: string
  sv_chartType :: string
  sv_createdAt :: string

definition VIEWS_KEY :: string where
  "VIEWS_KEY = ''argus-saved-views''"

definition view_json :: "saved_view \<Rightarrow> json" where
  "view_json v = JObj
     [(''id'', JStr (sv_id v)), (''name'', JStr (sv_name v)), (''metric'', JStr (sv_metric v)),
      (''containers'', JArr (map JStr (sv_containers v))), (''since'', JStr (sv_since v)),
      (''chartType'', JStr (sv_chartType v)), (''createdAt'', JStr (sv_createdAt v))]"

definition loadSavedViews :: "storage \<Rightarrow> json" where
  "loadSavedViews st =
     (case st of None \<Rightarrow> JArr []
      | Some m \<Rightarrow>
          (case m VIEWS_KEY of None \<Rightarrow> JArr []
           | Some raw \<Rightarrow> if raw = [] then JArr [] else coalesce (json_parse raw) (JArr [])))"

text \<open>\<open>v.id !== id\<close>: None where reading the member throws.\<close>

definition other_id :: "string \<Rightarrow> json \<Rightarrow> bool option" where
  "other_id id0 v =
     (case v of
        JNull \<Rightarrow> None
      | JObj ms \<Rightarrow> Some (map_of ms ''id'' \<noteq> Some (JStr id0))
      | _ \<Rightarrow> Some True)"

fun filter_other :: "string \<Rightarrow> json list \<Rightarrow> json list option" where
  "filter_other id0 [] = Some []"
| "filter_other id0 (v # vs) =
     (case other_id id0 v of None \<Rightarrow> None
      | Some keep \<Rightarrow> map_option (\<lambda>rest. if keep then v # rest else rest) (filter_other id0 vs))"

definition views_without :: "string \<Rightarrow> storage \<Rightarrow> json list option" where
  "views_without id0 st = (case loadSavedViews st of JArr vs \<Rightarrow> filter_other id0 vs | _ \<Rightarrow> None)"

definition write_views :: "json list \<Rightarrow> storage \<Rightarrow> storage option" where
  "write_views vs st =
     (case st of None \<Rightarrow> None | Some _ \<Rightarrow> Some (storage_set VIEWS_KEY (json_stringify (JArr vs)) st))"

definition saveView :: "saved_view \<Rightarrow> storage \<Rightarrow> storage option" where
  "saveView view st =
     (case views_without (sv_id view) st of None \<Rightarrow> None
      | Some views \<Rightarrow> write_views (take 20 (view_json view # views)) st)"

definition deleteView :: "string \<Rightarrow> storage \<Rightarrow> storage option" where
  "deleteView id0 st =
     (case views_without id0 st of None \<Rightarrow> None | Some views \<Rightarrow> write_views views st)"

subsection \<open>The abstract list\<close>

text \<open>A storage holds a list of views when reading it gives their objects.\<close>

definition holds_views :: "storage \<Rightarrow> saved_view list \<Rightarrow> bool" where
  "holds_views st vs \<longleftrightarrow> st \<noteq> None \<and> loadSavedViews st = JArr (map view_json vs)"

definition save_abs :: "saved_view \<Rightarrow> saved_view list \<Rightarrow> saved_view list" where
  "save_abs v vs = take 20 (v # filter (\<lambda>w. sv_id w \<noteq> sv_id v) vs)"

definition delete_abs :: "string \<Rightarrow> saved_view list \<Rightarrow> saved_view list" where
  "delete_abs i vs = filter (\<lambda>w. sv_id w \<noteq> i) vs"

lemma other_id_view [simp]: "other_id i (view_json v) = Some (sv_id v \<noteq> i)"
  by (simp add: other_id_def view_json_def)

lemma filter_other_views [simp]:
  "filter_other i (map view_json vs) = Some (map view_json (delete_abs i vs))"
  by (induction vs) (simp_all add: delete_abs_def)

lemma textual_view [simp]: "textual (view_json v)"
  by (simp add: view_json_def list_all_iff)

lemma textual_views: "textual (JArr (map view_json vs))"
  by (simp add: list_all_iff)

lemma stringify_array_nonempty: "json_stringify (JArr xs) \<noteq> []"
  by simp

lemma holds_write: "holds_views (storage_set VIEWS_KEY (json_stringify (JArr (map view_json vs))) (Some m)) vs"
  using json_parse_stringify [OF textual_views, of vs]
  by (simp add: holds_views_def storage_set_def loadSavedViews_def)

lemma save_refines:
  assumes "holds_views st vs"
  obtains st' where "saveView v st = Some st'" "holds_views st' (save_abs v vs)"
proof -
  obtain m where st: "st = Some m" using assms by (auto simp: holds_views_def)
  have w: "views_without (sv_id v) st = Some (map view_json (delete_abs (sv_id v) vs))"
    using assms by (simp add: views_without_def holds_views_def)
  have "take 20 (view_json v # map view_json (delete_abs (sv_id v) vs)) = map view_json (save_abs v vs)"
    by (simp add: save_abs_def delete_abs_def take_map flip: list.map)
  with w st have "saveView v st = Some (storage_set VIEWS_KEY (json_stringify (JArr (map view_json (save_abs v vs)))) (Some m))"
    by (simp only: saveView_def write_views_def option.case)
  from this holds_write show ?thesis by (rule that)
qed

lemma delete_refines:
  assumes "holds_views st vs"
  obtains st' where "deleteView i st = Some st'" "holds_views st' (delete_abs i vs)"
proof -
  obtain m where st: "st = Some m" using assms by (auto simp: holds_views_def)
  have "views_without i st = Some (map view_json (delete_abs i vs))"
    using assms by (simp add: views_without_def holds_views_def)
  with st have "deleteView i st = Some (storage_set VIEWS_KEY (json_stringify (JArr (map view_json (delete_abs i vs)))) (Some m))"
    by (simp only: deleteView_def write_views_def option.case)
  from this holds_write show ?thesis by (rule that)
qed

subsection \<open>Sessions\<close>

datatype view_op = Save saved_view | Delete string

fun views_step :: "view_op \<Rightarrow> storage \<Rightarrow> storage option" where
  "views_step (Save v) st = saveView v st"
| "views_step (Delete i) st = deleteView i st"

fun views_run :: "view_op list \<Rightarrow> storage \<Rightarrow> storage option" where
  "views_run [] st = Some st"
| "views_run (x # xs) st = (case views_step x st of None \<Rightarrow> None | Some st' \<Rightarrow> views_run xs st')"

fun step_abs :: "view_op \<Rightarrow> saved_view list \<Rightarrow> saved_view list" where
  "step_abs (Save v) vs = save_abs v vs"
| "step_abs (Delete i) vs = delete_abs i vs"

definition tidy_views :: "saved_view list \<Rightarrow> bool" where
  "tidy_views vs \<longleftrightarrow> distinct (map sv_id vs) \<and> length vs \<le> 20"

lemma tidy_step: "tidy_views vs \<Longrightarrow> tidy_views (step_abs x vs)"
proof (cases x)
  case (Save v)
  assume "tidy_views vs"
  then have "distinct (map sv_id (v # delete_abs (sv_id v) vs))"
    by (auto simp: tidy_views_def delete_abs_def distinct_map intro: inj_on_subset)
  then have "distinct (take 20 (map sv_id (v # delete_abs (sv_id v) vs)))" by (rule distinct_take)
  then show ?thesis by (simp only: Save step_abs.simps save_abs_def tidy_views_def delete_abs_def take_map) simp
next
  case (Delete i)
  assume "tidy_views vs"
  then show ?thesis
    by (auto simp: Delete tidy_views_def delete_abs_def distinct_map intro: inj_on_subset order_trans [OF length_filter_le])
qed

lemma views_step_refines:
  assumes "holds_views st vs"
  obtains st' where "views_step x st = Some st'" "holds_views st' (step_abs x vs)"
proof (cases x)
  case (Save v)
  with save_refines [OF assms, of v] that show ?thesis by auto
next
  case (Delete i)
  with delete_refines [OF assms, of i] that show ?thesis by auto
qed

lemma views_run_refines:
  "holds_views st vs \<Longrightarrow> tidy_views vs \<Longrightarrow>
     \<exists>st'. views_run xs st = Some st' \<and> holds_views st' (foldl (\<lambda>vs x. step_abs x vs) vs xs)
       \<and> tidy_views (foldl (\<lambda>vs x. step_abs x vs) vs xs)"
proof (induction xs arbitrary: st vs)
  case (Cons x xs)
  obtain st' where s: "views_step x st = Some st'" "holds_views st' (step_abs x vs)"
    by (rule views_step_refines [OF Cons.prems(1)])
  from Cons.IH [OF s(2) tidy_step [OF Cons.prems(2)]] s(1) show ?case by simp
qed simp

text \<open>A stored value that is JSON but no list: reading gives it, saving and deleting fail.\<close>

lemma stored_non_list_stops_saving:
  "m VIEWS_KEY = Some ''{}'' \<Longrightarrow>
   loadSavedViews (Some m) = JObj [] \<and> saveView v (Some m) = None \<and> deleteView i (Some m) = None"
proof -
  assume "m VIEWS_KEY = Some ''{}''"
  moreover have "json_parse ''{}'' = Some (JObj [])" by code_simp
  ultimately show ?thesis
    by (simp add: loadSavedViews_def saveView_def deleteView_def views_without_def)
qed

subsection \<open>Properties\<close>

text \<open>C2. Saved views in a browser that has none yet: whatever views are saved and deleted, no
  step fails, the storage holds exactly the list the abstract operations give (a view goes in front
  and replaces the one with its id, the rest keep their order, what is past twenty is dropped), and
  the list never has two views of one id or more than twenty.\<close>

theorem saved_views_refine_list:
  assumes "m VIEWS_KEY = None"
  shows "\<exists>st. views_run ops (Some m) = Some st
     \<and> loadSavedViews st = JArr (map view_json (foldl (\<lambda>vs x. step_abs x vs) [] ops))
     \<and> distinct (map sv_id (foldl (\<lambda>vs x. step_abs x vs) [] ops))
     \<and> length (foldl (\<lambda>vs x. step_abs x vs) [] ops) \<le> 20"
proof -
  have "holds_views (Some m) []" using assms by (simp add: holds_views_def loadSavedViews_def)
  moreover have "tidy_views []" by (simp add: tidy_views_def)
  ultimately show ?thesis using views_run_refines [of "Some m" "[]" ops] by (auto simp: holds_views_def tidy_views_def)
qed

definition sample_view :: "string \<Rightarrow> string \<Rightarrow> saved_view" where
  "sample_view i n = \<lparr>sv_id = i, sv_name = n, sv_metric = ''cpu.usage'', sv_containers = [''web'', ''db''],
     sv_since = ''1h'', sv_chartType = ''line'', sv_createdAt = ''2024-01-01''\<rparr>"

lemma saved_views_refine_list_witness:
  "\<exists>st. views_run [Save (sample_view ''a'' ''one''), Save (sample_view ''b'' ''two''), Save (sample_view ''a'' ''three''),
        Delete ''b''] (Some (\<lambda>_. None)) = Some st
     \<and> loadSavedViews st = JArr [view_json (sample_view ''a'' ''three'')]"
proof -
  let ?ops = "[Save (sample_view ''a'' ''one''), Save (sample_view ''b'' ''two''), Save (sample_view ''a'' ''three''),
    Delete ''b'']"
  have l: "foldl (\<lambda>vs x. step_abs x vs) [] ?ops = [sample_view ''a'' ''three'']"
    by (simp add: save_abs_def delete_abs_def sample_view_def)
  show ?thesis using saved_views_refine_list [of "\<lambda>_. None" ?ops, OF refl] unfolding l by (simp only: list.map) blast
qed

text \<open>Whether an element has an id, and what is left of a list without \<open>null\<close>.\<close>

definition has_id :: "string \<Rightarrow> json \<Rightarrow> bool" where
  "has_id i v = (case v of JObj ms \<Rightarrow> map_of ms ''id'' = Some (JStr i) | _ \<Rightarrow> False)"

lemma other_id_eq: "other_id i v = (if v = JNull then None else Some (\<not> has_id i v))"
  by (cases v) (simp_all add: other_id_def has_id_def)

lemma filter_other_eq: "filter_other i vs = (if JNull \<in> set vs then None else Some (filter (\<lambda>v. \<not> has_id i v) vs))"
  by (induction vs) (auto simp: other_id_eq)

text \<open>C30. What the operations do with every storage and every stored value. Without a storage there are no
  views and saving and deleting fail. Reading gives what the entry holds, and no views when there is no entry or one that is no JSON (the empty text
  among them); it never fails. When that is a list without \<open>null\<close>, saving puts the view in front of the others, without those of its id, and keeps the first twenty;
  deleting leaves those of another id; with a \<open>null\<close> in the list, and with any other JSON value, both fail.\<close>

theorem saved_views_errors:
  "loadSavedViews None = JArr [] \<and> saveView v None = None \<and> deleteView i None = None
   \<and> loadSavedViews (Some m) = (case m VIEWS_KEY of None \<Rightarrow> JArr [] | Some raw \<Rightarrow> coalesce (json_parse raw) (JArr []))
   \<and> (case loadSavedViews (Some m) of
        JArr vs \<Rightarrow>
          if JNull \<in> set vs then saveView v (Some m) = None \<and> deleteView i (Some m) = None
          else saveView v (Some m) = Some (storage_set VIEWS_KEY (json_stringify (JArr
                 (take 20 (view_json v # filter (\<lambda>j. \<not> has_id (sv_id v) j) vs)))) (Some m))
             \<and> deleteView i (Some m) = Some (storage_set VIEWS_KEY (json_stringify (JArr
                 (filter (\<lambda>j. \<not> has_id i j) vs))) (Some m))
      | _ \<Rightarrow> saveView v (Some m) = None \<and> deleteView i (Some m) = None)"
proof (intro conjI)
  show "loadSavedViews None = JArr []" "saveView v None = None" "deleteView i None = None"
    by (simp_all add: loadSavedViews_def saveView_def deleteView_def views_without_def write_views_def)
  have "json_parse [] = None" by code_simp
  then show "loadSavedViews (Some m) = (case m VIEWS_KEY of None \<Rightarrow> JArr [] | Some raw \<Rightarrow> coalesce (json_parse raw) (JArr []))"
    by (simp add: loadSavedViews_def split: option.split)
  show "case loadSavedViews (Some m) of
        JArr vs \<Rightarrow>
          if JNull \<in> set vs then saveView v (Some m) = None \<and> deleteView i (Some m) = None
          else saveView v (Some m) = Some (storage_set VIEWS_KEY (json_stringify (JArr
                 (take 20 (view_json v # filter (\<lambda>j. \<not> has_id (sv_id v) j) vs)))) (Some m))
             \<and> deleteView i (Some m) = Some (storage_set VIEWS_KEY (json_stringify (JArr
                 (filter (\<lambda>j. \<not> has_id i j) vs))) (Some m))
      | _ \<Rightarrow> saveView v (Some m) = None \<and> deleteView i (Some m) = None"
    by (simp add: saveView_def deleteView_def views_without_def write_views_def filter_other_eq split: json.split)
qed

lemma null_view_stops_saving: "saveView v (Some (\<lambda>_. Some ''[null]'')) = None"
proof -
  have "json_parse ''[null]'' = Some (JArr [JNull])" by code_simp
  then have "loadSavedViews (Some (\<lambda>_. Some ''[null]'')) = JArr [JNull]" by (simp add: loadSavedViews_def)
  then show ?thesis by (simp add: saveView_def views_without_def filter_other_eq)
qed

end
