(* ===== verification/Metric_Compare.thy ===== *)
theory Metric_Compare
  imports Container_Metrics Saved_Views
begin

text \<open>
  \<open>views/metric-compare.tsx\<close>: one metric of several containers. The choice is in the address, the
  containers as one parameter separated by commas; an effect makes a first choice once; a load is
  cancelled by the next one; the saved views are read from and written to the storage. What an
  event handler does when saving throws is nothing: the state and the storage stay.
\<close>

subsection \<open>The choice\<close>

definition seriesContainer :: "container_series \<Rightarrow> string" where
  "seriesContainer s = str_or (last (split_on (CHR '':'') (s_entity_uid s))) (s_container s)"

definition selected_containers :: "params \<Rightarrow> string list" where
  "selected_containers ps = filter (\<lambda>c. c \<noteq> []) (split_on (CHR '','') (query_value ''containers'' [] ps))"

definition workload_names :: "workload_snapshot list \<Rightarrow> string list" where
  "workload_names workloads = sort (map w_container workloads)"

definition compare_metric :: "params \<Rightarrow> string" where
  "compare_metric ps = query_value ''metric'' ''memory.usage_pct'' ps"

definition compare_chart :: "params \<Rightarrow> string" where
  "compare_chart ps = query_value ''chart'' ''area'' ps"

definition chart_type :: "string \<Rightarrow> string" where
  "chart_type c = (if c = ''line'' then ''line'' else ''area'')"

text \<open>The effect that makes the first choice, with the ref that says it has run.\<close>

definition initial_selection ::
  "string \<Rightarrow> workload_snapshot list \<Rightarrow> bool \<times> params \<Rightarrow> bool \<times> params" where
  "initial_selection grp workloads st =
     (let (initialized, ps) = st; names = workload_names workloads; service = query_value ''service'' [] ps in
      if initialized \<or> names = [] then st
      else if grp \<noteq> [] \<or> selected_containers ps \<noteq> [] then (True, ps)
      else
        let initial = (if service \<noteq> []
              then map w_container (filter (\<lambda>w. matchesService (w_container w) (w_service w) service) workloads)
              else slice 0 3 names);
            picked = (if initial \<noteq> [] then initial else slice 0 3 names)
        in (True, query_patch [(''containers'', Some (join '','' picked)), (''service'', None)] [] ps))"

definition toggle_name :: "string \<Rightarrow> string list \<Rightarrow> string list" where
  "toggle_name name selected = (if name \<in> set selected then filter (\<lambda>c. c \<noteq> name) selected else selected @ [name])"

definition toggleContainer :: "string \<Rightarrow> params \<Rightarrow> params" where
  "toggleContainer name ps =
     query_patch [(''containers'', Some (join '','' (toggle_name name (selected_containers ps))))] [] ps"

subsection \<open>The load\<close>

record compare_query =
  cq_metric :: string
  cq_since :: string
  cq_group :: string
  cq_selected :: "string list"

record metric_compare =
  mc_catalog :: "metric_catalog_entry list"
  mc_series :: "container_series list"
  mc_loading :: bool
  mc_viewName :: string
  mc_savedViews :: json
  mc_run :: nat

definition metric_compare_init :: "storage \<Rightarrow> metric_compare" where
  "metric_compare_init st = \<lparr>mc_catalog = [], mc_series = [], mc_loading = False, mc_viewName = [],
     mc_savedViews = loadSavedViews st, mc_run = 0\<rparr>"

definition the_query :: "string \<Rightarrow> string \<Rightarrow> params \<Rightarrow> compare_query" where
  "the_query since grp ps =
     \<lparr>cq_metric = compare_metric ps, cq_since = since, cq_group = grp, cq_selected = selected_containers ps\<rparr>"

definition compare_request ::
  "metric_series_response fetch \<Rightarrow> string \<Rightarrow> compare_query \<Rightarrow> api_error + metric_series_response" where
  "compare_request mfetch base q =
     fetchMetricSeries mfetch base (cq_metric q) (Some (cq_since q)) None (given (cq_group q))"

definition compare_load :: "compare_query \<Rightarrow> metric_compare \<Rightarrow> metric_compare" where
  "compare_load q st = st\<lparr>mc_loading := True, mc_run := Suc (mc_run st)\<rparr>"

definition kept_series :: "compare_query \<Rightarrow> metric_series_response \<Rightarrow> container_series list" where
  "kept_series q resp =
     (let s = coalesce (m_series resp) [] in
      if cq_group q = [] \<and> cq_selected q \<noteq> []
      then filter (\<lambda>x. s_container x \<in> set (cq_selected q) \<or> seriesContainer x \<in> set (cq_selected q)) s
      else s)"

text \<open>The series an answer to a question leaves on the page.\<close>

definition compare_result :: "compare_query \<times> (api_error + metric_series_response) \<Rightarrow> container_series list" where
  "compare_result a = (case snd a of Inr resp \<Rightarrow> kept_series (fst a) resp | Inl _ \<Rightarrow> [])"

definition compare_settle ::
  "nat \<Rightarrow> compare_query \<times> (api_error + metric_series_response) \<Rightarrow> metric_compare \<Rightarrow> metric_compare" where
  "compare_settle run a st =
     (if run \<noteq> mc_run st then st else st\<lparr>mc_series := compare_result a, mc_loading := False\<rparr>)"

definition catalog_answer :: "api_error + metric_catalog_entry list \<Rightarrow> metric_compare \<Rightarrow> metric_compare" where
  "catalog_answer r st = st\<lparr>mc_catalog := (case r of Inr cs \<Rightarrow> cs | Inl _ \<Rightarrow> [])\<rparr>"

subsection \<open>What is derived\<close>

definition catalog_entry :: "metric_catalog_entry list \<Rightarrow> string \<Rightarrow> metric_catalog_entry option" where
  "catalog_entry catalog metric = List.find (\<lambda>c. c_name c = metric) catalog"

definition metric_unit :: "metric_catalog_entry list \<Rightarrow> string \<Rightarrow> string" where
  "metric_unit catalog metric =
     (case catalog_entry catalog metric of
        None \<Rightarrow> []
      | Some m \<Rightarrow> if c_unit m = ''%'' then ''%'' else if c_unit m = ''bytes'' then '' MiB'' else '' '' @ c_unit m)"

definition metric_transform :: "string \<Rightarrow> (jsnum \<Rightarrow> jsnum) option" where
  "metric_transform metric =
     (if metric = ''memory.usage'' \<or> metric = ''memory.limit'' then Some mebibytes
      else if metric = ''http.error_rate'' then Some tenths_pct
      else if metric = ''http.duration_ms'' then Some math_round
      else None)"

definition openable :: "string \<Rightarrow> string list \<Rightarrow> container_series list \<Rightarrow> string list" where
  "openable grp selected series =
     (if grp \<noteq> [] \<or> selected = [] then firsts (map seriesContainer series) else selected)"

definition compare_scope :: "translate \<Rightarrow> string \<Rightarrow> string list \<Rightarrow> string" where
  "compare_scope t grp selected =
     (if grp \<noteq> [] then t ''metrics.groupContainers'' []
      else if selected = [] then t ''metrics.allContainers'' []
      else if length selected = 1 then t ''metrics.oneContainer'' []
      else t ''metrics.nContainers'' [(''count'', TInt (int (length selected)))])"

subsection \<open>Saved views\<close>

definition new_view :: "string \<Rightarrow> string \<Rightarrow> string \<Rightarrow> params \<Rightarrow> metric_compare \<Rightarrow> saved_view" where
  "new_view uuid created since ps st =
     \<lparr>sv_id = uuid, sv_name = trim (mc_viewName st), sv_metric = compare_metric ps,
      sv_containers = selected_containers ps, sv_since = since, sv_chartType = chart_type (compare_chart ps),
      sv_createdAt = created\<rparr>"

definition handleSaveView ::
  "string \<Rightarrow> string \<Rightarrow> string \<Rightarrow> params \<Rightarrow> storage \<times> metric_compare \<Rightarrow> storage \<times> metric_compare" where
  "handleSaveView uuid created since ps w =
     (let (store, st) = w in
      if trim (mc_viewName st) = [] then w
      else case saveView (new_view uuid created since ps st) store of
             None \<Rightarrow> w
           | Some store' \<Rightarrow> (store', st\<lparr>mc_savedViews := loadSavedViews store', mc_viewName := []\<rparr>))"

definition handleDeleteView :: "string \<Rightarrow> storage \<times> metric_compare \<Rightarrow> storage \<times> metric_compare" where
  "handleDeleteView i w =
     (let (store, st) = w in
      case deleteView i store of None \<Rightarrow> w
      | Some store' \<Rightarrow> (store', st\<lparr>mc_savedViews := loadSavedViews store'\<rparr>))"

definition applyView :: "saved_view \<Rightarrow> params \<Rightarrow> params" where
  "applyView view ps =
     query_patch [(''metric'', Some (sv_metric view)), (''since'', Some (sv_since view)),
       (''containers'', Some (join '','' (sv_containers view))), (''chart'', Some (sv_chartType view)), (''group'', None)] [] ps"

text \<open>The views a stored value stands for: None when it is not a list of their objects.\<close>

definition text_of :: "json \<Rightarrow> string option" where
  "text_of v = (case v of JStr s \<Rightarrow> Some s | _ \<Rightarrow> None)"

definition texts_of :: "json \<Rightarrow> string list option" where
  "texts_of v = (case v of JArr xs \<Rightarrow> sequence (map text_of xs) | _ \<Rightarrow> None)"

definition member_of :: "(string \<times> json) list \<Rightarrow> string \<Rightarrow> (json \<Rightarrow> 'a option) \<Rightarrow> 'a option" where
  "member_of ms k f = Option.bind (map_of ms k) f"

definition view_of_json :: "json \<Rightarrow> saved_view option" where
  "view_of_json v =
     (case v of
        JObj ms \<Rightarrow>
          (case (member_of ms ''id'' text_of, member_of ms ''name'' text_of, member_of ms ''metric'' text_of,
                 member_of ms ''containers'' texts_of, member_of ms ''since'' text_of, member_of ms ''chartType'' text_of,
                 member_of ms ''createdAt'' text_of) of
             (Some i, Some n, Some m, Some cs, Some s, Some c, Some d) \<Rightarrow>
               Some \<lparr>sv_id = i, sv_name = n, sv_metric = m, sv_containers = cs, sv_since = s, sv_chartType = c, sv_createdAt = d\<rparr>
           | _ \<Rightarrow> None)
      | _ \<Rightarrow> None)"

definition shown_views :: "json \<Rightarrow> saved_view list option" where
  "shown_views v = (case v of JArr vs \<Rightarrow> sequence (map view_of_json vs) | _ \<Rightarrow> None)"

subsection \<open>Actions and view\<close>

datatype mc_action =
    Choose_Metric | Compare_Stat stat_mode | Choose_Chart string | Toggle_Container string
  | Edit_View_Name | Save_View | Apply_View saved_view | Delete_View string

fun metric_compare_query :: "mc_action \<Rightarrow> string \<Rightarrow> params \<Rightarrow> params" where
  "metric_compare_query Choose_Metric typed ps = query_set ''metric'' ''memory.usage_pct'' typed ps"
| "metric_compare_query (Compare_Stat m) typed ps = query_set ''stat'' ''avg'' (mode_string m) ps"
| "metric_compare_query (Choose_Chart c) typed ps = query_set ''chart'' ''area'' c ps"
| "metric_compare_query (Toggle_Container name) typed ps = toggleContainer name ps"
| "metric_compare_query (Apply_View v) typed ps = applyView v ps"
| "metric_compare_query _ typed ps = ps"

fun metric_compare_step ::
  "string \<Rightarrow> string \<Rightarrow> string \<Rightarrow> params \<Rightarrow> mc_action \<Rightarrow> string \<Rightarrow> storage \<times> metric_compare \<Rightarrow> storage \<times> metric_compare" where
  "metric_compare_step uuid created since ps Edit_View_Name typed w = (fst w, (snd w)\<lparr>mc_viewName := typed\<rparr>)"
| "metric_compare_step uuid created since ps Save_View typed w = handleSaveView uuid created since ps w"
| "metric_compare_step uuid created since ps (Delete_View i) typed w = handleDeleteView i w"
| "metric_compare_step uuid created since ps _ typed w = w"

definition metric_section :: "translate \<Rightarrow> params \<Rightarrow> metric_compare \<Rightarrow> mc_action ui" where
  "metric_section t ps st =
     (let chart = compare_chart ps in
      el ''section''
       [el ''h2'' [Text (t ''metrics.title'' [])],
        El ''select'' [(''aria-label'', AStr (t ''metrics.title'' [])), (''value'', AStr (compare_metric ps)),
            (''onChange'', AHandler Choose_Metric)]
          (map (\<lambda>m. El ''option'' [(''value'', AStr (c_name m))] [Text (localizeMetricLabel t (c_name m) (c_label m))]) (mc_catalog st)),
        el ''div''
         [map_ui Compare_Stat (stat_toggle t (parseStatMode (query_value ''stat'' ''avg'' ps))),
          El ''div'' [(''role'', AStr ''group''), (''aria-label'', AStr (t ''chart.chartType'' []))]
           [choice_button ''default'' ''outline'' (chart = ''area'') False (Choose_Chart ''area'') (t ''chart.area'' []),
            choice_button ''default'' ''outline'' (chart = ''line'') False (Choose_Chart ''line'') (t ''chart.line'' [])]]])"

definition names_section :: "translate \<Rightarrow> string \<Rightarrow> string list \<Rightarrow> string list \<Rightarrow> mc_action ui" where
  "names_section t grp selected names =
     el ''section''
      ([el ''h2'' [Text (t ''nav.containers'' [])]]
       @ opt (grp \<noteq> []) (el ''p'' [Text (t ''metrics.groupHint'' [])])
       @ [el ''ul'' (map (\<lambda>name. el ''li''
            [El ''button'' [(''disabled'', ABool (grp \<noteq> [])), (''aria-pressed'', ABool (name \<in> set selected)),
               (''onClick'', AHandler (Toggle_Container name))] [Text name]]) names)])"

definition views_section :: "translate \<Rightarrow> string \<Rightarrow> saved_view list \<Rightarrow> mc_action ui" where
  "views_section t viewName views =
     el ''section''
      ([el ''h2'' [Text (t ''views.title'' [])],
        El ''form'' [(''onSubmit'', AHandler Save_View)]
         [El ''Input'' [(''aria-label'', AStr (t ''views.name'' [])), (''placeholder'', AStr (t ''views.name'' [])),
             (''value'', AStr viewName), (''onChange'', AHandler Edit_View_Name)] [],
          El ''Button'' [(''type'', AStr ''submit''), (''disabled'', ABool (trim viewName = []))] [Text (t ''views.saveShort'' [])]]]
       @ opt (views \<noteq> []) (el ''ul'' (map (\<lambda>v. el ''li''
           [button False (Apply_View v) (sv_name v),
            El ''Button'' [(''aria-label'', AStr (t ''views.delete'' [(''name'', TStr (sv_name v))])),
                (''onClick'', AHandler (Delete_View (sv_id v)))] [Text (t ''views.deleteShort'' [])]]) views)))"

text \<open>None when what is stored is not a list of saved views; what is shown then is not modelled.\<close>

definition metric_compare_view ::
  "env \<Rightarrow> string \<Rightarrow> string \<Rightarrow> workload_snapshot list \<Rightarrow> params \<Rightarrow> metric_compare \<Rightarrow> mc_action ui option" where
  "metric_compare_view e since grp workloads ps st =
     (let t = tr e; selected = selected_containers ps; metric = compare_metric ps;
          names = openable grp selected (mc_series st);
          title = localizeMetricLabel t metric
            (case catalog_entry (mc_catalog st) metric of Some c \<Rightarrow> c_label c | None \<Rightarrow> metric)
      in map_option (\<lambda>views. el ''div''
           [el ''aside''
             [metric_section t ps st, names_section t grp selected (workload_names workloads),
              views_section t (mc_viewName st) views],
            el ''div''
             ([multi_series_chart e title (Some (compare_scope t grp selected)) (mc_series st) (mc_loading st)
                 (metric_unit (mc_catalog st) metric) (metric_transform metric) (chart_type (compare_chart ps))
                 (Some (parseStatMode (query_value ''stat'' ''avg'' ps)))]
              @ opt (names \<noteq> [])
                 (el ''div'' ([el ''span'' [Text (t ''metrics.openContainer'' [])]]
                   @ map (\<lambda>name. link (''/metrics?container='' @ encodeURIComponent name @ ''&since='' @ since) [Text name]) names)))])
         (shown_views (mc_savedViews st)))"

subsection \<open>The guarded load\<close>

interpretation compare_run: guarded_page mc_run compare_load compare_settle mc_loading "\<lambda>_. False"
  mc_series "\<lambda>q a. fst a = q" "\<lambda>_. True" compare_result
proof unfold_locales
  fix q s r a
  show "mc_run (compare_load q s) = Suc (mc_run s)" by (simp add: compare_load_def)
  show "mc_run (compare_settle r a s) = mc_run s" by (simp add: compare_settle_def)
  show "r \<noteq> mc_run s \<Longrightarrow> compare_settle r a s = s" by (simp add: compare_settle_def)
  show "mc_loading (compare_load q s)" by (simp add: compare_load_def)
  show "\<not> mc_loading (compare_settle (mc_run s) a s)" by (simp add: compare_settle_def)
  show "mc_series (compare_settle (mc_run s) a s) = compare_result a" by (simp add: compare_settle_def)
qed simp_all

subsection \<open>The containers in the address\<close>

text \<open>Names the address can carry.\<close>

definition plain_names :: "string list \<Rightarrow> bool" where
  "plain_names xs \<longleftrightarrow> (\<forall>x\<in>set xs. x \<noteq> [] \<and> CHR '','' \<notin> set x)"

lemma split_on_pieces: "x \<in> set (split_on c s) \<Longrightarrow> c \<notin> set x"
  by (induction s arbitrary: x) (force split: if_splits list.splits)+

lemma plain_selected: "plain_names (selected_containers ps)"
  by (auto simp: plain_names_def selected_containers_def dest: split_on_pieces)

lemma plain_toggle: "plain_names xs \<Longrightarrow> name \<noteq> [] \<Longrightarrow> CHR '','' \<notin> set name \<Longrightarrow> plain_names (toggle_name name xs)"
  by (auto simp: plain_names_def toggle_name_def)

lemma split_joined:
  assumes "plain_names xs"
  shows "filter (\<lambda>c. c \<noteq> []) (split_on (CHR '','') (join '','' xs)) = xs"
proof (cases "xs = []")
  case False
  then have "split_on (CHR '','') (join '','' xs) = xs"
    using assms by (intro split_on_join) (auto simp: plain_names_def)
  then show ?thesis using assms by (simp add: plain_names_def filter_id_conv)
qed simp

lemma join_empty: "join '','' xs = [] \<Longrightarrow> plain_names xs \<Longrightarrow> xs = []"
  by (cases xs rule: list.exhaust; cases "tl xs") (auto simp: plain_names_def)

text \<open>What a patch of the containers makes the selection.\<close>

lemma selected_patch:
  assumes "distinct (map fst p)" "map_of p ''containers'' = Some (Some (join '','' xs))" "plain_names xs"
  shows "selected_containers (query_patch p [] ps) = xs"
  using split_joined [OF assms(3)] assms(2)
  by (auto simp: selected_containers_def query_value_def params_get_patch [OF assms(1)] elided_def)

lemma selected_toggle:
  "name \<noteq> [] \<Longrightarrow> CHR '','' \<notin> set name \<Longrightarrow>
   selected_containers (toggleContainer name ps) = toggle_name name (selected_containers ps)"
  unfolding toggleContainer_def by (intro selected_patch) (simp_all add: plain_toggle plain_selected)

lemma filter_remove_absent: "name \<notin> set xs \<Longrightarrow> filter (\<lambda>c. c \<noteq> name) xs = xs"
  by (induction xs) auto

subsection \<open>The first choice\<close>

definition first_choice :: "workload_snapshot list \<Rightarrow> string \<Rightarrow> string list" where
  "first_choice workloads service =
     (let own = map w_container (filter (\<lambda>w. matchesService (w_container w) (w_service w) service) workloads);
          three = take 3 (workload_names workloads)
      in if service = [] \<or> own = [] then three else own)"

lemma set_workload_names: "set (workload_names workloads) = w_container ` set workloads"
  by (simp add: workload_names_def)

lemma set_first_choice: "set (first_choice workloads service) \<subseteq> set (map w_container workloads)"
  using set_take_subset [of 3 "workload_names workloads"] by (auto simp: first_choice_def set_workload_names Let_def)

lemma plain_first_choice:
  "plain_names (map w_container workloads) \<Longrightarrow> plain_names (first_choice workloads service)"
  using set_first_choice [of workloads service] unfolding plain_names_def by blast

lemma initial_selection_choice:
  assumes "workloads \<noteq> []" "selected_containers ps = []" "plain_names (map w_container workloads)"
  shows "selected_containers (snd (initial_selection [] workloads (False, ps)))
     = first_choice workloads (query_value ''service'' [] ps)"
proof -
  have n: "workload_names workloads \<noteq> []" using assms(1) set_workload_names [of workloads] by force
  have c: "snd (initial_selection [] workloads (False, ps))
      = query_patch [(''containers'', Some (join '','' (first_choice workloads (query_value ''service'' [] ps)))), (''service'', None)] [] ps"
    using n assms(2) by (auto simp: initial_selection_def first_choice_def slice_def Let_def)
  show ?thesis unfolding c by (intro selected_patch) (simp_all add: plain_first_choice assms(3))
qed

subsection \<open>Saved views\<close>

lemma view_of_json_view [simp]: "view_of_json (view_json v) = Some v"
proof -
  have "sequence (map (text_of \<circ> JStr) xs) = Some xs" for xs by (induction xs) (simp_all add: text_of_def)
  then show ?thesis by (simp add: view_of_json_def view_json_def member_of_def text_of_def texts_of_def)
qed

lemma shown_views_views: "shown_views (JArr (map view_json vs)) = Some vs"
proof -
  have "sequence (map (view_of_json \<circ> view_json) vs) = Some vs" by (induction vs) simp_all
  then show ?thesis by (simp add: shown_views_def)
qed

lemma save_view_stored:
  assumes "holds_views store vs" "trim (mc_viewName st) \<noteq> []"
  obtains store' where
    "handleSaveView uuid created since ps (store, st)
       = (store', st\<lparr>mc_savedViews := loadSavedViews store', mc_viewName := []\<rparr>)"
    "holds_views store' (save_abs (new_view uuid created since ps st) vs)"
proof -
  obtain store' where s: "saveView (new_view uuid created since ps st) store = Some store'"
    "holds_views store' (save_abs (new_view uuid created since ps st) vs)" by (rule save_refines [OF assms(1)])
  then have "handleSaveView uuid created since ps (store, st)
       = (store', st\<lparr>mc_savedViews := loadSavedViews store', mc_viewName := []\<rparr>)"
    using assms(2) by (simp add: handleSaveView_def)
  with s(2) show ?thesis by (rule that [rotated])
qed

lemma apply_new_view:
  assumes "compare_metric ps \<noteq> []"
  shows "the_query s' [] (applyView (new_view uuid created since ps st) ps') = (the_query s' [] ps)"
    and "chart_type (compare_chart (applyView (new_view uuid created since ps st) ps')) = chart_type (compare_chart ps)"
    and "since \<noteq> [] \<Longrightarrow> query_value ''since'' d (applyView (new_view uuid created since ps st) ps') = since"
    and "query_value ''group'' [] (applyView (new_view uuid created since ps st) ps') = []"
proof -
  let ?v = "new_view uuid created since ps st"
  have d: "distinct (map fst [(''metric'', Some (sv_metric ?v)), (''since'', Some (sv_since ?v)),
       (''containers'', Some (join '','' (sv_containers ?v))), (''chart'', Some (sv_chartType ?v)), (''group'', None)])"
    by simp
  have "selected_containers (applyView ?v ps') = selected_containers ps"
    unfolding applyView_def by (rule selected_patch [OF d]) (simp_all add: new_view_def plain_selected)
  moreover have "compare_metric (applyView ?v ps') = compare_metric ps"
    using assms unfolding applyView_def compare_metric_def query_value_def params_get_patch [OF d]
    by (simp add: new_view_def elided_def compare_metric_def query_value_def)
  ultimately show "the_query s' [] (applyView ?v ps') = the_query s' [] ps" by (simp add: the_query_def)
  show "chart_type (compare_chart (applyView ?v ps')) = chart_type (compare_chart ps)"
    unfolding applyView_def compare_chart_def query_value_def params_get_patch [OF d]
    by (simp add: new_view_def elided_def chart_type_def compare_chart_def query_value_def)
  show "since \<noteq> [] \<Longrightarrow> query_value ''since'' d (applyView ?v ps') = since" for d
    unfolding applyView_def query_value_def params_get_patch [OF d] by (simp add: new_view_def elided_def)
  show "query_value ''group'' [] (applyView ?v ps') = []"
    unfolding applyView_def query_value_def params_get_patch [OF d] by (simp add: new_view_def elided_def)
qed

subsection \<open>Properties\<close>

text \<open>C7. When the comparison does not load, its series come from the answer to the metric, the
  window, the group and the containers now in the address: those of the chosen containers when no
  group is chosen, all of them otherwise, and none when that load failed.\<close>

theorem compare_series_current:
  assumes "guarded_reachable mc_run compare_load compare_settle (\<lambda>q a. fst a = q) (\<lambda>_. True) (metric_compare_init store) w"
    and "\<not> mc_loading (gw_page w)"
  shows "\<exists>r. gw_shown w = Some (gw_query w, (gw_query w, r))
     \<and> mc_series (gw_page w) = (case r of Inl _ \<Rightarrow> [] | Inr resp \<Rightarrow> kept_series (gw_query w) resp)"
proof -
  obtain a where a: "gw_shown w = Some (gw_query w, a)" "fst a = gw_query w" "mc_series (gw_page w) = compare_result a"
    using compare_run.shows_current [OF assms] by auto
  then show ?thesis by (cases a) (auto simp: compare_result_def split: sum.split)
qed

definition sample_compare_query :: compare_query where
  "sample_compare_query = \<lparr>cq_metric = ''cpu.usage'', cq_since = ''1h'', cq_group = [], cq_selected = [''web'']\<rparr>"

definition sample_response :: metric_series_response where
  "sample_response = \<lparr>m_metric_name = ''cpu.usage'',
     m_series = Some [\<lparr>s_container = ''web'', s_entity_uid = ''docker:web'', s_points = None\<rparr>,
                      \<lparr>s_container = ''db'', s_entity_uid = ''docker:db'', s_points = None\<rparr>]\<rparr>"

definition sample_compared ::
  "(compare_query, compare_query \<times> (api_error + metric_series_response), metric_compare) guarded" where
  "sample_compared =
     \<lparr>gw_page = (metric_compare_init None)\<lparr>mc_series := kept_series sample_compare_query sample_response, mc_run := 1\<rparr>,
      gw_query = sample_compare_query, gw_pending = [],
      gw_shown = Some (sample_compare_query, (sample_compare_query, Inr sample_response))\<rparr>"

lemma sample_compared_reachable:
  "guarded_reachable mc_run compare_load compare_settle (\<lambda>q a. fst a = q) (\<lambda>_. True) (metric_compare_init None) sample_compared"
proof -
  let ?main = "\<lambda>q a. fst a = q"
  let ?w0 = "\<lparr>gw_page = (metric_compare_init None)\<lparr>mc_loading := True, mc_run := 1\<rparr>, gw_query = sample_compare_query,
    gw_pending = [(1, sample_compare_query)], gw_shown = None\<rparr>"
  have m: "guarded_reachable mc_run compare_load compare_settle ?main (\<lambda>_. True) (metric_compare_init None) ?w0"
    using guarded_reachable.mount [of mc_run compare_load compare_settle ?main "\<lambda>_. True" "metric_compare_init None" sample_compare_query]
    by (simp add: send_load_def compare_load_def metric_compare_init_def Let_def)
  have p: "gw_pending ?w0 = [] @ (1, sample_compare_query) # []" by simp
  have "guarded_step mc_run compare_load compare_settle ?main (\<lambda>_. True) ?w0 sample_compared"
    using guarded_step.main [OF p, of ?main "(sample_compare_query, Inr sample_response)" mc_run compare_load compare_settle "\<lambda>_. True"]
    by (simp add: compare_settle_def metric_compare_init_def sample_compared_def compare_result_def)
  with m show ?thesis by (rule guarded_reachable.step)
qed

lemma compare_series_current_witness:
  "\<exists>r. gw_shown sample_compared = Some (gw_query sample_compared, (gw_query sample_compared, r))
     \<and> mc_series (gw_page sample_compared) = (case r of Inl _ \<Rightarrow> [] | Inr resp \<Rightarrow> kept_series (gw_query sample_compared) resp)"
  by (rule compare_series_current [OF sample_compared_reachable]) (simp add: sample_compared_def metric_compare_init_def)

text \<open>C12. Saving a view and opening it brings the comparison back: with a name and a storage that
  holds views, the new view is stored and listed first, the name field is cleared, and opening it
  from any address asks for the same metric and containers in the same window, without a group,
  in the same kind of chart.\<close>

theorem saved_view_restores:
  assumes "holds_views store vs" "trim (mc_viewName st) \<noteq> []" "compare_metric ps \<noteq> []" "since \<noteq> []"
  shows "\<exists>store' v. handleSaveView uuid created since ps (store, st)
       = (store', st\<lparr>mc_savedViews := loadSavedViews store', mc_viewName := []\<rparr>)
     \<and> shown_views (loadSavedViews store') = Some (save_abs v vs) \<and> hd (save_abs v vs) = v
     \<and> sv_name v = trim (mc_viewName st)
     \<and> (let ps'' = applyView v ps' in
          the_query (query_value ''since'' d ps'') (query_value ''group'' [] ps'') ps'' = the_query since [] ps
          \<and> chart_type (compare_chart ps'') = chart_type (compare_chart ps))"
proof -
  let ?v = "new_view uuid created since ps st"
  obtain store' where s: "handleSaveView uuid created since ps (store, st)
       = (store', st\<lparr>mc_savedViews := loadSavedViews store', mc_viewName := []\<rparr>)" "holds_views store' (save_abs ?v vs)"
    by (rule save_view_stored [OF assms(1,2)])
  then have "shown_views (loadSavedViews store') = Some (save_abs ?v vs)"
    by (simp add: holds_views_def shown_views_views)
  moreover have "hd (save_abs ?v vs) = ?v" by (simp add: save_abs_def)
  moreover have "sv_name ?v = trim (mc_viewName st)" by (simp add: new_view_def)
  moreover note apply_new_view [OF assms(3)] s(1)
  ultimately show ?thesis using assms(4) by (intro exI [of _ store'] exI [of _ ?v]) (simp add: Let_def)
qed

lemma saved_view_restores_witness:
  "\<exists>store' v. handleSaveView ''id'' ''now'' ''6h'' [(''containers'', ''web,db''), (''chart'', ''line'')]
       (Some (\<lambda>_. None), (metric_compare_init None)\<lparr>mc_viewName := ''mine''\<rparr>)
       = (store', (metric_compare_init None)\<lparr>mc_viewName := ''mine''\<rparr>\<lparr>mc_savedViews := loadSavedViews store', mc_viewName := []\<rparr>)
     \<and> shown_views (loadSavedViews store') = Some (save_abs v []) \<and> sv_name v = ''mine''"
proof -
  let ?ps = "[(''containers'', ''web,db''), (''chart'', ''line'')]"
  let ?st = "(metric_compare_init None)\<lparr>mc_viewName := ''mine''\<rparr>"
  have n: "trim (mc_viewName ?st) = ''mine''" by simp code_simp
  have "holds_views (Some (\<lambda>_. None)) []" by (simp add: holds_views_def loadSavedViews_def)
  moreover have "trim (mc_viewName ?st) \<noteq> []" "compare_metric ?ps \<noteq> []" "''6h'' \<noteq> []"
    by (simp_all only: n) (simp_all add: compare_metric_def query_value_def params_get_def)
  ultimately show ?thesis
    using saved_view_restores [of "Some (\<lambda>_. None)" "[]" ?st ?ps "''6h''" "''id''" "''now''" "[]" "[]"]
    unfolding n by blast
qed

text \<open>Clicking a container in the list adds it at the end of the selection or takes it out, keeps
  the others in their order and the rest of the address, and clicking a new one twice changes
  nothing: for a name that is not empty and has no comma.\<close>

theorem toggle_container_functional:
  assumes "name \<noteq> []" "CHR '','' \<notin> set name"
  shows "selected_containers (toggleContainer name ps)
      = (if name \<in> set (selected_containers ps) then filter (\<lambda>c. c \<noteq> name) (selected_containers ps)
         else selected_containers ps @ [name])
    \<and> (name \<notin> set (selected_containers ps) \<longrightarrow>
         selected_containers (toggleContainer name (toggleContainer name ps)) = selected_containers ps)
    \<and> (\<forall>k. k \<noteq> ''containers'' \<longrightarrow> params_get (toggleContainer name ps) k = params_get ps k)"
proof -
  have "params_get (toggleContainer name ps) k = params_get ps k" if "k \<noteq> ''containers''" for k
    using that by (simp add: toggleContainer_def params_get_patch)
  then show ?thesis
    using selected_toggle [OF assms] by (simp add: toggle_name_def filter_remove_absent)
qed

lemma toggle_container_functional_witness:
  "selected_containers (toggleContainer ''web'' [(''containers'', ''db'')]) = [''db'', ''web'']"
proof -
  have "selected_containers [(''containers'', ''db'')] = [''db'']"
    by (simp add: selected_containers_def query_value_def params_get_def)
  then show ?thesis using toggle_container_functional [of "''web''" "[(''containers'', ''db'')]"] by simp
qed

text \<open>The first choice is made once: after the effect has run with workloads it never changes the
  address again, whatever the workloads and the group become. It leaves a group or a selection
  alone; otherwise it selects the containers of the wanted service, or the first three by name.\<close>

theorem first_choice_once:
  assumes "workloads \<noteq> []" "plain_names (map w_container workloads)"
  shows "\<exists>ps'. initial_selection grp workloads (False, ps) = (True, ps')
     \<and> (\<forall>grp' workloads' ps''. initial_selection grp' workloads' (True, ps'') = (True, ps''))
     \<and> (grp \<noteq> [] \<or> selected_containers ps \<noteq> [] \<longrightarrow> ps' = ps)
     \<and> (grp = [] \<and> selected_containers ps = [] \<longrightarrow>
          selected_containers ps' = first_choice workloads (query_value ''service'' [] ps))"
proof -
  let ?r = "initial_selection grp workloads (False, ps)"
  have n: "workload_names workloads \<noteq> []" using assms(1) set_workload_names [of workloads] by force
  then have "?r = (True, snd ?r)" by (simp add: initial_selection_def Let_def)
  moreover have "initial_selection grp' workloads' (True, ps'') = (True, ps'')" for grp' workloads' ps''
    by (simp add: initial_selection_def Let_def)
  moreover have "grp \<noteq> [] \<or> selected_containers ps \<noteq> [] \<longrightarrow> snd ?r = ps" using n by (simp add: initial_selection_def Let_def)
  moreover have "grp = [] \<and> selected_containers ps = [] \<longrightarrow>
      selected_containers (snd ?r) = first_choice workloads (query_value ''service'' [] ps)"
    using initial_selection_choice [OF assms(1) _ assms(2), of ps] by simp
  ultimately show ?thesis by blast
qed

lemma first_choice_once_witness:
  "\<exists>ps'. initial_selection [] [sample_workload ''web'' 0] (False, []) = (True, ps') \<and> selected_containers ps' = [''web'']"
proof -
  have "selected_containers [] = []" by (simp add: selected_containers_def query_value_def params_get_def)
  moreover have "first_choice [sample_workload ''web'' 0] (query_value ''service'' [] []) = [''web'']"
    by (simp add: first_choice_def workload_names_def sample_workload_def query_value_def params_get_def)
  moreover have "plain_names (map w_container [sample_workload ''web'' 0])" by (simp add: plain_names_def sample_workload_def)
  ultimately show ?thesis using first_choice_once [of "[sample_workload ''web'' 0]" "[]" "[]"] by auto
qed

text \<open>A name with a comma is not found again in the address (see the findings).\<close>

lemma comma_name_falls_apart:
  "selected_containers (toggleContainer ''a,b'' []) = [''a'', ''b'']"
  by (simp add: toggleContainer_def toggle_name_def selected_containers_def query_value_def params_get_def query_patch_def
      elided_def)

end
