(* ===== verification/Metrics_Page.thy ===== *)
theory Metrics_Page
  imports Metric_Compare
begin

text \<open>
  \<open>pages/metrics.tsx\<close>: the frame of the two ways to look at metrics. It loads the workloads once
  and the members of the chosen group, without a guard, and hands them to the view of one container
  or to the comparison.
\<close>

record metrics_page =
  mt_workloads :: "workload_snapshot list"
  mt_members :: "string list option"

definition metrics_page_init :: metrics_page where
  "metrics_page_init = \<lparr>mt_workloads = [], mt_members = None\<rparr>"

definition metrics_workloads :: "api_error + workload_snapshot list \<Rightarrow> metrics_page \<Rightarrow> metrics_page" where
  "metrics_workloads r st = st\<lparr>mt_workloads := (case r of Inr ws \<Rightarrow> ws | Inl _ \<Rightarrow> [])\<rparr>"

text \<open>The effect of the group, with the group it asks for, and the answer to it.\<close>

definition metrics_group_effect :: "string \<Rightarrow> metrics_page \<Rightarrow> metrics_page \<times> string option" where
  "metrics_group_effect grp st = (if grp = [] then (st\<lparr>mt_members := None\<rparr>, None) else (st, Some grp))"

definition metrics_members :: "api_error + workload_group_summary \<Rightarrow> metrics_page \<Rightarrow> metrics_page" where
  "metrics_members r st = st\<lparr>mt_members := Some (summary_members r)\<rparr>"

datatype metrics_action =
    Mt_Group | Mt_Window picker_action | Mt_Mode string | In_Compare mc_action | In_Container cm_action

fun metrics_query :: "env \<Rightarrow> jsnum \<Rightarrow> picker \<Rightarrow> metrics_action \<Rightarrow> string \<Rightarrow> params \<Rightarrow> params" where
  "metrics_query e now pk Mt_Group typed ps = query_set ''group'' [] typed ps"
| "metrics_query e now pk (Mt_Window a) typed ps =
     (case snd (picker_step e now typed a pk) of Some v \<Rightarrow> query_set ''since'' ''1h'' v ps | None \<Rightarrow> ps)"
| "metrics_query e now pk (Mt_Mode v) typed ps = query_patch [(''mode'', Some v)] [(''mode'', ''container'')] ps"
| "metrics_query e now pk (In_Compare a) typed ps = metric_compare_query a typed ps"
| "metrics_query e now pk (In_Container a) typed ps = container_metrics_query a ps"

definition metrics_view ::
  "env \<Rightarrow> params \<Rightarrow> picker \<Rightarrow> group_select_state \<Rightarrow> metrics_page \<Rightarrow> container_metrics \<Rightarrow> metric_compare
     \<Rightarrow> metrics_action ui option" where
  "metrics_view e ps pk gs st cm mc =
     (let t = tr e; mode = query_value ''mode'' ''container'' ps; since = query_value ''since'' ''1h'' ps;
          grp = query_value ''group'' [] ps
      in map_option (\<lambda>body. el ''div''
           [page_header (t ''metrics.title'' []) None
              [map_ui (\<lambda>_. Mt_Group) (group_select t grp False None gs), map_ui Mt_Window (time_range_picker e since pk)],
            El ''Tabs'' [(''value'', AStr mode)]
             [El ''TabsList'' [(''aria-label'', AStr (t ''common.mode'' []))]
               [El ''TabsTrigger'' [(''value'', AStr ''container''), (''onSelect'', AHandler (Mt_Mode ''container''))]
                  [Text (t ''metrics.byContainer'' [])],
                El ''TabsTrigger'' [(''value'', AStr ''compare''), (''onSelect'', AHandler (Mt_Mode ''compare''))]
                  [Text (t ''metrics.compare'' [])]]],
            body])
         (if mode = ''compare''
          then map_option (map_ui In_Compare) (metric_compare_view e since grp (mt_workloads st) ps mc)
          else Some (map_ui In_Container (container_metrics_view e since (mt_workloads st) (mt_members st) ps cm))))"

subsection \<open>The group and the default container\<close>

lemma set_summary_members: "set (summary_members (Inr s)) = w_container ` set (gs_members s)"
  by (simp add: summary_members_def)

lemma default_effect_member:
  assumes "\<forall>w\<in>set workloads. measured w \<and> w_container w \<noteq> []" "query_value ''service'' [] ps = []"
    and "default_effect workloads (Some ms) ps = Some ps'"
  shows "query_value ''container'' [] ps' \<in> set ms \<inter> w_container ` set workloads"
proof -
  have c: "query_value ''container'' [] ps = []" "selectable workloads (Some ms) \<noteq> []"
    using assms(3) by (auto simp: default_effect_def default_container_def split: if_splits)
  let ?w = "chosen workloads (Some ms) []"
  obtain b where b: "busiest workloads (selectable workloads (Some ms)) = Some b" by (rule busiest_exists [OF c(2)])
  have m: "\<forall>w\<in>set workloads. measured w" using assms(1) by blast
  have w: "?w = b" by (simp add: chosen_def of_service_def b)
  have ps': "ps' = query_patch [(''container'', Some (w_container b)), (''service'', None)] [] ps"
    using default_effect_chosen [OF c] assms(2,3) w by simp
  have "b \<in> set workloads" "w_container b \<in> set (selectable workloads (Some ms))" using busiest_first(1,2) [OF b m] .
  then show ?thesis
    using assms(1) unfolding ps' by (auto simp: query_value_def params_get_patch elided_def selectable_def)
qed

text \<open>The wanted service is looked for among all workloads, not only in the group.\<close>

lemma service_default_ignores_group:
  "default_effect [sample_workload ''web'' 0, sample_workload ''db'' 0] (Some [''db'']) [(''service'', ''web'')]
     = Some [(''container'', ''web'')]"
  by (simp add: default_effect_def default_container_def query_value_def params_get_def selectable_def sample_workload_def
      query_patch_def elided_def matchesService_own params_delete_def)

text \<open>An answer for a group that is no longer chosen limits the containers all the same.\<close>

lemma stale_group_limits_containers:
  "mt_members (metrics_members r (fst (metrics_group_effect [] (fst (metrics_group_effect grp st))))) = Some (summary_members r)"
  by (simp add: metrics_members_def)

subsection \<open>Properties\<close>

text \<open>C35. Choosing a group and then looking at one container: once the members of the group are known,
  the container the page opens without being asked for a service belongs to the group and is a
  recent workload; when the members cannot be read, no container is opened.\<close>

theorem group_default_is_member:
  assumes "\<forall>w\<in>set (mt_workloads st). measured w \<and> w_container w \<noteq> []" "query_value ''service'' [] ps = []"
    and "default_effect (mt_workloads st) (mt_members (metrics_members r st)) ps = Some ps'"
  shows "\<exists>s. r = Inr s \<and> query_value ''container'' [] ps' \<in> w_container ` set (gs_members s) \<inter> w_container ` set (mt_workloads st)"
proof (cases r)
  case (Inl e)
  then show ?thesis using assms(3)
    by (simp add: metrics_members_def summary_members_def default_effect_def default_container_def selectable_def)
next
  case (Inr s)
  then show ?thesis
    using default_effect_member [OF assms(1,2), of "summary_members r"] assms(3) set_summary_members [of s]
    by (simp add: metrics_members_def)
qed

definition sample_summary :: workload_group_summary where
  "sample_summary = \<lparr>gs_group = \<lparr>g_id = ''g'', g_name = ''g'', g_kind = ''custom'', g_description = None, g_label_key = None,
       g_label_value = None, g_containers = None, g_member_count = None, g_created_at = None, g_updated_at = None\<rparr>,
     gs_member_count = 1, gs_avg_cpu = 0, gs_avg_memory_pct = 0, gs_total_memory = 0,
     gs_members = [sample_workload ''db'' 0]\<rparr>"

lemma group_default_is_member_witness:
  "\<exists>s. Inr sample_summary = (Inr s :: api_error + workload_group_summary)
     \<and> query_value ''container'' [] [(''container'', ''db'')]
         \<in> w_container ` set (gs_members s) \<inter> w_container ` set [sample_workload ''web'' (Fin 1), sample_workload ''db'' 0]"
proof -
  let ?st = "metrics_page_init\<lparr>mt_workloads := [sample_workload ''web'' (Fin 1), sample_workload ''db'' 0]\<rparr>"
  have "\<forall>w\<in>set (mt_workloads ?st). measured w \<and> w_container w \<noteq> []"
    using rep_of_int [of 1] by (simp add: sample_workload_def measured_def is_double_def)
  moreover have "default_effect (mt_workloads ?st) (mt_members (metrics_members (Inr sample_summary) ?st)) [] = Some [(''container'', ''db'')]"
    by (simp add: metrics_members_def summary_members_def sample_summary_def sample_workload_def default_effect_def
        default_container_def selectable_def query_value_def params_get_def busiest_def query_patch_def elided_def
        params_delete_def firsts_def)
  ultimately show ?thesis
    using group_default_is_member [of ?st "[]" "Inr sample_summary" "[(''container'', ''db'')]"]
    by (simp add: query_value_def params_get_def)
qed

end
