(* ===== verification/Overview.thy ===== *)
theory Overview
  imports Containers
begin

text \<open>
  \<open>pages/overview.tsx\<close>: the polled load of the overview (the health first, then four requests at
  once), what it keeps of the answers, the list of what needs action, the cards and the view.
\<close>

definition HTTP_ERROR_RATE :: jsnum where
  "HTTP_ERROR_RATE = to_num (1 / 100)"

definition LIST_LIMIT :: nat where
  "LIST_LIMIT = 8"

record overview_data =
  ov_alerts :: "active_alert list"
  ov_slos :: "slo_status list"
  ov_unstable :: "container_fleet_status list"
  ov_http :: "http_service_summary list"

record action_item =
  ai_key :: string
  ai_title :: string
  ai_detail :: string
  ai_variant :: string
  ai_label :: string
  ai_to :: string

definition EMPTY :: overview_data where
  "EMPTY = \<lparr>ov_alerts = [], ov_slos = [], ov_unstable = [], ov_http = []\<rparr>"

record overview_page =
  op_data :: overview_data
  op_loading :: bool
  op_error :: "string option"

definition overview_init :: overview_page where
  "overview_init = \<lparr>op_data = EMPTY, op_loading = True, op_error = None\<rparr>"

type_synonym overview_answers =
  "active_alert list \<times> slo_status list \<times> fleet_status_response \<times> http_service_summary list"

definition overview_request ::
  "health_status fetch \<Rightarrow> active_alert body fetch \<Rightarrow> slo_status body fetch \<Rightarrow> fleet_status_response fetch
     \<Rightarrow> http_service_summary body fetch \<Rightarrow> string \<Rightarrow> api_error + overview_answers" where
  "overview_request hfetch afetch sfetch ffetch tfetch base =
     (case getHealth hfetch base of
        Inl err \<Rightarrow> Inl err
      | Inr _ \<Rightarrow> both (fetchActiveAlerts afetch base) (both (fetchSLOStatuses sfetch base)
                  (both (fetchFleetStatus ffetch base) (fetchHTTPSummary tfetch base (Some ''1h'')))))"

text \<open>
  What the page keeps of the answers; a fleet without a list of containers throws, which is a
  rejection like any other.
\<close>

definition overview_select :: "overview_answers \<Rightarrow> overview_data option" where
  "overview_select ans =
     (let (alerts, slos, fleet, http) = ans in
      map_option (\<lambda>containers.
        \<lparr>ov_alerts = alerts,
         ov_slos = filter (\<lambda>s. breached s \<or> error_budget_remaining s < Fin 30) slos,
         ov_unstable = filter isUnstable containers,
         ov_http = js_sort (\<lambda>a b. error_rate b - error_rate a)
           (filter (\<lambda>s. hs_requests s > 0 \<and> error_rate s \<ge> HTTP_ERROR_RATE) http)\<rparr>) (fr_containers fleet))"

definition overview_answer :: "translate \<Rightarrow> api_error + overview_answers \<Rightarrow> overview_page \<Rightarrow> overview_page" where
  "overview_answer t r st =
     (case (case r of Inr ans \<Rightarrow> overview_select ans | Inl _ \<Rightarrow> None) of
        Some d \<Rightarrow> st\<lparr>op_data := d, op_error := None\<rparr>
      | None \<Rightarrow> st\<lparr>op_error := Some (t ''common.hubDown'' [])\<rparr>)\<lparr>op_loading := False\<rparr>"

subsection \<open>What needs action\<close>

definition breached_count :: "overview_data \<Rightarrow> int" where
  "breached_count d = int (length (filter breached (ov_slos d)))"

definition alert_item :: "translate \<Rightarrow> active_alert \<Rightarrow> action_item" where
  "alert_item t a =
     \<lparr>ai_key = ''alert-'' @ a_rule_id a @ ''-'' @ a_entity_uid a,
      ai_title = localizeAlertTitle t (a_rule_id a) (a_title a), ai_detail = a_container a,
      ai_variant = coalesce (severityVariant (a_severity a)) ''outline'', ai_label = severityLabel t (a_severity a),
      ai_to = (if a_container a \<noteq> [] then ''/logs?container='' @ encodeURIComponent (a_container a) else ''/problems'')\<rparr>"

definition slo_item :: "translate \<Rightarrow> slo_status \<Rightarrow> action_item" where
  "slo_item t s =
     \<lparr>ai_key = ''slo-'' @ slo_id (st_slo s), ai_title = slo_name (st_slo s),
      ai_detail = t ''overview.sloOf'' [(''service'', TStr (slo_service (st_slo s)))],
      ai_variant = (if breached s then ''destructive'' else ''secondary''),
      ai_label = (if breached s then t ''overview.violated'' [] else t ''overview.lowMargin'' []),
      ai_to = sloMetricsLink (st_slo s)\<rparr>"

definition unstable_item :: "translate \<Rightarrow> container_fleet_status \<Rightarrow> action_item" where
  "unstable_item t c =
     \<lparr>ai_key = ''container-'' @ f_entity_uid c, ai_title = f_container c, ai_detail = instabilityReason t c,
      ai_variant = ''destructive'', ai_label = t ''overview.unstableBadge'' [],
      ai_to = ''/logs?container='' @ encodeURIComponent (f_container c)\<rparr>"

definition http_item :: "env \<Rightarrow> http_service_summary \<Rightarrow> action_item" where
  "http_item e s =
     (let severe = (error_rate s \<ge> to_num (5 / 100)) in
      \<lparr>ai_key = ''http-'' @ hs_service s, ai_title = hs_service s,
       ai_detail = tr e ''overview.httpDetail'' [(''pct'', TStr (formatPercent e (error_rate s * Fin 100) 1))],
       ai_variant = (if severe then ''destructive'' else ''secondary''),
       ai_label = severityLabel (tr e) (if severe then ''critical'' else ''warning''),
       ai_to = ''/metrics?mode=compare&metric=http.error_rate&service='' @ encodeURIComponent (hs_service s)\<rparr>)"

definition action_items :: "env \<Rightarrow> overview_data \<Rightarrow> action_item list" where
  "action_items e d =
     map (alert_item (tr e)) (ov_alerts d) @ map (slo_item (tr e)) (ov_slos d)
     @ map (unstable_item (tr e)) (ov_unstable d) @ map (http_item e) (ov_http d)"

subsection \<open>View\<close>

datatype overview_action = Overview_Retry

definition overview_cards :: "translate \<Rightarrow> overview_data \<Rightarrow> bool \<Rightarrow> 'h ui" where
  "overview_cards t d loading =
     (let br = breached_count d; slos = int (length (ov_slos d)) in
      el ''div''
       [stat_card t (t ''overview.alerts'' []) (int_string (int (length (ov_alerts d))))
          (if list_ex (\<lambda>a. a_severity a = ''critical'') (ov_alerts d) then Tone_Critical
           else if ov_alerts d \<noteq> [] then Tone_Warning else Tone_Default) None (Some ''/problems'') loading,
        stat_card t (t ''overview.slosBreached'' []) (int_string br)
          (if br > 0 then Tone_Critical else if ov_slos d \<noteq> [] then Tone_Warning else Tone_Default)
          (if slos > br then Some (t ''overview.lowBudget'' [(''count'', TInt (slos - br))]) else None)
          (Some ''/problems?tab=slos'') loading,
        stat_card t (t ''overview.unstableContainers'' []) (int_string (int (length (ov_unstable d))))
          (if ov_unstable d \<noteq> [] then Tone_Critical else Tone_Default) None
          (Some ''/containers?filter=unstable&view=table'') loading,
        stat_card t (t ''overview.httpErrors'' []) (int_string (int (length (ov_http d))))
          (if ov_http d \<noteq> [] then Tone_Warning else Tone_Default) (Some (t ''overview.httpHint'' []))
          (Some ''/metrics?mode=compare&metric=http.error_rate'') loading])"

definition action_row :: "action_item \<Rightarrow> 'h ui" where
  "action_row i = el ''li'' [link (ai_to i)
     [el ''div'' [el ''p'' [Text (ai_title i)], el ''p'' [Text (ai_detail i)]],
      el ''div'' [badge (ai_variant i) (ai_label i)]]]"

definition overview_list :: "env \<Rightarrow> overview_page \<Rightarrow> 'h ui list" where
  "overview_list e st =
     (let t = tr e; items = action_items e (op_data st) in
      if op_loading st then []
      else if items = [] then (if truthy_str (op_error st) then [] else [el ''p'' [Text (t ''overview.empty'' [])]])
      else [el ''section''
        ([el ''h2'' [Text (t ''overview.needsAction'' [])],
          el ''ul'' (map action_row (slice 0 LIST_LIMIT items))]
         @ opt (length items > LIST_LIMIT)
             (el ''p'' [Text (t ''overview.more'' [(''count'', TInt (int (length items) - int LIST_LIMIT))])]))])"

definition overview_view :: "env \<Rightarrow> overview_page \<Rightarrow> overview_action ui" where
  "overview_view e st =
     el ''div''
      ([page_header (tr e ''overview.title'' []) None []]
       @ opt (truthy_str (op_error st))
           (El ''Card'' [(''role'', AStr ''alert'')]
             [el ''span'' [Text (the (op_error st))], button False Overview_Retry (tr e ''common.retry'' [])])
       @ [overview_cards (tr e) (op_data st) (op_loading st)]
       @ overview_list e st)"

subsection \<open>The load\<close>

definition overview_answered :: "api_error + overview_answers \<Rightarrow> overview_data option" where
  "overview_answered r = (case r of Inr ans \<Rightarrow> overview_select ans | Inl _ \<Rightarrow> None)"

interpretation overview_poll: polled_load "overview_answer t" "\<lambda>r. overview_answered r \<noteq> None"
  "\<lambda>st. Some (op_data st)" overview_answered
  for t by unfold_locales (auto simp: overview_answer_def overview_answered_def split: sum.splits option.splits)

text \<open>A request that fails leaves the data of before, and says so.\<close>

lemma overview_failure:
  "op_data (overview_answer t (Inl e) st) = op_data st \<and> op_error (overview_answer t (Inl e) st) = Some (t ''common.hubDown'' [])"
  by (simp add: overview_answer_def)

lemma overview_request_down:
  "getHealth hfetch base = Inl err \<Longrightarrow> overview_request hfetch afetch sfetch ffetch tfetch base = Inl err"
  by (simp add: overview_request_def)

lemma length_action_items:
  "length (action_items e d) = length (ov_alerts d) + length (ov_slos d) + length (ov_unstable d) + length (ov_http d)"
  by (simp add: action_items_def)

lemma overview_selected:
  "overview_select (alerts, slos, fleet, http) = Some d \<Longrightarrow>
     ov_alerts d = alerts \<and> set (ov_unstable d) = {c \<in> set (coalesce (fr_containers fleet) []). isUnstable c}
     \<and> set (ov_slos d) = {s \<in> set slos. breached s \<or> error_budget_remaining s < Fin 30}
     \<and> set (ov_http d) = {s \<in> set http. hs_requests s > 0 \<and> error_rate s \<ge> HTTP_ERROR_RATE}"
  by (auto simp: overview_select_def)

subsection \<open>Properties\<close>

text \<open>C17. The overview says that nothing needs action only when that is what the hub answered: after
  an answer that brings no error, the empty message is on the page exactly when there is no alert,
  no objective violated or low on budget, no unstable container and no service with errors.\<close>

theorem overview_empty_is_true:
  assumes "overview_select (alerts, slos, fleet, http) = Some d"
  shows "overview_list e (overview_answer (tr e) (Inr (alerts, slos, fleet, http)) st) = [el ''p'' [Text (tr e ''overview.empty'' [])]] \<longleftrightarrow>
    alerts = [] \<and> (\<forall>s\<in>set slos. \<not> breached s \<and> \<not> error_budget_remaining s < Fin 30)
    \<and> (\<forall>c\<in>set (coalesce (fr_containers fleet) []). \<not> isUnstable c)
    \<and> (\<forall>s\<in>set http. \<not> (hs_requests s > 0 \<and> error_rate s \<ge> HTTP_ERROR_RATE))"
proof -
  define st' where "st' = overview_answer (tr e) (Inr (alerts, slos, fleet, http)) st"
  have st: "op_data st' = d" "\<not> op_loading st'" "op_error st' = None"
    using assms(1) by (simp_all add: st'_def overview_answer_def)
  have "overview_list e st' = [el ''p'' [Text (tr e ''overview.empty'' [])]] \<longleftrightarrow> action_items e d = []"
    by (auto simp: overview_list_def st Let_def el_def)
  also have "\<dots> \<longleftrightarrow> ov_alerts d = [] \<and> ov_slos d = [] \<and> ov_unstable d = [] \<and> ov_http d = []"
    by (auto simp: action_items_def)
  also have "\<dots> \<longleftrightarrow> alerts = [] \<and> (\<forall>s\<in>set slos. \<not> breached s \<and> \<not> error_budget_remaining s < Fin 30)
    \<and> (\<forall>c\<in>set (coalesce (fr_containers fleet) []). \<not> isUnstable c)
    \<and> (\<forall>s\<in>set http. \<not> (hs_requests s > 0 \<and> error_rate s \<ge> HTTP_ERROR_RATE))"
    using assms(1) by (auto simp: overview_select_def filter_empty_conv)
  finally show ?thesis unfolding st'_def .
qed

definition sample_fleet :: "container_fleet_status list \<Rightarrow> fleet_status_response" where
  "sample_fleet cs = \<lparr>fr_updated_at = [], fr_summary = \<lparr>fs_running = 0, fs_exited = 0, fs_restarting = 0, fs_unhealthy = 0,
      fs_dead = 0, fs_total_restart_count = 0, fs_replicas_up = 0, fs_replicas_total = 0\<rparr>, fr_services = [],
     fr_containers = Some cs, fr_events_24h = \<lparr>restarts_24h = 0, failures_24h = 0, oom_24h = 0, disconnect_24h = 0\<rparr>\<rparr>"

lemma overview_empty_is_true_witness:
  "overview_list sample_env (overview_answer (tr sample_env) (Inr ([], [], sample_fleet [], [])) overview_init)
     = [el ''p'' [Text (tr sample_env ''overview.empty'' [])]]"
  by (rule iffD2 [OF overview_empty_is_true [where d = EMPTY]])
    (simp_all add: overview_select_def sample_fleet_def EMPTY_def)
end
