(* ===== verification/Traces.thy ===== *)
theory Traces
  imports Logs
begin

text \<open>
  \<open>pages/traces.tsx\<close>: the list of traces with its load, and the detail of a trace with its guarded
  load and its waterfall. The rows and bars are rendered from the numbers modelled here.
\<close>

definition trace_clock :: "env \<Rightarrow> string \<Rightarrow> string" where
  "trace_clock e ts = intl_clock_ms e (localeBcp47 (lang e)) ts"

definition trace_duration :: "env \<Rightarrow> jsnum \<Rightarrow> string" where
  "trace_duration e ms = (if ms \<le> 0 then dash else formatDuration e ms)"

definition trace_href :: "string \<Rightarrow> params \<Rightarrow> string \<Rightarrow> string" where
  "trace_href pathname search traceId =
     pathname @ ''?'' @ params_string (params_delete ''page'' (params_set ''trace_id'' traceId search))"

subsection \<open>The page\<close>

record traces_page =
  tc_draft :: string
  seenId :: string

definition traces_init :: "params \<Rightarrow> traces_page" where
  "traces_init ps = (let i = query_value ''trace_id'' [] ps in \<lparr>tc_draft = i, seenId = i\<rparr>)"

definition traces_sync :: "params \<Rightarrow> traces_page \<Rightarrow> traces_page" where
  "traces_sync ps st =
     (let i = query_value ''trace_id'' [] ps in
      if i \<noteq> seenId st then st\<lparr>seenId := i, tc_draft := i\<rparr> else st)"

datatype traces_action =
    Traces_Window picker_action | Edit_Draft | Open_Trace | Back | Set_Service | Traces_Page jsnum
  | Retry_List | Retry_Detail

fun traces_query :: "env \<Rightarrow> jsnum \<Rightarrow> picker \<Rightarrow> traces_page \<Rightarrow> traces_action \<Rightarrow> string \<Rightarrow> params \<Rightarrow> params" where
  "traces_query e now pk st (Traces_Window a) typed ps =
     (case snd (picker_step e now typed a pk) of Some v \<Rightarrow> query_set ''since'' ''1h'' v ps | None \<Rightarrow> ps)"
| "traces_query e now pk st Open_Trace typed ps =
     (if trim (tc_draft st) \<noteq> [] then query_patch [(''trace_id'', Some (trim (tc_draft st)))] [] ps else ps)"
| "traces_query e now pk st Back typed ps = query_patch [(''trace_id'', None)] [] ps"
| "traces_query e now pk st Set_Service typed ps = query_set ''service'' [] typed ps"
| "traces_query e now pk st (Traces_Page n) typed ps = query_set ''page'' ''1'' (num_string n) ps"
| "traces_query e now pk st _ typed ps = ps"

definition traces_edit :: "traces_action \<Rightarrow> string \<Rightarrow> traces_page \<Rightarrow> traces_page" where
  "traces_edit a typed st = (if a = Edit_Draft then st\<lparr>tc_draft := typed\<rparr> else st)"

subsection \<open>The list\<close>

record trace_list =
  tl_result :: "trace_summary list_page"
  tl_services :: "string list"
  tl_loading :: bool
  tl_error :: "string option"

definition trace_list_init :: trace_list where
  "trace_list_init = \<lparr>tl_result = \<lparr>entries = [], total = 0, limit = Fin 50, offset = 0, truncated = False\<rparr>,
     tl_services = [], tl_loading = True, tl_error = None\<rparr>"

definition traces_filter_key :: "params \<Rightarrow> string" where
  "traces_filter_key ps = query_value ''since'' ''1h'' ps @ ''|'' @ query_value ''service'' [] ps"

definition traces_deps :: "params \<Rightarrow> string \<times> string \<times> jsnum" where
  "traces_deps ps = (query_value ''since'' ''1h'' ps, query_value ''service'' [] ps, log_page ps)"

text \<open>The list follows the address as the log lines do; what it asks is what it depends on.\<close>

interpretation traces_list: filter_reset traces_filter_key traces_deps traces_deps
  by unfold_locales (simp_all add: traces_filter_key_def first_page_other)

definition traces_commit ::
  "params \<Rightarrow> (string \<times> string \<times> jsnum, string \<times> string \<times> jsnum, 'a, trace_list) filter_page
     \<Rightarrow> (string \<times> string \<times> jsnum, string \<times> string \<times> jsnum, 'a, trace_list) filter_page option" where
  "traces_commit = page_commit traces_filter_key traces_deps traces_deps"

lemma traces_follow_address:
  assumes "page_session ordered settle s0 traces_filter_key traces_deps traces_deps st"
  shows "\<exists>st'. traces_commit ps st = Some st'
    \<and> fp_address st' = (if traces_filter_key ps = traces_filter_key (fp_address st) then ps else first_page ps)
    \<and> pl_query (fp_poll st') = traces_deps (fp_address st')"
  unfolding traces_commit_def by (rule traces_list.session_commit [OF assms])

definition trace_list_load :: "trace_list \<Rightarrow> trace_list" where
  "trace_list_load st = st\<lparr>tl_loading := True\<rparr>"

text \<open>The request, and its answer in the closure of the service and the page it was sent for.\<close>

definition trace_list_request ::
  "trace_summary body fetch \<Rightarrow> string \<Rightarrow> params \<Rightarrow> api_error + trace_summary list_page" where
  "trace_list_request fetch base ps =
     fetchTraces fetch base (Some (query_value ''since'' ''1h'' ps)) (given (query_value ''service'' [] ps))
       (Some (Fin 50)) (Some ((log_page ps - 1) * Fin 50))"

definition trace_list_answer ::
  "translate \<Rightarrow> string \<Rightarrow> jsnum \<Rightarrow> api_error + trace_summary list_page \<Rightarrow> trace_list \<Rightarrow> trace_list" where
  "trace_list_answer t service page r st =
     (case r of
        Inr p \<Rightarrow>
          (let st = st\<lparr>tl_result := p, tl_error := None\<rparr> in
           if service = [] \<and> num_eq page 1
           then st\<lparr>tl_services := sort (firsts (filter (\<lambda>s. s \<noteq> []) (map ts_service (entries p))))\<rparr>
           else st)
      | Inl _ \<Rightarrow> st\<lparr>tl_error := Some (t ''traces.loadError'' [])\<rparr>)\<lparr>tl_loading := False\<rparr>"

definition service_options :: "string \<Rightarrow> string list \<Rightarrow> string list" where
  "service_options service services =
     (if service \<noteq> [] \<and> service \<notin> set services then service # services else services)"

definition trace_row :: "env \<Rightarrow> string \<Rightarrow> params \<Rightarrow> trace_summary \<Rightarrow> traces_action ui" where
  "trace_row e pathname search row =
     (let t = tr e in
      El ''TableRow'' [(''failed'', ABool (ts_error row))]
       [el ''TableCell'' [Text (trace_clock e (ts_start_ts row))],
        el ''TableCell''
         [if ts_container row \<noteq> [] then
            El ''Link'' [(''to'', AStr (''/metrics?container='' @ encodeURIComponent (ts_container row))),
                (''title'', AStr (t ''traces.metricsOf'' [(''container'', TStr (ts_container row))]))]
              [Text (str_or (ts_service row) (ts_container row))]
          else Text (str_or (ts_service row) dash)],
        el ''TableCell'' [El ''Link'' [(''to'', AStr (trace_href pathname search (ts_trace_id row))),
            (''title'', AStr (ts_trace_id row))] [Text (str_or (ts_name row) (ts_trace_id row))]],
        el ''TableCell'' [Text (trace_duration e (ts_duration_ms row))],
        el ''TableCell'' [Text (int_string (ts_span_count row))],
        el ''TableCell'' [if ts_error row then badge ''destructive'' (t ''traces.withError'' [])
                          else badge ''outline'' (t ''traces.ok'' [])],
        el ''TableCell'' [Text (if ts_source row = ''logs'' then t ''nav.logs'' [] else to_upper (ts_source row))]])"

definition trace_list_view :: "env \<Rightarrow> string \<Rightarrow> params \<Rightarrow> trace_list \<Rightarrow> traces_action ui" where
  "trace_list_view e pathname ps st =
     (let t = tr e; service = query_value ''service'' [] ps; res = tl_result st in
      el ''section''
       ([el ''div''
          [el ''h2'' [Text (t ''traces.recent'' [])],
           El ''select'' [(''name'', AStr ''service''), (''aria-label'', AStr (t ''traces.service'' [])),
              (''value'', AStr service), (''onChange'', AHandler Set_Service)]
            (El ''option'' [(''value'', AStr [])] [Text (t ''traces.allServices'' [])]
             # map (\<lambda>s. El ''option'' [(''value'', AStr s)] [Text s]) (service_options service (tl_services st)))]]
        @ opt (truthy_str (tl_error st)) (load_error t (the (tl_error st)) (Some Retry_List))
        @ [El ''ScrollArea'' [(''aria-busy'', ABool (tl_loading st))]
            [el ''Table''
              [table_header [t ''traces.start'' [], t ''traces.service'' [], t ''traces.operation'' [], t ''traces.duration'' [],
                             t ''traces.spans'' [], t ''traces.outcome'' [], t ''traces.source'' []],
               el ''TableBody''
                (if tl_loading st \<and> entries res = [] then [el ''TableRow'' [el ''TableCell'' [skeleton]]]
                 else if entries res = [] then [el ''TableRow'' [el ''TableCell'' [Text (t ''traces.empty'' [])]]]
                 else map (trace_row e pathname ps) (entries res))]],
           remote_pager t res (log_page ps) Traces_Page]))"

subsection \<open>The detail\<close>

text \<open>
  Each run of the effect closes over its own \<open>cancelled\<close> flag, which the next run (or leaving the
  page) sets; the number of the run stands for the flag.
\<close>

record trace_view =
  td_detail :: "trace_detail option"
  td_loading :: bool
  td_error :: bool
  td_attempt :: nat
  td_run :: nat

definition trace_view_init :: trace_view where
  "trace_view_init = \<lparr>td_detail = None, td_loading = True, td_error = False, td_attempt = 0, td_run = 0\<rparr>"

text \<open>A run of the effect for a trace and a window; a retry is a run for the same two.\<close>

definition trace_view_load :: "string \<times> string \<Rightarrow> trace_view \<Rightarrow> trace_view" where
  "trace_view_load q st = st\<lparr>td_run := td_run st + 1, td_loading := True, td_error := False\<rparr>"

definition trace_view_retry :: "trace_view \<Rightarrow> trace_view" where
  "trace_view_retry st = st\<lparr>td_attempt := td_attempt st + 1\<rparr>"

definition trace_view_settle :: "nat \<Rightarrow> api_error + trace_detail \<Rightarrow> trace_view \<Rightarrow> trace_view" where
  "trace_view_settle run r st =
     (let cancelled = (run \<noteq> td_run st);
          st = (case r of
                  Inr d \<Rightarrow> if \<not> cancelled then st\<lparr>td_detail := Some d\<rparr> else st
                | Inl _ \<Rightarrow> if cancelled then st else st\<lparr>td_detail := None, td_error := True\<rparr>)
      in if \<not> cancelled then st\<lparr>td_loading := False\<rparr> else st)"

definition trace_origin :: "env \<Rightarrow> trace_detail option \<Rightarrow> jsnum" where
  "trace_origin e detail =
     (case detail of
        None \<Rightarrow> 0
      | Some d \<Rightarrow> if td_spans d = [] then 0 else math_min_list (map (\<lambda>sp. date_parse e (sp_start_ts sp)) (td_spans d)))"

definition total_width :: "trace_detail option \<Rightarrow> jsnum" where
  "total_width detail =
     (case detail of
        Some d \<Rightarrow> if truthy_num (td_duration_ms d) \<and> td_duration_ms d > 0 then td_duration_ms d else 1
      | None \<Rightarrow> 1)"

definition source_label :: "translate \<Rightarrow> string \<Rightarrow> string" where
  "source_label t source = (if source = ''logs'' then t ''nav.logs'' [] else to_upper source)"

record bar_box =
  bar_left :: jsnum
  bar_width :: jsnum

definition span_bar :: "env \<Rightarrow> jsnum \<Rightarrow> jsnum \<Rightarrow> trace_span \<Rightarrow> bar_box" where
  "span_bar e origin width sp =
     (let startMs = date_parse e (sp_start_ts sp) - origin;
          widthPct = math_max (sp_duration_ms sp / width * Fin 100) (if sp_duration_ms sp > 0 then Fin 2 else Fin (1/2));
          leftPct = startMs / width * Fin 100
      in \<lparr>bar_left = math_max leftPct 0, bar_width = math_min widthPct (Fin 100 - leftPct)\<rparr>)"

definition span_color :: "trace_span \<Rightarrow> string" where
  "span_color sp = (if sp_status sp = ''error'' then ''bg-destructive/80''
     else if sp_kind sp = ''log'' then ''bg-muted-foreground/50'' else ''bg-primary/70'')"

definition span_row :: "env \<Rightarrow> string \<Rightarrow> jsnum \<Rightarrow> jsnum \<Rightarrow> trace_span \<Rightarrow> traces_action ui" where
  "span_row e since origin width sp =
     (let t = tr e; bar = span_bar e origin width sp; failed = (sp_status sp = ''error'');
          who = str_or (sp_service sp) (sp_container sp)
      in el ''div''
        [el ''div''
          [el ''div'' (El ''span'' [(''title'', AStr who)] [Text (str_or who dash)]
             # opt failed (badge ''destructive'' (t ''traces.spanError'' []))),
           El ''div'' [(''title'', AStr (sp_name sp))] [Text (sp_name sp)]],
         el ''div'' [El ''div'' [(''color'', AStr (span_color sp)), (''left'', AStr (num_string (bar_left bar) @ ''%'')),
            (''width'', AStr (num_string (bar_width bar) @ ''%'')), (''title'', AStr (trace_duration e (sp_duration_ms sp)))] []],
         el ''div'' (el ''span'' [Text (trace_duration e (sp_duration_ms sp))]
            # opt (sp_container sp \<noteq> [])
                (link (''/logs?'' @ params_string [(''container'', sp_container sp), (''since'', since)])
                   [Text (t ''traces.containerLogs'' [])]))])"

definition trace_detail_view :: "env \<Rightarrow> string \<Rightarrow> string \<Rightarrow> trace_view \<Rightarrow> traces_action ui" where
  "trace_detail_view e traceId since st =
     (let t = tr e; origin = trace_origin e (td_detail st); width = total_width (td_detail st) in
      el ''section''
       ([el ''div''
          [button False Back (t ''traces.backToList'' []),
           link (''/logs?'' @ params_string [(''trace_id'', traceId), (''since'', since)]) [Text (t ''traces.logsOfTrace'' [])]]]
        @ (if td_loading st then [skeleton]
           else if td_error st then [load_error t (t ''traces.detailError'' []) (Some Retry_Detail)]
           else case td_detail st of
             None \<Rightarrow> [el ''p'' [Text (t ''traces.noSpans'' [])]]
           | Some d \<Rightarrow>
               if td_spans d = [] then [el ''p'' [Text (t ''traces.noSpans'' [])]]
               else
                [el ''div''
                  [el ''h2'' [Text (td_trace_id d)],
                   el ''p'' [Text (t ''traces.totalSpans''
                     [(''duration'', TStr (trace_duration e (td_duration_ms d))), (''count'', TInt (int (length (td_spans d)))),
                      (''source'', TStr (source_label t (td_source d)))])]],
                 el ''Card''
                  [el ''CardHeader'' [el ''CardTitle'' [Text (t ''traces.waterfall'' [])]],
                   el ''CardContent'' (map (span_row e since origin width) (td_spans d))],
                 el ''Card''
                  [el ''CardHeader'' [el ''CardTitle'' [Text (t ''traces.timeline'' [])]],
                   el ''CardContent'' (map (\<lambda>sp. el ''div''
                     [el ''span'' [Text (trace_clock e (sp_start_ts sp))],
                      badge ''secondary'' (t (''traces.kinds.'' @ sp_kind sp) [(''defaultValue'', TStr (sp_kind sp))]),
                      el ''span'' [Text (sp_service sp)], el ''span'' [Text (sp_name sp)]]) (td_spans d))]])))"

definition traces_view ::
  "env \<Rightarrow> string \<Rightarrow> params \<Rightarrow> picker \<Rightarrow> traces_page \<Rightarrow> trace_list \<Rightarrow> trace_view \<Rightarrow> traces_action ui" where
  "traces_view e pathname ps pk st lst dv =
     (let t = tr e; traceId = query_value ''trace_id'' [] ps; since = query_value ''since'' ''1h'' ps in
      el ''div''
       [page_header (t ''traces.title'' []) None [map_ui Traces_Window (time_range_picker e since pk)],
        El ''form'' [(''role'', AStr ''search''), (''onSubmit'', AHandler Open_Trace)]
         [El ''Input'' [(''type'', AStr ''search''), (''name'', AStr ''trace_id''), (''aria-label'', AStr (t ''traces.traceId'' [])),
             (''placeholder'', AStr (t ''traces.openById'' [])), (''value'', AStr (tc_draft st)), (''onChange'', AHandler Edit_Draft)] [],
          El ''Button'' [(''type'', AStr ''submit'')] [Text (t ''traces.open'' [])]],
        if traceId \<noteq> [] then trace_detail_view e traceId since dv else trace_list_view e pathname ps lst])"

subsection \<open>The guarded load of the detail\<close>

interpretation trace_run: guarded_page td_run trace_view_load trace_view_settle td_loading td_error
  td_detail "\<lambda>_ _. True" is_okay answered_value
proof unfold_locales
  fix q s r a
  show "td_run (trace_view_load q s) = Suc (td_run s)" by (simp add: trace_view_load_def)
  show "td_run (trace_view_settle r a s) = td_run s" by (simp add: trace_view_settle_def Let_def split: sum.split)
  show "r \<noteq> td_run s \<Longrightarrow> trace_view_settle r a s = s" by (simp add: trace_view_settle_def Let_def split: sum.split)
  show "td_loading (trace_view_load q s)" by (simp add: trace_view_load_def)
  show "\<not> td_loading (trace_view_settle (td_run s) a s)"
    by (simp add: trace_view_settle_def Let_def split: sum.split)
  show "\<not> is_okay a \<Longrightarrow> td_error (trace_view_settle (td_run s) a s)"
    by (simp add: trace_view_settle_def is_okay_def Let_def split: sum.splits)
  show "is_okay a \<Longrightarrow> td_detail (trace_view_settle (td_run s) a s) = answered_value a"
    by (simp add: trace_view_settle_def is_okay_def answered_value_def Let_def split: sum.splits)
qed simp

subsection \<open>Bars\<close>

lemma foldl_math_min:
  assumes "\<forall>x\<in>set ys. \<exists>a. x = Fin a"
  shows "foldl math_min (Fin b) ys \<in> insert (Fin b) (set ys) \<and> (\<forall>y\<in>insert (Fin b) (set ys). foldl math_min (Fin b) ys \<le> y)"
  using assms
proof (induction ys arbitrary: b)
  case (Cons y ys)
  then obtain a where y: "y = Fin a" by auto
  have ys: "\<forall>x\<in>set ys. \<exists>a. x = Fin a" using Cons.prems by simp
  note ih = Cons.IH [OF ys, of "min b a"]
  have le: "Fin z \<le> Fin b" "Fin z \<le> Fin a" if "Fin z \<le> Fin (min b a)" for z using that by simp_all
  obtain z where z: "foldl math_min (Fin (min b a)) ys = Fin z"
    using ih ys by (cases "foldl math_min (Fin (min b a)) ys") auto
  have e: "foldl math_min (Fin b) (y # ys) = Fin z" by (simp add: y z)
  have "Fin z \<in> insert (Fin b) (set (y # ys))"
    using ih unfolding z by (cases "b \<le> a") (auto simp: y min_def)
  moreover have "Fin z \<le> Fin (min b a)" "\<forall>v\<in>set ys. Fin z \<le> v" using ih unfolding z by simp_all
  then have "\<forall>v\<in>insert (Fin b) (set (y # ys)). Fin z \<le> v" using le [of z] by (auto simp: y)
  ultimately show ?case unfolding e by blast
qed simp

lemma math_min_list_least:
  assumes "xs \<noteq> []" "\<forall>x\<in>set xs. \<exists>a. x = Fin a"
  shows "math_min_list xs \<in> set xs \<and> (\<forall>y\<in>set xs. math_min_list xs \<le> y)"
proof -
  obtain y ys where xs: "xs = y # ys" using assms(1) by (cases xs) auto
  then obtain a where y: "y = Fin a" using assms(2) by auto
  have "math_min PInf y = y" by (simp add: y math_min_def)
  then show ?thesis using foldl_math_min [of ys a] assms(2) by (auto simp: math_min_list_def xs y)
qed

text \<open>The origin is the start of a span, the first one.\<close>

lemma origin_start:
  assumes "td_spans d \<noteq> []" "\<forall>sp\<in>set (td_spans d). \<exists>a. date_parse e (sp_start_ts sp) = Fin a"
  shows "\<exists>sp\<in>set (td_spans d). trace_origin e (Some d) = date_parse e (sp_start_ts sp)"
    and "sp \<in> set (td_spans d) \<Longrightarrow> trace_origin e (Some d) \<le> date_parse e (sp_start_ts sp)"
  using math_min_list_least [of "map (\<lambda>sp. date_parse e (sp_start_ts sp)) (td_spans d)"] assms
  by (auto simp: trace_origin_def)

lemma origin_first:
  assumes "sp \<in> set (td_spans d)" "\<forall>sp\<in>set (td_spans d). \<exists>a::int. date_parse e (sp_start_ts sp) = Fin (of_int a) \<and> \<bar>a\<bar> \<le> 2 ^ 52"
  obtains o' a :: int where "trace_origin e (Some d) = Fin (of_int o')" "date_parse e (sp_start_ts sp) = Fin (of_int a)"
    "o' \<le> a" "\<bar>o'\<bar> \<le> 2 ^ 52" "\<bar>a\<bar> \<le> 2 ^ 52"
proof -
  have ne: "td_spans d \<noteq> []" and fin: "\<forall>sp\<in>set (td_spans d). \<exists>a. date_parse e (sp_start_ts sp) = Fin a"
    using assms by auto
  obtain o' :: int where o: "trace_origin e (Some d) = Fin (of_int o')" "\<bar>o'\<bar> \<le> 2 ^ 52"
    using origin_start(1) [OF ne fin] assms(2) by metis
  obtain a :: int where a: "date_parse e (sp_start_ts sp) = Fin (of_int a)" "\<bar>a\<bar> \<le> 2 ^ 52" using assms by auto
  have "o' \<le> a" using origin_start(2) [OF ne fin assms(1)] by (simp add: o a)
  with that o a show ?thesis by blast
qed

lemma bar_inside:
  assumes s: "date_parse e (sp_start_ts sp) - orig = Fin s" "0 \<le> s" "s \<le> w"
    and w: "0 < w" "width = Fin w" and d: "sp_duration_ms sp = Fin d"
  obtains l b where "span_bar e orig width sp = \<lparr>bar_left = Fin l, bar_width = Fin b\<rparr>"
    "0 \<le> l" "l \<le> 100" "0 \<le> b" "b \<le> 100" "Fin b \<le> Fin 100 - Fin l"
proof -
  obtain q where q: "to_num (s / w) = Fin q" "0 \<le> q" "q \<le> 1"
    by (rule to_num_between [of 0 1 "s / w"]) (use small_bounds s w in \<open>auto simp: divide_le_eq\<close>)
  obtain l where l: "to_num (q * 100) = Fin l" "0 \<le> l" "l \<le> 100"
    by (rule to_num_between [of 0 100 "q * 100"]) (use small_bounds q in auto)
  obtain r where r: "to_num (100 - l) = Fin r" "0 \<le> r" "r \<le> 100"
    by (rule to_num_between [of 0 100 "100 - l"]) (use small_bounds l in auto)
  have left: "Fin s / width * Fin 100 = Fin l" using q(1) l(1) w by simp
  have right: "Fin 100 - Fin l = Fin r" using r(1) by (simp add: minus_Fin)
  define m where "m = math_max (sp_duration_ms sp / width * Fin 100) (if sp_duration_ms sp > 0 then Fin 2 else Fin (1/2))"
  have num: "sp_duration_ms sp / width * Fin 100 \<noteq> NaN"
    using w d by (cases "to_num (d / w)") (auto simp: inf_of_sign_def)
  have mpos: "m = PInf \<or> (\<exists>x. m = Fin x \<and> 0 \<le> x)"
  proof (cases "sp_duration_ms sp / width * Fin 100")
    case (Fin x)
    then show ?thesis by (auto simp: m_def max_def)
  next
    case NInf
    then show ?thesis by (auto simp: m_def math_max_def intro: exI [of _ 2] exI [of _ "1/2"])
  qed (use num in \<open>auto simp: m_def math_max_def\<close>)
  then obtain b where b: "math_min m (Fin r) = Fin b" "0 \<le> b" "b \<le> r"
  proof
    assume "m = PInf"
    then show ?thesis using that [of r] r by (simp add: math_min_def)
  next
    assume "\<exists>x. m = Fin x \<and> 0 \<le> x"
    then obtain x where "m = Fin x" "0 \<le> x" by blast
    then show ?thesis using that [of "min x r"] r by (auto simp: min_def split: if_splits)
  qed
  have "span_bar e orig width sp = \<lparr>bar_left = Fin l, bar_width = Fin b\<rparr>"
    unfolding span_bar_def Let_def s(1) left right m_def [symmetric] b(1) using l by (simp add: max_def)
  with l b r right that show ?thesis by simp
qed

lemma trace_bar_bounds:
  assumes d: "sp \<in> set (td_spans d)" "td_duration_ms d = Fin w" "0 < w" "sp_duration_ms sp = Fin len"
    and starts: "\<forall>sp\<in>set (td_spans d). \<exists>a::int. date_parse e (sp_start_ts sp) = Fin (of_int a) \<and> \<bar>a\<bar> \<le> 2 ^ 52"
    and inside: "\<forall>a o'. date_parse e (sp_start_ts sp) = Fin a \<longrightarrow> trace_origin e (Some d) = Fin o' \<longrightarrow> a - o' \<le> w"
  obtains l b where "span_bar e (trace_origin e (Some d)) (total_width (Some d)) sp = \<lparr>bar_left = Fin l, bar_width = Fin b\<rparr>"
    "0 \<le> l" "l \<le> 100" "0 \<le> b" "b \<le> 100" "Fin b \<le> Fin 100 - Fin l"
proof -
  obtain o' a :: int where o: "trace_origin e (Some d) = Fin (of_int o')" "date_parse e (sp_start_ts sp) = Fin (of_int a)"
    "o' \<le> a" "\<bar>o'\<bar> \<le> 2 ^ 52" "\<bar>a\<bar> \<le> 2 ^ 52" by (rule origin_first [OF d(1) starts])
  have "\<bar>a - o'\<bar> \<le> 2 ^ 53" using o(4,5) by simp
  then have s: "date_parse e (sp_start_ts sp) - trace_origin e (Some d) = Fin (of_int (a - o'))"
    unfolding o by (rule minus_of_int)
  have "total_width (Some d) = Fin w" using d(2,3) by (simp add: total_width_def truthy_num_def)
  moreover have "of_int (a - o') \<le> w" using inside o by simp
  moreover have "0 \<le> (of_int (a - o') :: rat)" using o(3) by simp
  ultimately show ?thesis
    using bar_inside [OF s _ _ d(3) _ d(4)] that by metis
qed

lemma service_options_current:
  "service = [] \<or> service \<in> set (service_options service services)"
  by (simp add: service_options_def)

subsection \<open>Properties\<close>

text \<open>C23. When the detail neither loads nor reports an error, the trace on the page is the answer to
  the request for the trace and the window in the address, whatever came late.\<close>

theorem trace_detail_current:
  assumes "guarded_reachable td_run trace_view_load trace_view_settle (\<lambda>_ _. True) is_okay trace_view_init w"
    and "\<not> td_loading (gw_page w)" "\<not> td_error (gw_page w)"
  shows "\<exists>r. gw_shown w = Some (gw_query w, r) \<and> td_detail (gw_page w) = answered_value r"
  using trace_run.shows_current [OF assms] by simp

definition sample_trace :: trace_detail where
  "sample_trace = \<lparr>td_trace_id = ''t'', td_source = ''otel'', td_start_ts = None, td_end_ts = None, td_duration_ms = 0, td_spans = []\<rparr>"

definition sample_shown :: "(string \<times> string, api_error + trace_detail, trace_view) guarded" where
  "sample_shown = \<lparr>gw_page = \<lparr>td_detail = Some sample_trace, td_loading = False, td_error = False, td_attempt = 0, td_run = 1\<rparr>,
    gw_query = (''t'', ''1h''), gw_pending = [], gw_shown = Some ((''t'', ''1h''), Inr sample_trace)\<rparr>"

lemma sample_shown_reachable:
  "guarded_reachable td_run trace_view_load trace_view_settle (\<lambda>_ _. True) is_okay trace_view_init sample_shown"
proof -
  let ?w0 = "\<lparr>gw_page = trace_view_init\<lparr>td_run := 1\<rparr>, gw_query = (''t'', ''1h''), gw_pending = [(1, (''t'', ''1h''))], gw_shown = None\<rparr>"
  have m: "guarded_reachable td_run trace_view_load trace_view_settle (\<lambda>_ _. True) is_okay trace_view_init ?w0"
    using guarded_reachable.mount [of td_run trace_view_load trace_view_settle "\<lambda>_ _. True" is_okay trace_view_init "(''t'', ''1h'')"]
    by (simp add: send_load_def trace_view_load_def trace_view_init_def Let_def)
  have p: "gw_pending ?w0 = [] @ (1, (''t'', ''1h'')) # []" by simp
  have "guarded_step td_run trace_view_load trace_view_settle (\<lambda>_ _. True) is_okay ?w0 sample_shown"
    using guarded_step.main [OF p, of "\<lambda>_ _. True" "Inr sample_trace" td_run trace_view_load trace_view_settle is_okay]
    by (simp add: trace_view_settle_def trace_view_init_def is_okay_def sample_shown_def)
  with m show ?thesis by (rule guarded_reachable.step)
qed

lemma trace_detail_current_witness:
  "\<exists>r. gw_shown sample_shown = Some (gw_query sample_shown, r) \<and> td_detail (gw_page sample_shown) = answered_value r"
  by (rule trace_detail_current [OF sample_shown_reachable]) (simp_all add: sample_shown_def)

text \<open>The bars of the waterfall stay in their track: for a trace of positive duration, a span
  that starts within it has its left edge between 0 and 100 per cent and a width that is not
  negative and does not reach past the right edge.\<close>

theorem waterfall_bars_inside:
  assumes "sp \<in> set (td_spans d)" "td_duration_ms d = Fin w" "0 < w" "sp_duration_ms sp = Fin len"
    and "\<forall>sp\<in>set (td_spans d). \<exists>a::int. date_parse e (sp_start_ts sp) = Fin (of_int a) \<and> \<bar>a\<bar> \<le> 2 ^ 52"
    and "\<forall>a o'. date_parse e (sp_start_ts sp) = Fin a \<longrightarrow> trace_origin e (Some d) = Fin o' \<longrightarrow> a - o' \<le> w"
  shows "\<exists>l b. span_bar e (trace_origin e (Some d)) (total_width (Some d)) sp = \<lparr>bar_left = Fin l, bar_width = Fin b\<rparr>
    \<and> 0 \<le> l \<and> l \<le> 100 \<and> 0 \<le> b \<and> b \<le> 100 \<and> Fin b \<le> Fin 100 - Fin l"
  using trace_bar_bounds [OF assms] by metis

definition sample_span :: trace_span where
  "sample_span = \<lparr>sp_trace_id = ''t'', sp_span_id = ''s'', sp_parent_span_id = None, sp_name = ''GET'', sp_service = ''api'',
     sp_container = ''api-1'', sp_entity_uid = None, sp_start_ts = ''2026-10-06T14:00'', sp_end_ts = '''', sp_duration_ms = Fin 5,
     sp_status = ''ok'', sp_kind = ''http'', sp_source = ''otel'', sp_attributes = None\<rparr>"

lemma waterfall_bars_inside_witness:
  "\<exists>l b. span_bar sample_env (trace_origin sample_env (Some \<lparr>td_trace_id = ''t'', td_source = ''otel'', td_start_ts = None,
      td_end_ts = None, td_duration_ms = Fin 10, td_spans = [sample_span]\<rparr>))
      (total_width (Some \<lparr>td_trace_id = ''t'', td_source = ''otel'', td_start_ts = None,
      td_end_ts = None, td_duration_ms = Fin 10, td_spans = [sample_span]\<rparr>)) sample_span
    = \<lparr>bar_left = Fin l, bar_width = Fin b\<rparr>
    \<and> 0 \<le> l \<and> l \<le> 100 \<and> 0 \<le> b \<and> b \<le> 100 \<and> Fin b \<le> Fin 100 - Fin l"
proof (rule waterfall_bars_inside)
  let ?d = "\<lparr>td_trace_id = ''t'', td_source = ''otel'', td_start_ts = None, td_end_ts = None,
    td_duration_ms = Fin 10, td_spans = [sample_span]\<rparr>"
  have dp: "date_parse sample_env (sp_start_ts sample_span) = Fin (of_int 1791295200000)"
    by (simp add: sample_env_def sample_span_def sample_instants)
  show "\<forall>sp\<in>set (td_spans ?d). \<exists>a::int. date_parse sample_env (sp_start_ts sp) = Fin (of_int a) \<and> \<bar>a\<bar> \<le> 2 ^ 52"
    using dp by (auto intro!: exI [of _ 1791295200000])
  have "trace_origin sample_env (Some ?d) = Fin (of_int 1791295200000)"
    using dp by (simp add: trace_origin_def math_min_list_def math_min_def)
  with dp show "\<forall>a o'. date_parse sample_env (sp_start_ts sample_span) = Fin a \<longrightarrow>
      trace_origin sample_env (Some ?d) = Fin o' \<longrightarrow> a - o' \<le> 10" by auto
qed (simp_all add: sample_span_def)

text \<open>The link to a trace leads back to the same list: in the address it writes, the trace is
  set, the page is gone, and every other parameter reads as before.\<close>

theorem trace_link_keeps_filters:
  "trace_href path ps i = path @ ''?'' @ params_string (params_delete ''page'' (params_set ''trace_id'' i ps))
   \<and> parse_query (params_string (params_delete ''page'' (params_set ''trace_id'' i ps)))
       = Some (params_delete ''page'' (params_set ''trace_id'' i ps))
   \<and> params_get (params_delete ''page'' (params_set ''trace_id'' i ps)) k
       = (if k = ''page'' then None else if k = ''trace_id'' then Some i else params_get ps k)"
  by (simp add: trace_href_def parse_params_string params_get_delete params_get_set)

end
