(* ===== verification/Problems.thy ===== *)
theory Problems
  imports Overview Traces
begin

text \<open>
  \<open>pages/problems.tsx\<close> and its three tabs: \<open>views/problems-now.tsx\<close> (what is down, stopped on
  purpose, alerting, or found by the insights), \<open>views/slo-list.tsx\<close> (the objectives, the least
  budget first) and \<open>views/event-history.tsx\<close> (the events, page by page). Each tab polls its own
  load.
\<close>

subsection \<open>Now\<close>

record problems_now =
  pn_alerts :: "active_alert list"
  pn_insights :: "insight list"
  pn_fleet :: "container_fleet_status list"
  pn_loading :: bool
  pn_error :: "string option"

definition problems_now_init :: problems_now where
  "problems_now_init = \<lparr>pn_alerts = [], pn_insights = [], pn_fleet = [], pn_loading = True, pn_error = None\<rparr>"

definition problems_request ::
  "active_alert body fetch \<Rightarrow> insights_response fetch \<Rightarrow> fleet_status_response fetch \<Rightarrow> string \<Rightarrow> string \<Rightarrow> string
     \<Rightarrow> api_error + active_alert list \<times> insights_response \<times> fleet_status_response" where
  "problems_request afetch ifetch ffetch base since grp =
     both (fetchActiveAlerts afetch base)
       (both (fetchInsights ifetch base (Some since) (given grp)) (fetchFleetStatus ffetch base))"

definition problems_answer ::
  "translate \<Rightarrow> api_error + active_alert list \<times> insights_response \<times> fleet_status_response \<Rightarrow> problems_now \<Rightarrow> problems_now" where
  "problems_answer t r st =
     (case r of
        Inr (a, i, f) \<Rightarrow> st\<lparr>pn_alerts := a, pn_insights := coalesce (ir_insights i) [],
                          pn_fleet := coalesce (fr_containers f) [], pn_error := None\<rparr>
      | Inl _ \<Rightarrow> st\<lparr>pn_error := Some (t ''problems.loadError'' [])\<rparr>)\<lparr>pn_loading := False\<rparr>"

definition failed_containers :: "container_fleet_status list \<Rightarrow> container_fleet_status list" where
  "failed_containers fleet = filter (\<lambda>c. disposition c = Some ''unexpected'' \<or> disposition c = Some ''oom'') fleet"

definition stopped_containers :: "container_fleet_status list \<Rightarrow> container_fleet_status list" where
  "stopped_containers fleet = filter (\<lambda>c. disposition c = Some ''intentional'') fleet"

definition section_view :: "string \<Rightarrow> 'h ui \<Rightarrow> 'h ui" where
  "section_view title child = el ''section'' [el ''h2'' [Text title], child]"

definition empty_note :: "string \<Rightarrow> 'h ui" where
  "empty_note s = el ''p'' [Text s]"

definition row_links :: "translate \<Rightarrow> string \<Rightarrow> 'h ui" where
  "row_links t c = el ''p''
     [link (''/logs?container='' @ encodeURIComponent c) [Text (t ''problems.logsOf'' [])],
      link (''/metrics?container='' @ encodeURIComponent c) [Text (t ''problems.metricsOf'' [])]]"

definition down_detail :: "translate \<Rightarrow> container_fleet_status \<Rightarrow> string" where
  "down_detail t c =
     (if disposition c = Some ''oom'' then t ''problems.oomDetail'' []
      else if disposition c = Some ''intentional''
        then t ''problems.intentionalDetail'' [(''code'', TInt (coalesce (exit_code c) 0))]
      else t ''problems.unexpectedDetail'' [(''code'', TInt (coalesce (exit_code c) 0))])"

definition down_row :: "translate \<Rightarrow> container_fleet_status \<Rightarrow> 'h ui" where
  "down_row t c = el ''li''
     [el ''div'' [el ''p'' [Text (f_container c)], el ''p'' [Text (down_detail t c)], row_links t (f_container c)],
      badge (if disposition c = Some ''intentional'' then ''outline'' else ''destructive'')
        (t (''state.'' @ coalesce (disposition c) ''undefined'') [])]"

definition alert_row :: "env \<Rightarrow> active_alert \<Rightarrow> 'h ui" where
  "alert_row e a =
     (let t = tr e in el ''li''
       [el ''div''
         ([el ''p'' [Text (localizeAlertTitle t (a_rule_id a) (a_title a))],
           el ''p'' [Text (t ''problems.since''
             [(''container'', TStr (a_container a)), (''when'', TStr (formatDateTime e (a_fired_at a)))])]]
          @ opt (a_summary a \<noteq> [] \<or> truthy_num (a_value a))
              (el ''p'' [Text (localizeAlertSummary e (a_rule_id a) (a_value a) (a_summary a))])
          @ opt (a_container a \<noteq> []) (row_links t (a_container a))),
        badge (coalesce (severityVariant (a_severity a)) ''outline'') (severityLabel t (a_severity a))])"

definition insight_topic :: "string \<Rightarrow> string" where
  "insight_topic theme =
     (if theme = ''gc_thrashing'' then ''gc''
      else if theme = ''oom_risk'' \<or> theme = ''memory_pressure'' then ''memory''
      else if theme = ''error_spike'' then ''error''
      else ''performance'')"

definition insight_logs_link :: "string \<Rightarrow> insight \<Rightarrow> string" where
  "insight_logs_link grp i =
     (if grp \<noteq> [] then ''/logs?group='' @ encodeURIComponent grp @ ''&topic='' @ insight_topic (in_theme i)
      else ''/logs?container='' @ encodeURIComponent (in_container i) @ ''&topic='' @ insight_topic (in_theme i))"

definition theme_label :: "translate \<Rightarrow> string \<Rightarrow> string" where
  "theme_label t theme =
     (let themeKey = ''insightTheme.'' @ theme; label = t themeKey [] in if label = themeKey then theme else label)"

definition insight_row :: "translate \<Rightarrow> string \<Rightarrow> insight \<Rightarrow> 'h ui" where
  "insight_row t grp i = el ''li''
     [el ''div''
       ([el ''p'' [Text (in_title i)],
         el ''p'' (el ''span'' [Text (theme_label t (in_theme i))]
           # opt (in_container i \<noteq> [])
               (el ''span'' [Text (t ''problems.onContainer'' [(''container'', TStr (in_container i))])]))]
        @ opt (in_summary i \<noteq> []) (el ''p'' [Text (in_summary i)])
        @ [el ''p'' [link (insight_logs_link grp i) [Text (t ''problemsExtra.relatedLogs'' [])]]]),
      badge (coalesce (severityVariant (in_severity i)) ''outline'') (severityLabel t (in_severity i))]"

datatype problems_action =
    Pb_Group | Pb_Window picker_action | Set_Tab string | Now_Retry | Slo_Retry | Events_Retry | Events_Page jsnum

definition list_or_note :: "string \<Rightarrow> ('a \<Rightarrow> 'h ui) \<Rightarrow> 'a list \<Rightarrow> 'h ui" where
  "list_or_note note row xs = (if xs = [] then empty_note note else el ''ul'' (map row xs))"

definition problems_now_view :: "env \<Rightarrow> string \<Rightarrow> problems_now \<Rightarrow> problems_action ui" where
  "problems_now_view e grp st =
     (let t = tr e in
      if pn_loading st \<and> pn_alerts st = [] \<and> pn_insights st = [] \<and> pn_fleet st = [] then el ''div'' (replicate 4 skeleton)
      else el ''div''
       (opt (truthy_str (pn_error st)) (load_error t (the (pn_error st)) (Some Now_Retry))
        @ [section_view (t ''problems.downTitle'' [])
             (list_or_note (t ''problems.downEmpty'' []) (down_row t) (failed_containers (pn_fleet st))),
           section_view (t ''problems.intentionalTitle'' [])
             (list_or_note (t ''problems.intentionalEmpty'' []) (down_row t) (stopped_containers (pn_fleet st))),
           section_view (t ''problemsExtra.alerts'' [])
             (list_or_note (t ''problems.noAlerts'' []) (alert_row e) (pn_alerts st)),
           section_view (t ''problemsExtra.insights'' [])
             (list_or_note (t ''problems.noInsights'' []) (insight_row t grp) (pn_insights st))]))"

subsection \<open>Objectives\<close>

record slo_list =
  sl_rows :: "slo_status list"
  sl_loading :: bool
  sl_error :: bool

definition slo_list_init :: slo_list where
  "slo_list_init = \<lparr>sl_rows = [], sl_loading = True, sl_error = False\<rparr>"

definition slo_list_answer :: "api_error + slo_status list \<Rightarrow> slo_list \<Rightarrow> slo_list" where
  "slo_list_answer r st =
     (case r of Inr rows \<Rightarrow> st\<lparr>sl_rows := rows, sl_error := False\<rparr> | Inl _ \<Rightarrow> st\<lparr>sl_error := True\<rparr>)\<lparr>sl_loading := False\<rparr>"

definition slo_sorted :: "slo_status list \<Rightarrow> slo_status list" where
  "slo_sorted rows = js_sort (\<lambda>a b. error_budget_remaining a - error_budget_remaining b) rows"

definition slo_card :: "env \<Rightarrow> slo_status \<Rightarrow> 'h ui" where
  "slo_card e row =
     (let t = tr e; s = st_slo row in
      El ''Card'' [(''breached'', ABool (breached row))]
       [el ''CardHeader''
         [el ''div'' [el ''CardTitle'' [Text (slo_name s)],
            badge (if breached row then ''destructive'' else ''outline'')
              (if breached row then t ''overview.violated'' [] else t ''sloExtra.ok'' [])],
          el ''p'' [Text (sloObjective t s)],
          el ''p'' [Text (t ''sloExtra.window'' [(''service'', TStr (slo_service s)), (''hours'', TInt (window_hours s))])]],
        el ''CardContent''
         ([el ''div''
            [el ''div'' [el ''span'' [Text (t ''sloExtra.compliance'' [])], el ''span'' [Text (formatPercent e (compliance row) 2)]],
             usage_bar e (compliance row) (if breached row then Tone_Critical else Tone_Default)
               (t ''sloExtra.complianceOf'' [(''name'', TStr (slo_name s))]),
             el ''p'' [Text (t ''sloExtra.requests'' [(''good'', TInt (good_events row)), (''total'', TInt (total_events row))]),
                     Text (if p95_latency_ms row > 0
                           then t ''sloExtra.p95'' [(''ms'', TStr (formatNumber e (p95_latency_ms row) 0))] else [])]],
           el ''div''
            [el ''div'' [el ''span'' [Text (t ''sloExtra.budget'' [])],
                        el ''span'' [Text (formatPercent e (error_budget_remaining row) 1)]],
             usage_bar e (error_budget_remaining row) (budgetTone (error_budget_remaining row))
               (t ''sloExtra.budgetOf'' [(''name'', TStr (slo_name s))])]]
          @ opt (slo_service s \<noteq> [])
              (el ''div'' [link (sloMetricsLink s) [Text (t ''slo.httpMetrics'' [])],
                 link (''/traces?service='' @ encodeURIComponent (slo_service s)) [Text (t ''sloExtra.traces'' [])]]))])"

definition slo_list_view :: "env \<Rightarrow> slo_list \<Rightarrow> problems_action ui" where
  "slo_list_view e st =
     (let t = tr e in
      if sl_loading st \<and> sl_rows st = [] then skeleton
      else if sl_error st \<and> sl_rows st = [] then load_error t (t ''slo.loadError'' []) (Some Slo_Retry)
      else if sl_rows st = [] then el ''p'' [Text (t ''slo.empty'' [])]
      else el ''div'' (map (slo_card e) (slo_sorted (sl_rows st))))"

subsection \<open>Events\<close>

definition formatPayload :: "(string \<times> json) list option \<Rightarrow> string" where
  "formatPayload payload =
     (case payload of
        None \<Rightarrow> dash
      | Some ms \<Rightarrow> if ms = [] then dash
                  else join '', '' (map (\<lambda>(k, v). k @ ''='' @ json_to_string v) (slice 0 3 (object_entries ms))))"

record event_history =
  eh_result :: "event_row list_page"
  eh_loading :: bool
  eh_error :: "string option"

definition event_history_init :: event_history where
  "event_history_init = \<lparr>eh_result = \<lparr>entries = [], total = 0, limit = Fin 50, offset = 0, truncated = False\<rparr>,
     eh_loading = True, eh_error = None\<rparr>"

definition events_request ::
  "event_row body fetch \<Rightarrow> string \<Rightarrow> string \<Rightarrow> params \<Rightarrow> api_error + event_row list_page" where
  "events_request fetch base since ps =
     listEvents fetch base None (Some since) (Some (Fin 50)) (Some ((log_page ps - 1) * Fin 50))"

definition events_answer :: "translate \<Rightarrow> api_error + event_row list_page \<Rightarrow> event_history \<Rightarrow> event_history" where
  "events_answer t r st =
     (case r of Inr ev \<Rightarrow> st\<lparr>eh_result := ev, eh_error := None\<rparr>
      | Inl _ \<Rightarrow> st\<lparr>eh_error := Some (t ''events.loadError'' [])\<rparr>)\<lparr>eh_loading := False\<rparr>"

definition event_container :: "event_row \<Rightarrow> string" where
  "event_container ev = last (split_on (CHR '':'') (e_entity_uid ev))"

definition event_row_view :: "env \<Rightarrow> event_row \<Rightarrow> 'h ui" where
  "event_row_view e ev =
     (let t = tr e; c = event_container ev in el ''TableRow''
       [el ''TableCell'' [Text (formatDateTime e (e_ts ev))],
        el ''TableCell'' [Text (e_type ev)],
        el ''TableCell'' [badge (coalesce (severityVariant (e_severity ev)) ''outline'') (severityLabel t (e_severity ev))],
        el ''TableCell'' [link (''/logs?container='' @ encodeURIComponent c) [Text c]],
        el ''TableCell'' [Text (e_source ev)],
        el ''TableCell'' [Text (formatPayload (e_payload ev))]])"

definition event_history_view :: "env \<Rightarrow> params \<Rightarrow> event_history \<Rightarrow> problems_action ui list" where
  "event_history_view e ps st =
     (let t = tr e; res = eh_result st in
      opt (truthy_str (eh_error st)) (load_error t (the (eh_error st)) (Some Events_Retry))
      @ [el ''Table''
          [table_header [t ''events.time'' [], t ''events.type'' [], t ''events.severity'' [], t ''common.container'' [],
                         t ''events.source'' [], t ''events.payload'' []],
           el ''TableBody''
            (if eh_loading st \<and> entries res = [] then [el ''TableRow'' [el ''TableCell'' [skeleton]]]
             else if entries res = [] then [el ''TableRow'' [el ''TableCell'' [Text (t ''events.empty'' [])]]]
             else map (event_row_view e) (entries res))],
         remote_pager t res (log_page ps) Events_Page])"

subsection \<open>The page\<close>

definition defaultSince :: "string \<Rightarrow> string option" where
  "defaultSince tab = map_of [(''now'', ''1h''), (''history'', ''24h'')] tab"

definition problems_tab :: "params \<Rightarrow> string" where
  "problems_tab ps = query_value ''tab'' ''now'' ps"

definition problems_since :: "params \<Rightarrow> string" where
  "problems_since ps = query_value ''since'' (coalesce (defaultSince (problems_tab ps)) ''1h'') ps"

fun problems_query :: "env \<Rightarrow> jsnum \<Rightarrow> picker \<Rightarrow> problems_action \<Rightarrow> string \<Rightarrow> params \<Rightarrow> params" where
  "problems_query e now pk Pb_Group typed ps = query_set ''group'' [] typed ps"
| "problems_query e now pk (Pb_Window a) typed ps =
     (case snd (picker_step e now typed a pk) of
        Some v \<Rightarrow> query_set ''since'' (coalesce (defaultSince (problems_tab ps)) ''1h'') v ps
      | None \<Rightarrow> ps)"
| "problems_query e now pk (Set_Tab v) typed ps =
     query_patch [(''tab'', Some v), (''since'', None)] [(''tab'', ''now'')] ps"
| "problems_query e now pk (Events_Page n) typed ps = query_set ''page'' ''1'' (num_string n) ps"
| "problems_query e now pk _ typed ps = ps"

definition problems_view ::
  "env \<Rightarrow> params \<Rightarrow> picker \<Rightarrow> group_select_state \<Rightarrow> problems_now \<Rightarrow> slo_list \<Rightarrow> event_history \<Rightarrow> problems_action ui" where
  "problems_view e ps pk gs current slos hist =
     (let t = tr e; tab = problems_tab ps; grp = query_value ''group'' [] ps in
      el ''div''
       ([page_header (t ''problems.title'' []) None
          (if tab = ''slos'' then []
           else opt (tab = ''now'') (map_ui (\<lambda>_. Pb_Group) (group_select t grp False None gs))
                @ [map_ui Pb_Window (time_range_picker e (problems_since ps) pk)]),
         El ''Tabs'' [(''value'', AStr tab)]
          [El ''TabsList'' [(''aria-label'', AStr (t ''common.section'' []))]
            (map (\<lambda>v. El ''TabsTrigger'' [(''value'', AStr v), (''onSelect'', AHandler (Set_Tab v))]
               [Text (t (''problems.'' @ v) [])]) [''now'', ''slos'', ''history''])]]
        @ (if tab = ''slos'' then [slo_list_view e slos]
           else if tab = ''history'' then event_history_view e ps hist
           else [problems_now_view e grp current])))"

subsection \<open>The polled loads\<close>

definition problems_answered ::
  "api_error + active_alert list \<times> insights_response \<times> fleet_status_response
     \<Rightarrow> (active_alert list \<times> insight list \<times> container_fleet_status list) option" where
  "problems_answered r = (case r of Inr (a, i, f) \<Rightarrow> Some (a, coalesce (ir_insights i) [], coalesce (fr_containers f) [])
     | Inl _ \<Rightarrow> None)"

text \<open>The history follows the address as the log lines do: its only filter is the window.\<close>

definition events_deps :: "params \<Rightarrow> string \<times> jsnum" where
  "events_deps ps = (problems_since ps, log_page ps)"

interpretation events_page: filter_reset problems_since events_deps events_deps
  by unfold_locales (simp_all add: problems_since_def problems_tab_def first_page_other)

definition events_commit ::
  "params \<Rightarrow> (string \<times> jsnum, string \<times> jsnum, 'a, event_history) filter_page
     \<Rightarrow> (string \<times> jsnum, string \<times> jsnum, 'a, event_history) filter_page option" where
  "events_commit = page_commit problems_since events_deps events_deps"

lemma events_follow_address:
  assumes "page_session ordered settle s0 problems_since events_deps events_deps st"
  shows "\<exists>st'. events_commit ps st = Some st'
    \<and> fp_address st' = (if problems_since ps = problems_since (fp_address st) then ps else first_page ps)
    \<and> pl_query (fp_poll st') = events_deps (fp_address st')"
  unfolding events_commit_def by (rule events_page.session_commit [OF assms])

interpretation problems_poll: polled_load "problems_answer t" "\<lambda>r. problems_answered r \<noteq> None"
  "\<lambda>st. Some (pn_alerts st, pn_insights st, pn_fleet st)" problems_answered
  for t by unfold_locales (auto simp: problems_answer_def problems_answered_def split: sum.splits prod.splits)

interpretation slo_poll: polled_load slo_list_answer is_okay "\<lambda>st. Some (sl_rows st)" answered_value
  by unfold_locales (auto simp: slo_list_answer_def answered_value_def is_okay_def split: sum.splits)

interpretation events_poll: polled_load "events_answer t" is_okay "\<lambda>st. Some (eh_result st)" answered_value
  for t by unfold_locales (auto simp: events_answer_def answered_value_def is_okay_def split: sum.splits)

text \<open>When the first load fails the sections still say that nothing is down (see the findings).\<close>

lemma failed_load_says_nothing_is_down:
  "t ''problems.loadError'' [] \<noteq> [] \<Longrightarrow> tr e = t \<Longrightarrow>
   problems_now_view e grp (problems_answer t (Inl err) problems_now_init) =
     el ''div''
      [load_error t (t ''problems.loadError'' []) (Some Now_Retry),
       section_view (t ''problems.downTitle'' []) (empty_note (t ''problems.downEmpty'' [])),
       section_view (t ''problems.intentionalTitle'' []) (empty_note (t ''problems.intentionalEmpty'' [])),
       section_view (t ''problemsExtra.alerts'' []) (empty_note (t ''problems.noAlerts'' [])),
       section_view (t ''problemsExtra.insights'' []) (empty_note (t ''problems.noInsights'' []))]"
  by (simp add: problems_now_view_def problems_answer_def problems_now_init_def Let_def list_or_note_def
      failed_containers_def stopped_containers_def)

subsection \<open>The order of the objectives\<close>

interpretation budgets: numeric_key error_budget_remaining "\<lambda>s. is_double (error_budget_remaining s)"
  by unfold_locales

lemma slo_sorted_ascending:
  assumes "\<forall>s\<in>set rows. is_double (error_budget_remaining s)"
  shows "sorted_wrt (\<lambda>a b. \<not> error_budget_remaining b < error_budget_remaining a) (slo_sorted rows)"
proof -
  have "sorted_wrt (\<lambda>a b. \<not> 0 < error_budget_remaining a - error_budget_remaining b) (slo_sorted rows)"
    unfolding slo_sorted_def by (rule budgets.asc.sorted_js_sort [OF assms])
  then show ?thesis
    by (rule sorted_wrt_mono_rel [rotated]) (use assms sign_minus_double in \<open>auto simp: slo_sorted_def\<close>)
qed

subsection \<open>Properties\<close>

text \<open>The sections of the page tell apart what failed and what was stopped: a container is listed
  as down exactly when it ended unexpectedly or out of memory, as stopped exactly when that was
  intended, never as both; every container listed as down counts as unstable elsewhere and none
  listed as stopped does; the order of the fleet is kept.\<close>

theorem problem_sections_disjoint:
  "set (failed_containers fleet) = {c \<in> set fleet. disposition c \<in> {Some ''unexpected'', Some ''oom''}}
   \<and> set (stopped_containers fleet) = {c \<in> set fleet. disposition c = Some ''intentional''}
   \<and> set (failed_containers fleet) \<inter> set (stopped_containers fleet) = {}
   \<and> failed_containers (filter isUnstable fleet) = failed_containers fleet
   \<and> stopped_containers (filter isUnstable fleet) = []"
  by (auto simp: failed_containers_def stopped_containers_def isUnstable_def filter_empty_conv Let_def
      intro!: filter_cong)

text \<open>Choosing a tab shows that tab with its own default window and keeps the rest of the address:
  an hour for what happens now, a day for the history.\<close>

theorem tab_resets_window:
  "problems_tab (problems_query e now pk (Set_Tab v) typed ps) = (if v = [] then ''now'' else v)
   \<and> problems_since (problems_query e now pk (Set_Tab v) typed ps) = (if v = ''history'' then ''24h'' else ''1h'')
   \<and> (k \<noteq> ''tab'' \<and> k \<noteq> ''since'' \<longrightarrow> params_get (problems_query e now pk (Set_Tab v) typed ps) k = params_get ps k)"
  by (auto simp: problems_tab_def problems_since_def query_value_def params_get_patch elided_def defaultSince_def)

lemma tab_resets_window_witness:
  "problems_since (problems_query sample_env 0 (picker_init ''15m'') (Set_Tab ''history'') [] [(''since'', ''15m'')]) = ''24h''
   \<and> params_get (problems_query sample_env 0 (picker_init ''15m'') (Set_Tab ''history'') [] [(''since'', ''15m'')]) ''group'' = None"
  using tab_resets_window [of sample_env 0 "picker_init ''15m''" "''history''" "[]" "[(''since'', ''15m'')]" "''group''"]
  by (simp add: params_get_def)

text \<open>The objectives are shown all, the one with the least budget left first.\<close>

theorem objectives_least_budget_first:
  assumes "\<forall>s\<in>set rows. is_double (error_budget_remaining s)"
  shows "mset (slo_sorted rows) = mset rows
    \<and> sorted_wrt (\<lambda>a b. \<not> error_budget_remaining b < error_budget_remaining a) (slo_sorted rows)"
  using slo_sorted_ascending [OF assms] by (simp add: slo_sorted_def)

definition sample_slo :: "string \<Rightarrow> jsnum \<Rightarrow> slo_status" where
  "sample_slo i budget = \<lparr>st_slo = \<lparr>slo_id = i, slo_name = i, slo_service = ''api'', slo_group_id = None, sli_metric = ''latency_p95'',
       slo_target = Fin 99, window_hours = 24, latency_threshold_ms = Fin 200, slo_created_at = None\<rparr>,
     compliance = Fin 99, error_budget_remaining = budget, good_events = 10, total_events = 11, p95_latency_ms = 0,
     breached = False, evaluated_at = []\<rparr>"

lemma objectives_least_budget_first_witness:
  "sorted_wrt (\<lambda>a b. \<not> error_budget_remaining b < error_budget_remaining a)
     (slo_sorted [sample_slo ''a'' (Fin 40), sample_slo ''b'' (Fin 5)])"
  using objectives_least_budget_first [of "[sample_slo ''a'' (Fin 40), sample_slo ''b'' (Fin 5)]"]
    rep_of_int [of 40] rep_of_int [of 5]
  by (simp add: sample_slo_def is_double_def)

end
