(* ===== verification/Links.thy ===== *)
theory Links
  imports Metrics_Page Problems
begin

text \<open>
  The links between the pages, followed the way the router and the pages follow them: the path
  chooses the page, the query becomes the parameters the page reads. \<open>encodeURIComponent\<close> and the
  parser of \<open>URLSearchParams\<close> fit each other although they are not inverse formats, so a link that
  names a container, a service or a group opens a page about exactly that one.
\<close>

definition follow :: "string \<Rightarrow> (page \<times> params) option" where
  "follow address =
     (let path = takeWhile (\<lambda>c. c \<noteq> CHR ''?'') address; query = drop (Suc (length path)) address in
      case app_route (drop 1 path) of
        Render p \<Rightarrow> map_option (Pair p) (parse_query query)
      | _ \<Rightarrow> None)"

subsection \<open>Queries of a link\<close>

lemma follow_link:
  assumes "CHR ''?'' \<notin> set path" "app_route path = Render p" "kvs \<noteq> []"
    and "list_all2 (\<lambda>(k, v) (k', w). k' = k \<and> self_coded k \<and> coded v w) kvs ps"
  shows "follow (CHR ''/'' # path @ CHR ''?'' # query_text kvs) = Some (p, ps)"
proof -
  have "takeWhile (\<lambda>c. c \<noteq> CHR ''?'') (path @ CHR ''?'' # query_text kvs) = path @ takeWhile (\<lambda>c. c \<noteq> CHR ''?'') (CHR ''?'' # query_text kvs)"
    using assms(1) by (intro takeWhile_append2) auto
  then show ?thesis using assms(2) parse_query_text [OF assms(3,4)] by (simp add: follow_def)
qed

lemma self_coded_keys [simp]:
  "self_coded ''container''" "self_coded ''containers''" "self_coded ''since''" "self_coded ''service''" "self_coded ''mode''"
  "self_coded ''metric''" "self_coded ''group''" "self_coded ''topic''"
  by (simp_all add: self_coded_def)

lemmas follow_logs = follow_link [of "''logs''" LogsPage]
lemmas follow_traces = follow_link [of "''traces''" TracesPage]
lemmas follow_metrics = follow_link [of "''metrics''" MetricsPage]

lemma follow_logs_container: "follow (''/logs?container='' @ encodeURIComponent c) = Some (LogsPage, [(''container'', c)])"
  using follow_logs [of "[(''container'', encodeURIComponent c)]" "[(''container'', c)]"]
  by (simp add: app_route_def query_text_def coded_intros)

lemma follow_metrics_container: "follow (''/metrics?container='' @ encodeURIComponent c) = Some (MetricsPage, [(''container'', c)])"
  using follow_metrics [of "[(''container'', encodeURIComponent c)]" "[(''container'', c)]"]
  by (simp add: app_route_def query_text_def coded_intros)

lemma follow_traces_service: "follow (''/traces?service='' @ encodeURIComponent c) = Some (TracesPage, [(''service'', c)])"
  using follow_traces [of "[(''service'', encodeURIComponent c)]" "[(''service'', c)]"]
  by (simp add: app_route_def query_text_def coded_intros)

lemma follow_compare_metric:
  "self_coded m \<Longrightarrow> follow (''/metrics?mode=compare&metric='' @ m @ ''&service='' @ encodeURIComponent c)
     = Some (MetricsPage, [(''mode'', ''compare''), (''metric'', m), (''service'', c)])"
  using follow_metrics [of "[(''mode'', ''compare''), (''metric'', m), (''service'', encodeURIComponent c)]"
      "[(''mode'', ''compare''), (''metric'', m), (''service'', c)]"] coded_intros(2) [of "''compare''"]
  by (simp add: app_route_def query_text_def coded_intros self_coded_def)

subsection \<open>The links of a view\<close>

lemma elements_simps:
  "elements n (Text s) = []"
  "elements n (El m as cs) = (if m = n then [El m as cs] else []) @ concat (map (elements n) cs)"
  by (auto simp: elements_def [abs_def] filter_concat comp_def)

lemma concat_map_concat: "concat (map f (concat xss)) = concat (map (\<lambda>xs. concat (map f xs)) xss)"
  by (induction xss) simp_all

lemma link_targets_Text [simp]: "link_targets (Text s) = []"
  by (simp add: link_targets_def elements_simps)

lemma link_targets_El [simp]:
  "link_targets (El n as cs) =
     (if n = ''Link'' then (case map_of as ''to'' of Some (AStr s) \<Rightarrow> [s] | _ \<Rightarrow> []) else []) @ concat (map link_targets cs)"
  by (simp add: link_targets_def [abs_def] elements_simps concat_map_concat comp_def)

lemma link_targets_parts [simp]:
  "link_targets (el n cs) = (if n = ''Link'' then [] else []) @ concat (map link_targets cs)"
  "link_targets (link a cs) = a # concat (map link_targets cs)"
  "link_targets (badge v l) = []" "link_targets (button d h l) = []"
  by (simp_all add: el_def link_def badge_def button_def)

lemma link_targets_row:
  "link_targets (container_row_view e r) =
     [''/metrics?container='' @ encodeURIComponent (r_container r), ''/logs?container='' @ encodeURIComponent (r_container r)]"
  by (simp add: container_row_view_def state_cell_def cpu_cell_def opt_def Let_def split: option.split)

lemma link_targets_down:
  "link_targets (down_row t c) =
     [''/logs?container='' @ encodeURIComponent (f_container c), ''/metrics?container='' @ encodeURIComponent (f_container c)]"
  by (simp add: down_row_def row_links_def)

lemma follow_insight:
  "follow (insight_logs_link grp i)
     = Some (LogsPage, [if grp \<noteq> [] then (''group'', grp) else (''container'', in_container i), (''topic'', insight_topic (in_theme i))])"
proof -
  have t: "self_coded (insight_topic (in_theme i))" by (simp add: insight_topic_def self_coded_def)
  have "insight_logs_link grp i = ''/logs?'' @ query_text
      [if grp \<noteq> [] then (''group'', encodeURIComponent grp) else (''container'', encodeURIComponent (in_container i)),
       (''topic'', insight_topic (in_theme i))]"
    by (simp add: insight_logs_link_def query_text_def)
  then show ?thesis
    using follow_logs [of "[if grp \<noteq> [] then (''group'', encodeURIComponent grp) else (''container'', encodeURIComponent (in_container i)),
       (''topic'', insight_topic (in_theme i))]"] coded_intros(2) [OF t]
    by (auto simp: app_route_def coded_intros(1))
qed

definition traces_service :: "string \<Rightarrow> workload_snapshot list \<Rightarrow> string" where
  "traces_service selected workloads =
     (let service = Option.bind (List.find (\<lambda>w. w_container w = selected) workloads) w_service
      in if truthy_str service then the service else selected)"

lemma link_targets_toggle [simp]: "link_targets (map_ui f (stat_toggle t stat)) = []"
  by (simp add: stat_toggle_def STAT_MODES_def)

lemma link_targets_heading:
  "link_targets (container_heading t since selected stat workloads containers) =
     [''/logs?container='' @ encodeURIComponent selected @ ''&since='' @ since,
      ''/traces?service='' @ encodeURIComponent (traces_service selected workloads) @ ''&since='' @ since,
      ''/metrics?mode=compare&containers='' @ encodeURIComponent selected @ ''&since='' @ since]"
  by (simp add: container_heading_def traces_service_def opt_def Let_def)

lemma follow_heading:
  assumes "self_coded since"
  shows "follow (''/logs?container='' @ encodeURIComponent c @ ''&since='' @ since) = Some (LogsPage, [(''container'', c), (''since'', since)])"
    and "follow (''/traces?service='' @ encodeURIComponent c @ ''&since='' @ since) = Some (TracesPage, [(''service'', c), (''since'', since)])"
    and "follow (''/metrics?mode=compare&containers='' @ encodeURIComponent c @ ''&since='' @ since)
      = Some (MetricsPage, [(''mode'', ''compare''), (''containers'', c), (''since'', since)])"
proof -
  have m: "coded ''compare'' ''compare''" by (rule coded_intros) (simp add: self_coded_def)
  note i = coded_intros(1) coded_intros(2) [OF assms] m
  show "follow (''/logs?container='' @ encodeURIComponent c @ ''&since='' @ since) = Some (LogsPage, [(''container'', c), (''since'', since)])"
    using follow_logs [of "[(''container'', encodeURIComponent c), (''since'', since)]" "[(''container'', c), (''since'', since)]"]
    by (simp add: app_route_def query_text_def i)
  show "follow (''/traces?service='' @ encodeURIComponent c @ ''&since='' @ since) = Some (TracesPage, [(''service'', c), (''since'', since)])"
    using follow_traces [of "[(''service'', encodeURIComponent c), (''since'', since)]" "[(''service'', c), (''since'', since)]"]
    by (simp add: app_route_def query_text_def i)
  show "follow (''/metrics?mode=compare&containers='' @ encodeURIComponent c @ ''&since='' @ since)
      = Some (MetricsPage, [(''mode'', ''compare''), (''containers'', c), (''since'', since)])"
    using follow_metrics [of "[(''mode'', ''compare''), (''containers'', encodeURIComponent c), (''since'', since)]"
        "[(''mode'', ''compare''), (''containers'', c), (''since'', since)]"]
    by (simp add: app_route_def query_text_def i)
qed

subsection \<open>Properties\<close>

text \<open>C20. Links open a page about what they were shown for: a row of the containers page and a row of
  the problems lead to the logs and the metrics of that container; an item of the overview about a
  container leads to its logs, one about failing requests, like the metrics of an objective, to the
  comparison of that metric for that service; an insight leads to the logs of its group or
  container on its topic. This holds for every name, whatever its characters.\<close>

theorem links_name_their_subject:
  "map follow (link_targets (container_row_view e r))
     = [Some (MetricsPage, [(''container'', r_container r)]), Some (LogsPage, [(''container'', r_container r)])]
   \<and> map follow (link_targets (down_row t c))
     = [Some (LogsPage, [(''container'', f_container c)]), Some (MetricsPage, [(''container'', f_container c)])]
   \<and> follow (ai_to (unstable_item t c)) = Some (LogsPage, [(''container'', f_container c)])
   \<and> follow (ai_to (http_item e h))
     = Some (MetricsPage, [(''mode'', ''compare''), (''metric'', ''http.error_rate''), (''service'', hs_service h)])
   \<and> follow (sloMetricsLink s)
     = Some (MetricsPage, [(''mode'', ''compare''),
         (''metric'', if sli_metric s = ''latency_p95'' then ''http.duration_ms'' else ''http.error_rate''), (''service'', slo_service s)])
   \<and> follow (insight_logs_link grp i)
     = Some (LogsPage, [if grp \<noteq> [] then (''group'', grp) else (''container'', in_container i), (''topic'', insight_topic (in_theme i))])"
proof (intro conjI)
  show "map follow (link_targets (container_row_view e r))
     = [Some (MetricsPage, [(''container'', r_container r)]), Some (LogsPage, [(''container'', r_container r)])]"
    by (simp only: link_targets_row list.map follow_logs_container follow_metrics_container)
  show "map follow (link_targets (down_row t c))
     = [Some (LogsPage, [(''container'', f_container c)]), Some (MetricsPage, [(''container'', f_container c)])]"
    by (simp only: link_targets_down list.map follow_logs_container follow_metrics_container)
  show "follow (ai_to (unstable_item t c)) = Some (LogsPage, [(''container'', f_container c)])"
    using follow_logs_container [of "f_container c"] by (simp add: unstable_item_def)
  show "follow (ai_to (http_item e h))
     = Some (MetricsPage, [(''mode'', ''compare''), (''metric'', ''http.error_rate''), (''service'', hs_service h)])"
    using follow_compare_metric [of "''http.error_rate''" "hs_service h"] by (simp add: http_item_def Let_def self_coded_def)
  show "follow (sloMetricsLink s)
     = Some (MetricsPage, [(''mode'', ''compare''),
         (''metric'', if sli_metric s = ''latency_p95'' then ''http.duration_ms'' else ''http.error_rate''), (''service'', slo_service s)])"
    using follow_compare_metric [of "''http.error_rate''" "slo_service s"] follow_compare_metric [of "''http.duration_ms''" "slo_service s"]
    by (simp add: sloMetricsLink_def Let_def self_coded_def)
  show "follow (insight_logs_link grp i)
     = Some (LogsPage, [if grp \<noteq> [] then (''group'', grp) else (''container'', in_container i), (''topic'', insight_topic (in_theme i))])"
    by (rule follow_insight)
qed

text \<open>C21. From one container to its logs, its traces and its comparison: the three links in the heading
  of a container open these pages in the same window, about that container (the traces about the service of its
  workload when that is known and not empty), and the comparison has exactly that container selected. The window
  stands in the address as it is, so its characters must mean themselves there; the name must not
  be empty or have a comma.\<close>

theorem container_links_land:
  assumes "selected \<noteq> []" "CHR '','' \<notin> set selected" "self_coded since"
  shows "\<exists>logs traces compare.
    map follow (link_targets (container_heading t since selected stat workloads containers))
      = [Some (LogsPage, logs), Some (TracesPage, traces), Some (MetricsPage, compare)]
    \<and> lf_container (log_filters logs) = selected \<and> query_value ''since'' d logs = since
    \<and> query_value ''service'' [] traces
      = (case List.find (\<lambda>w. w_container w = selected) workloads of
           Some w \<Rightarrow> if truthy_str (w_service w) then the (w_service w) else selected
         | None \<Rightarrow> selected)
    \<and> query_value ''since'' d traces = since
    \<and> query_value ''mode'' ''container'' compare = ''compare'' \<and> selected_containers compare = [selected]
    \<and> query_value ''since'' d compare = since"
proof -
  let ?s = "traces_service selected workloads"
  have plain: "plain_names [selected]" using assms(1,2) by (simp add: plain_names_def)
  have "selected_containers [(''mode'', ''compare''), (''containers'', selected), (''since'', since)] = [selected]"
    using split_joined [OF plain] by (simp add: selected_containers_def query_value_def params_get_def)
  moreover have "?s = (case List.find (\<lambda>w. w_container w = selected) workloads of
           Some w \<Rightarrow> if truthy_str (w_service w) then the (w_service w) else selected | None \<Rightarrow> selected)"
    by (simp add: traces_service_def split: option.split)
  moreover have "lf_container (log_filters [(''container'', selected), (''since'', since)]) = selected"
    by (simp add: log_filters_def query_value_def params_get_def)
  moreover have "map follow (link_targets (container_heading t since selected stat workloads containers))
      = [Some (LogsPage, [(''container'', selected), (''since'', since)]),
         Some (TracesPage, [(''service'', ?s), (''since'', since)]),
         Some (MetricsPage, [(''mode'', ''compare''), (''containers'', selected), (''since'', since)])]"
    unfolding link_targets_heading list.map using follow_heading [OF assms(3)] by simp
  ultimately show ?thesis
    by (intro exI [of _ "[(''container'', selected), (''since'', since)]"] exI [of _ "[(''service'', ?s), (''since'', since)]"]
        exI [of _ "[(''mode'', ''compare''), (''containers'', selected), (''since'', since)]"])
      (simp add: query_value_def params_get_def)
qed

lemma container_links_land_witness:
  "\<exists>logs traces compare.
    map follow (link_targets (container_heading (\<lambda>k _. k) ''6h'' ''web/1'' Avg [] []))
      = [Some (LogsPage, logs), Some (TracesPage, traces), Some (MetricsPage, compare)]
    \<and> selected_containers compare = [''web/1'']"
proof -
  have "self_coded ''6h''" by (simp add: self_coded_def)
  then show ?thesis
    using container_links_land [of "''web/1''" "''6h''" "\<lambda>k _. k" Avg "[]" "[]" "''1h''"] by fastforce
qed

end
