(* ===== verification/Chart_Ui.thy ===== *)
theory Chart_Ui
  imports Charts
begin

text \<open>
  \<open>components/ui/chart.tsx\<close>: the container of a chart with its style sheet, and the content of the
  tooltip. A configuration is its entries in order. An item of the tooltip is an object the chart
  library makes: its fields that are text or numbers, and the row it belongs to; other fields are
  never asked for as text. How a number is written with at most two decimals is a parameter.
\<close>

record chart_config_item =
  cg_label :: "string option"
  cg_icon :: bool
  cg_color :: "string option"
  cg_theme :: "(string \<times> string) list option"

type_synonym chart_config = "(string \<times> chart_config_item) list"

subsection \<open>The style sheet\<close>

definition THEMES :: "(string \<times> string) list" where
  "THEMES = [(''light'', []), (''dark'', ''.dark'')]"

definition coloured :: "chart_config_item \<Rightarrow> bool" where
  "coloured c = (cg_theme c \<noteq> None \<or> truthy_str (cg_color c))"

definition newline :: string where
  "newline = [CHR 0x0A]"

definition color_line :: "string \<Rightarrow> string \<times> chart_config_item \<Rightarrow> string" where
  "color_line theme kc =
     (let (key, c) = kc;
          color = (case Option.bind (cg_theme c) (\<lambda>m. map_get m theme) of Some x \<Rightarrow> Some x | None \<Rightarrow> cg_color c)
      in if truthy_str color then ''  --color-'' @ key @ '': '' @ the color @ '';'' else [])"

definition theme_block :: "string \<Rightarrow> chart_config \<Rightarrow> string \<times> string \<Rightarrow> string" where
  "theme_block chartId colorConfig tp =
     (let (theme, prefix) = tp in
      newline @ prefix @ '' [data-chart='' @ chartId @ ''] {'' @ newline
      @ join newline (map (color_line theme) colorConfig) @ newline @ ''}'' @ newline)"

definition chart_style :: "string \<Rightarrow> chart_config \<Rightarrow> 'h ui option" where
  "chart_style chartId config =
     (let colorConfig = filter (\<lambda>(_, c). coloured c) config in
      if colorConfig = [] then None
      else Some (El ''style'' [(''html'', AStr (join newline (map (theme_block chartId colorConfig) THEMES)))] []))"

definition chart_id :: "string option \<Rightarrow> string \<Rightarrow> string" where
  "chart_id given_id uniqueId = ''chart-'' @ coalesce given_id (filter (\<lambda>c. c \<noteq> CHR '':'') uniqueId)"

definition chart_container ::
  "string option \<Rightarrow> string \<Rightarrow> chart_config \<Rightarrow> (string \<times> 'h attr) list \<Rightarrow> 'h ui \<Rightarrow> 'h ui" where
  "chart_container given_id uniqueId config props child =
     (let chartId = chart_id given_id uniqueId in
      El ''div'' ((''data-chart'', AStr chartId) # props)
        ((case chart_style chartId config of Some s \<Rightarrow> [s] | None \<Rightarrow> []) @ [el ''ResponsiveContainer'' [child]]))"

subsection \<open>The tooltip\<close>

record tip_item =
  th_fields :: chart_row
  th_payload :: "chart_row option"

definition field_text :: "tip_item \<Rightarrow> string \<Rightarrow> chart_value option" where
  "field_text item k = map_get (th_fields item) k"

fun value_text :: "chart_value \<Rightarrow> string" where
  "value_text (CStr s) = s"
| "value_text (CNum n) = num_string n"

definition getPayloadConfigFromPayload :: "chart_config \<Rightarrow> tip_item \<Rightarrow> string \<Rightarrow> chart_config_item option" where
  "getPayloadConfigFromPayload config item key =
     (let configLabelKey =
        (case field_text item key of
           Some (CStr s) \<Rightarrow> s
         | _ \<Rightarrow> (case Option.bind (th_payload item) (\<lambda>row. map_get row key) of Some (CStr s) \<Rightarrow> s | _ \<Rightarrow> key))
      in if map_get config configLabelKey \<noteq> None then map_get config configLabelKey else map_get config key)"

definition tip_key :: "string option \<Rightarrow> tip_item \<Rightarrow> string \<Rightarrow> string \<Rightarrow> string" where
  "tip_key wanted item k1 k2 =
     (case wanted of Some k \<Rightarrow> k
      | None \<Rightarrow> (case field_text item k1 of Some v \<Rightarrow> value_text v
               | None \<Rightarrow> (case field_text item k2 of Some v \<Rightarrow> value_text v | None \<Rightarrow> ''value'')))"

definition tooltip_label ::
  "chart_config \<Rightarrow> bool \<Rightarrow> string option \<Rightarrow> string option \<Rightarrow> (string option \<Rightarrow> tip_item list \<Rightarrow> 'h ui) option
     \<Rightarrow> tip_item list \<Rightarrow> 'h ui list" where
  "tooltip_label config hideLabel labelKey label labelFormatter payload =
     (if hideLabel \<or> payload = [] then []
      else
        let item = hd payload;
            key = tip_key labelKey item ''dataKey'' ''name'';
            itemConfig = getPayloadConfigFromPayload config item key;
            value = (if \<not> truthy_str labelKey \<and> label \<noteq> None
                     then Some (coalesce (Option.bind (map_get config (the label)) cg_label) (the label))
                     else Option.bind itemConfig cg_label)
        in case labelFormatter of
             Some f \<Rightarrow> [el ''div'' [f value payload]]
           | None \<Rightarrow> if truthy_str value then [el ''div'' [Text (the value)]] else [])"

definition visible_items :: "tip_item list \<Rightarrow> tip_item list" where
  "visible_items payload = filter (\<lambda>item. field_text item ''type'' \<noteq> Some (CStr ''none'')) payload"

definition indicator_color :: "string option \<Rightarrow> tip_item \<Rightarrow> string option" where
  "indicator_color color item =
     (case color of Some c \<Rightarrow> Some c
      | None \<Rightarrow> map_option value_text
          (case Option.bind (th_payload item) (\<lambda>row. map_get row ''fill'') of
             Some v \<Rightarrow> Some v | None \<Rightarrow> field_text item ''color''))"

definition tip_value :: "(jsnum \<Rightarrow> string) \<Rightarrow> chart_value \<Rightarrow> string" where
  "tip_value local_number v = (case v of CNum n \<Rightarrow> local_number n | CStr s \<Rightarrow> s)"

definition nest_label :: "string \<Rightarrow> tip_item list \<Rightarrow> bool" where
  "nest_label indicator payload = (length payload = 1 \<and> indicator \<noteq> ''dot'')"

definition tip_row ::
  "(jsnum \<Rightarrow> string) \<Rightarrow> chart_config \<Rightarrow> string \<Rightarrow> bool \<Rightarrow> string option \<Rightarrow> string option \<Rightarrow> 'h ui list \<Rightarrow> tip_item \<Rightarrow> 'h ui" where
  "tip_row local_number config indicator hideIndicator nameKey color nested item =
     (let itemConfig = getPayloadConfigFromPayload config item (tip_key nameKey item ''name'' ''dataKey'');
          mark = (if (case itemConfig of Some c \<Rightarrow> cg_icon c | None \<Rightarrow> False) then [El ''icon'' [] []]
                  else if \<not> hideIndicator then [El ''div''
                    ((''indicator'', AStr indicator)
                     # (case indicator_color color item of Some c \<Rightarrow> [(''color'', AStr c)] | None \<Rightarrow> [])) []] else []);
          label = (case Option.bind itemConfig cg_label of Some l \<Rightarrow> Some l | None \<Rightarrow> map_option value_text (field_text item ''name''))
      in el ''div''
          (mark @ [el ''div''
            (el ''div'' (nested @ [el ''span'' (case label of Some l \<Rightarrow> [Text l] | None \<Rightarrow> [])])
             # (case field_text item ''value'' of
                  Some v \<Rightarrow> [el ''span'' [Text (tip_value local_number v)]] | None \<Rightarrow> []))]))"

definition chart_tooltip_content ::
  "(jsnum \<Rightarrow> string) \<Rightarrow> chart_config \<Rightarrow> bool \<Rightarrow> tip_item list \<Rightarrow> string \<Rightarrow> bool \<Rightarrow> bool \<Rightarrow> string option
     \<Rightarrow> (string option \<Rightarrow> tip_item list \<Rightarrow> 'h ui) option
     \<Rightarrow> (chart_value \<Rightarrow> chart_value \<Rightarrow> tip_item \<Rightarrow> nat \<Rightarrow> chart_row option \<Rightarrow> 'h ui) option
     \<Rightarrow> string option \<Rightarrow> string option \<Rightarrow> string option \<Rightarrow> 'h ui option" where
  "chart_tooltip_content local_number config active payload indicator hideLabel hideIndicator label labelFormatter
       formatter color nameKey labelKey =
     (if \<not> active \<or> payload = [] then None
      else
        let tooltipLabel = tooltip_label config hideLabel labelKey label labelFormatter payload;
            nest = nest_label indicator payload;
            row = (\<lambda>(i, item). case (formatter, field_text item ''value'', field_text item ''name'') of
                (Some f, Some v, Some n) \<Rightarrow>
                  if value_text n \<noteq> [] \<and> n \<noteq> CNum 0 \<and> n \<noteq> CNum NaN then el ''div'' [f v n item i (th_payload item)]
                  else tip_row local_number config indicator hideIndicator nameKey color (if nest then tooltipLabel else []) item
              | _ \<Rightarrow> tip_row local_number config indicator hideIndicator nameKey color (if nest then tooltipLabel else []) item)
        in Some (el ''div''
             ((if nest then [] else tooltipLabel) @ [el ''div'' (map row (enumerate 0 (visible_items payload)))])))"

text \<open>As the charts of the panel use it: without arguments of its own.\<close>

definition plain_tooltip :: "(jsnum \<Rightarrow> string) \<Rightarrow> chart_config \<Rightarrow> string \<Rightarrow> tip_item list \<Rightarrow> 'h ui option" where
  "plain_tooltip local_number config label payload =
     chart_tooltip_content local_number config True payload ''dot'' False False (Some label) None None None None None"

subsection \<open>The legend\<close>

definition legend_key :: "string option \<Rightarrow> tip_item \<Rightarrow> string" where
  "legend_key nameKey item =
     coalesce nameKey (case field_text item ''dataKey'' of Some v \<Rightarrow> value_text v | None \<Rightarrow> ''value'')"

definition legend_entry :: "chart_config \<Rightarrow> bool \<Rightarrow> string option \<Rightarrow> tip_item \<Rightarrow> 'h ui" where
  "legend_entry config hideIcon nameKey item =
     (let itemConfig = getPayloadConfigFromPayload config item (legend_key nameKey item);
          icon = (case itemConfig of Some c \<Rightarrow> cg_icon c | None \<Rightarrow> False)
      in el ''div''
           ((if icon \<and> \<not> hideIcon then El ''icon'' [] []
             else El ''div'' (case field_text item ''color'' of Some v \<Rightarrow> [(''color'', AStr (value_text v))] | None \<Rightarrow> []) [])
            # (case Option.bind itemConfig cg_label of Some l \<Rightarrow> [Text l] | None \<Rightarrow> [])))"

definition chart_legend_content ::
  "chart_config \<Rightarrow> bool \<Rightarrow> tip_item list option \<Rightarrow> string \<Rightarrow> string option \<Rightarrow> 'h ui option" where
  "chart_legend_content config hideIcon payload verticalAlign nameKey =
     (case payload of
        None \<Rightarrow> None
      | Some items \<Rightarrow>
          if items = [] then None
          else Some (El ''div'' [(''align'', AStr (if verticalAlign = ''top'' then ''pb-3'' else ''pt-3''))]
                      (map (legend_entry config hideIcon nameKey) (visible_items items))))"

subsection \<open>What the tooltip of a comparison says\<close>

text \<open>The item the library makes for a series: the name and the key are the name of the container.\<close>

definition series_tip :: "chart_row \<Rightarrow> string \<times> jsnum \<times> string \<Rightarrow> tip_item" where
  "series_tip row kvc = (let (k, v, c) = kvc in
     \<lparr>th_fields = [(''name'', CStr k), (''dataKey'', CStr k), (''value'', CNum v), (''color'', CStr c)], th_payload = Some row\<rparr>)"

lemma node_texts_simps [simp]:
  "node_texts (Text s) = [s]"
  "node_texts (El n as cs) = concat (map node_texts cs)"
proof -
  have c: "concat (map f (concat xss)) = concat (map (\<lambda>xs. concat (map f xs)) xss)" for f :: "'x \<Rightarrow> 'y list" and xss
    by (induction xss) simp_all
  show "node_texts (Text s) = [s]" by (simp add: node_texts_def)
  show "node_texts (El n as cs) = concat (map node_texts cs)"
    by (simp add: node_texts_def [abs_def] c comp_def)
qed

lemma tip_row_texts:
  "node_texts (tip_row local_number [] ''dot'' False None None [] (series_tip row (k, v, c))) = [k, local_number v]"
  by (simp add: tip_row_def series_tip_def getPayloadConfigFromPayload_def field_text_def map_get_def tip_key_def el_def
      tip_value_def Let_def)

text \<open>Every series is named with its own value, in the order of the chart, under the time.\<close>

theorem tooltip_names_every_series:
  assumes "xs \<noteq> []" "label \<noteq> []"
  shows "map_option node_texts (plain_tooltip local_number [] label (map (series_tip row) xs))
     = Some (label # concat (map (\<lambda>(k, v, c). [k, local_number v]) xs))"
proof -
  have vis: "visible_items (map (series_tip row) xs) = map (series_tip row) xs"
    by (auto simp: visible_items_def series_tip_def field_text_def map_get_def filter_id_conv split: prod.split)
  have rows: "concat (map (node_texts \<circ> (\<lambda>(i, item). tip_row local_number [] ''dot'' False None None [] item))
        (enumerate n (map (series_tip row) xs))) = concat (map (\<lambda>(k, v, c). [k, local_number v]) xs)" for n
    by (induction xs arbitrary: n) (auto simp: tip_row_texts)
  show ?thesis
    using assms rows [of 0]
    by (simp add: plain_tooltip_def chart_tooltip_content_def vis tooltip_label_def nest_label_def map_get_def el_def
        comp_def case_prod_beta Let_def)
qed

lemma tooltip_names_every_series_example:
  "map_option node_texts (plain_tooltip (\<lambda>_. ''1'') [] ''10:00'' [series_tip [] (''web'', Fin 1, ''red''), series_tip [] (''db'', 0, ''blue'')])
     = Some [''10:00'', ''web'', ''1'', ''db'', ''1'']"
  using tooltip_names_every_series [of "[(''web'', Fin 1, ''red''), (''db'', 0, ''blue'')]" "''10:00''" "\<lambda>_. ''1''" "[]"] by simp

end
