(* ===== verification/Shell.thy ===== *)
theory Shell
  imports Labels
begin

text \<open>
  The frame around the pages: \<open>hooks/use-mobile.ts\<close>, the provider and the frame of
  \<open>components/ui/sidebar.tsx\<close> with the two buttons that toggle it, and
  \<open>components/layout/app-sidebar.tsx\<close> and \<open>app-shell.tsx\<close>. The provider is modelled with the controls a
  parent may give it; the panel gives none, and the runs are those of the panel. An event is handled after the render
  that follows the one before, as React does it for events of the user.
\<close>

definition MOBILE_BREAKPOINT :: int where
  "MOBILE_BREAKPOINT = 768"

text \<open>Undefined before the first effect has read the width.\<close>

definition is_mobile :: "bool option \<Rightarrow> bool" where
  "is_mobile m = (m = Some True)"

record sidebar =
  sb_mobile :: "bool option"
  sb_open :: bool
  sb_openMobile :: bool
  sb_cookie :: "string option"

definition sidebar_init :: sidebar where
  "sidebar_init = \<lparr>sb_mobile = None, sb_open = True, sb_openMobile = False, sb_cookie = None\<rparr>"

definition read_width :: "int \<Rightarrow> sidebar \<Rightarrow> sidebar" where
  "read_width width sb = sb\<lparr>sb_mobile := Some (width < MOBILE_BREAKPOINT)\<rparr>"

definition SIDEBAR_COOKIE_MAX_AGE :: int where
  "SIDEBAR_COOKIE_MAX_AGE = 60 * 60 * 24 * 7"

definition sidebar_cookie :: "bool \<Rightarrow> string" where
  "sidebar_cookie openState =
     ''sidebar_state='' @ (if openState then ''true'' else ''false'') @ ''; path=/; max-age='' @ int_string SIDEBAR_COOKIE_MAX_AGE"

definition setOpen :: "(bool \<Rightarrow> bool) \<Rightarrow> sidebar \<Rightarrow> sidebar" where
  "setOpen f sb = (let openState = f (sb_open sb) in sb\<lparr>sb_open := openState, sb_cookie := Some (sidebar_cookie openState)\<rparr>)"

definition toggleSidebar :: "sidebar \<Rightarrow> sidebar" where
  "toggleSidebar sb =
     (if is_mobile (sb_mobile sb) then sb\<lparr>sb_openMobile := \<not> sb_openMobile sb\<rparr> else setOpen (\<lambda>b. \<not> b) sb)"

definition handleKeyDown :: "string \<Rightarrow> bool \<Rightarrow> bool \<Rightarrow> sidebar \<Rightarrow> sidebar" where
  "handleKeyDown key metaKey ctrlKey sb = (if key = ''b'' \<and> (metaKey \<or> ctrlKey) then toggleSidebar sb else sb)"

datatype shell_event = Width_Change int | Toggle_Sidebar | Key_Down string bool bool | Sheet_Open bool

fun shell_step :: "shell_event \<Rightarrow> sidebar \<Rightarrow> sidebar" where
  "shell_step (Width_Change w) sb = read_width w sb"
| "shell_step Toggle_Sidebar sb = toggleSidebar sb"
| "shell_step (Key_Down k m c) sb = handleKeyDown k m c sb"
| "shell_step (Sheet_Open b) sb = sb\<lparr>sb_openMobile := b\<rparr>"

definition sidebar_state :: "sidebar \<Rightarrow> string" where
  "sidebar_state sb = (if sb_open sb then ''expanded'' else ''collapsed'')"

subsection \<open>The provider with its controls\<close>

text \<open>
  A parent may hold the open state itself: \<open>open\<close> is what it passes for its own state, \<open>onOpenChange\<close> how that
  state answers. \<open>SidebarProvider\<close> without any of them is the sidebar above.
\<close>

record 'p sidebar_controls =
  ct_default :: "bool option"
  ct_open :: "'p \<Rightarrow> bool option"
  ct_change :: "(bool \<Rightarrow> 'p \<Rightarrow> 'p) option"

definition provider_init :: "'p sidebar_controls \<Rightarrow> sidebar" where
  "provider_init c = sidebar_init\<lparr>sb_open := coalesce (ct_default c) True\<rparr>"

definition provider_open :: "'p sidebar_controls \<Rightarrow> 'p \<Rightarrow> sidebar \<Rightarrow> bool" where
  "provider_open c p sb = coalesce (ct_open c p) (sb_open sb)"

definition provider_setOpen :: "'p sidebar_controls \<Rightarrow> (bool \<Rightarrow> bool) \<Rightarrow> 'p \<times> sidebar \<Rightarrow> 'p \<times> sidebar" where
  "provider_setOpen c f = (\<lambda>(p, sb).
     let openState = f (provider_open c p sb);
         (p, sb) = (case ct_change c of Some g \<Rightarrow> (g openState p, sb) | None \<Rightarrow> (p, sb\<lparr>sb_open := openState\<rparr>))
     in (p, sb\<lparr>sb_cookie := Some (sidebar_cookie openState)\<rparr>))"

definition provider_toggle :: "'p sidebar_controls \<Rightarrow> 'p \<times> sidebar \<Rightarrow> 'p \<times> sidebar" where
  "provider_toggle c = (\<lambda>(p, sb).
     if is_mobile (sb_mobile sb) then (p, sb\<lparr>sb_openMobile := \<not> sb_openMobile sb\<rparr>)
     else provider_setOpen c (\<lambda>b. \<not> b) (p, sb))"

definition provider_key_down ::
  "'p sidebar_controls \<Rightarrow> string \<Rightarrow> bool \<Rightarrow> bool \<Rightarrow> 'p \<times> sidebar \<Rightarrow> 'p \<times> sidebar" where
  "provider_key_down c key metaKey ctrlKey s =
     (if key = ''b'' \<and> (metaKey \<or> ctrlKey) then provider_toggle c s else s)"

definition uncontrolled :: "'p sidebar_controls" where
  "uncontrolled = \<lparr>ct_default = None, ct_open = (\<lambda>_. None), ct_change = None\<rparr>"

lemma provider_uncontrolled:
  "provider_init uncontrolled = sidebar_init"
  "provider_open uncontrolled p sb = sb_open sb"
  "provider_toggle uncontrolled (p, sb) = (p, toggleSidebar sb)"
  "provider_key_down uncontrolled k m ct (p, sb) = (p, handleKeyDown k m ct sb)"
  by (auto simp: uncontrolled_def provider_init_def provider_open_def provider_toggle_def provider_setOpen_def
    provider_key_down_def toggleSidebar_def handleKeyDown_def setOpen_def sidebar_init_def Let_def)

text \<open>A parent that passes what it was told: it alone holds the state, and a wide toggle flips exactly that.\<close>

lemma controlled_parent_decides:
  assumes "ct_change c = Some g" "\<And>b p. ct_open c (g b p) = Some b" "provider_toggle c (p, sb) = (p', sb')"
  shows "sb_open sb' = sb_open sb"
    and "\<not> is_mobile (sb_mobile sb) \<Longrightarrow> provider_open c p' sb' = (\<not> provider_open c p sb)
      \<and> sb_cookie sb' = Some (sidebar_cookie (provider_open c p' sb'))"
    and "is_mobile (sb_mobile sb) \<Longrightarrow> p' = p \<and> sb_cookie sb' = sb_cookie sb"
  using assms by (auto simp: provider_toggle_def provider_setOpen_def provider_open_def Let_def split: if_splits)

text \<open>
  A parent that passes \<open>open\<close> and takes no changes pins the sidebar, while the cookie and the hidden state
  turn away from what is shown.
\<close>

lemma pinned_sidebar_cookie_differs:
  assumes "ct_change c = None" "ct_open c p = Some b" "\<not> is_mobile (sb_mobile sb)" "provider_toggle c (p, sb) = (p', sb')"
  shows "provider_open c p' sb' = b \<and> sb_open sb' = (\<not> b) \<and> sb_cookie sb' = Some (sidebar_cookie (\<not> b))"
proof -
  have p: "p' = p" using assms by (simp add: provider_toggle_def provider_setOpen_def Let_def)
  then show ?thesis using assms by (auto simp: provider_toggle_def provider_setOpen_def provider_open_def Let_def)
qed

subsection \<open>Views\<close>

datatype shell_action = Do_Toggle | Set_Sheet | Switch_To switch_action

definition sidebar_frame :: "translate \<Rightarrow> string \<Rightarrow> sidebar \<Rightarrow> shell_action ui list \<Rightarrow> shell_action ui" where
  "sidebar_frame t collapsible sb children =
     (if collapsible = ''none'' then el ''div'' children
      else if is_mobile (sb_mobile sb) then
        El ''Sheet'' [(''open'', ABool (sb_openMobile sb)), (''onOpenChange'', AHandler Set_Sheet)]
          [el ''SheetHeader'' [el ''SheetTitle'' [Text (t ''common.menu'' [])], el ''SheetDescription'' [Text (t ''common.navPanel'' [])]],
           el ''div'' children]
      else
        El ''div'' [(''data-state'', AStr (sidebar_state sb)),
            (''data-collapsible'', AStr (if sidebar_state sb = ''collapsed'' then collapsible else []))]
          [el ''div'' children])"

definition menu_button :: "sidebar \<Rightarrow> bool \<Rightarrow> string \<Rightarrow> shell_action ui \<Rightarrow> shell_action ui list" where
  "menu_button sb active tooltip child =
     [El ''SidebarMenuButton'' [(''active'', ABool active)] [child],
      El ''TooltipContent'' [(''hidden'', ABool (sidebar_state sb \<noteq> ''collapsed'' \<or> is_mobile (sb_mobile sb)))] [Text tooltip]]"

definition nav_link :: "nav_item \<Rightarrow> 'h ui list \<Rightarrow> 'h ui" where
  "nav_link item cs = El ''NavLink'' [(''to'', AStr (nav_to item)), (''end'', ABool (coalesce (nav_end item) False))] cs"

definition sidebar_rail :: "translate \<Rightarrow> shell_action ui" where
  "sidebar_rail t = El ''button'' [(''aria-label'', AStr (t ''shell.menu'' [])), (''onClick'', AHandler Do_Toggle),
     (''title'', AStr (t ''shell.menu'' []))] []"

definition sidebar_trigger :: "translate \<Rightarrow> shell_action ui" where
  "sidebar_trigger t = El ''Button'' [(''onClick'', AHandler Do_Toggle), (''aria-label'', AStr (t ''shell.menu'' []))]
     [el ''span'' [Text (t ''shell.menu'' [])]]"

definition app_sidebar :: "translate \<Rightarrow> string \<Rightarrow> sidebar \<Rightarrow> shell_action ui" where
  "app_sidebar t pathname sb =
     sidebar_frame t ''icon'' sb
      [el ''SidebarHeader''
        [El ''NavLink'' [(''to'', AStr ''/'')] [el ''span'' [Text ''Argus''], el ''span'' [Text (t ''shell.brand'' [])]]],
       El ''nav'' [(''aria-label'', AStr (t ''nav.main'' []))]
        (concat (map (\<lambda>item. menu_button sb (isNavItemActive item pathname) (t (nav_label_key item) [])
            (nav_link item [el ''span'' [Text (t (nav_label_key item) [])]])) navItems)),
       sidebar_rail t]"

definition app_shell :: "translate \<Rightarrow> string \<Rightarrow> string \<Rightarrow> sidebar \<Rightarrow> shell_action ui \<Rightarrow> shell_action ui" where
  "app_shell t lng pathname sb outlet =
     el ''div''
      [El ''a'' [(''href'', AStr ''#main'')] [Text (t ''shell.skip'' [])],
       app_sidebar t pathname sb,
       el ''main''
        [el ''header'' [sidebar_trigger t, map_ui Switch_To (language_switch t lng)],
         El ''main'' [(''id'', AStr ''main''), (''tabIndex'', AStr ''-1'')] [outlet]]]"

subsection \<open>Runs\<close>

definition shell_run :: "shell_event list \<Rightarrow> sidebar \<Rightarrow> sidebar" where
  "shell_run evs sb = foldl (\<lambda>sb ev. shell_step ev sb) sb evs"

definition cookie_agrees :: "sidebar \<Rightarrow> bool" where
  "cookie_agrees sb \<longleftrightarrow>
     (case sb_cookie sb of None \<Rightarrow> sb_open sb | Some c \<Rightarrow> c = sidebar_cookie (sb_open sb))"

lemma cookie_step: "cookie_agrees sb \<Longrightarrow> cookie_agrees (shell_step ev sb)"
  by (cases ev) (auto simp: cookie_agrees_def read_width_def toggleSidebar_def setOpen_def handleKeyDown_def Let_def split: option.splits)

lemma cookie_run: "cookie_agrees sb \<Longrightarrow> cookie_agrees (shell_run evs sb)"
  by (induction evs arbitrary: sb) (simp_all add: shell_run_def cookie_step)

text \<open>The active entry is highlighted wherever the sidebar is.\<close>

lemma one_active_entry: "length (filter (\<lambda>i. isNavItemActive i pathname) navItems) \<le> 1"
  by (auto simp: navItems_def isNavItemActive_def starts_with_iff)

text \<open>The cookie is never read: after a reload the sidebar is open (see the findings).\<close>

lemma reload_forgets_the_cookie:
  "sb_cookie (toggleSidebar sidebar_init) = Some (sidebar_cookie False) \<and> sb_open sidebar_init"
  by (simp add: toggleSidebar_def sidebar_init_def is_mobile_def setOpen_def)

subsection \<open>Properties\<close>

text \<open>The sidebar, after any events since the panel appeared: the cookie, once written, says
  what the sidebar of a wide window is; toggling twice restores the sidebar; on a small window the
  toggle and the sheet never change the sidebar of the wide one nor the cookie, and crossing the
  width changes neither.\<close>

theorem sidebar_invariant:
  "cookie_agrees (shell_run evs sidebar_init)
   \<and> (let sb = shell_run evs sidebar_init; twice = toggleSidebar (toggleSidebar sb) in
        sb_open twice = sb_open sb \<and> sb_openMobile twice = sb_openMobile sb
        \<and> sb_open (read_width w sb) = sb_open sb \<and> sb_cookie (read_width w sb) = sb_cookie sb
        \<and> (if is_mobile (sb_mobile sb)
           then sb_open (toggleSidebar sb) = sb_open sb \<and> sb_cookie (toggleSidebar sb) = sb_cookie sb
           else sb_openMobile (toggleSidebar sb) = sb_openMobile sb \<and> sb_open (toggleSidebar sb) \<noteq> sb_open sb))"
proof
  have "cookie_agrees sidebar_init" by (simp add: cookie_agrees_def sidebar_init_def)
  then show "cookie_agrees (shell_run evs sidebar_init)" by (rule cookie_run)
qed (simp add: toggleSidebar_def setOpen_def read_width_def is_mobile_def Let_def)

end
