(* ===== verification/Primitives.thy ===== *)
theory Primitives
  imports Shell
begin

text \<open>
  The building blocks under \<open>components/ui\<close> and \<open>lib/utils.ts\<close>: functions from properties to an element. Each
  gives an element of the page or of a library (base-ui) a slot, class names and defaults, and passes on what
  its caller gave. \<open>clsx\<close>, \<open>tailwind-merge\<close>, \<open>class-variance-authority\<close> and base-ui's \<open>mergeProps\<close> and \<open>useRender\<close> are
  parameters. A property that is undefined is absent; a class name is a text. The state of the sidebar is that of
  \<open>Shell\<close>.
\<close>

datatype 'v pvalue = PStr string | PNum int | PBool bool | PStyle "(string \<times> string) list" | PVal 'v | PElem "'v node"
and 'v node = Node string "(string \<times> 'v pvalue) list" "'v node list" | Given "'v pvalue"

type_synonym 'v props = "(string \<times> 'v pvalue) list"

text \<open>The configuration of \<open>cva\<close>: base classes, the classes of each variant, the defaults.\<close>

record cva_config =
  cv_base :: string
  cv_variants :: "(string \<times> (string \<times> string) list) list"
  cv_defaults :: "(string \<times> string) list"

record 'v ui_lib =
  clsx :: "string option list \<Rightarrow> string"
  twMerge :: "string \<Rightarrow> string"
  cva :: "cva_config \<Rightarrow> (string \<times> 'v pvalue option) list \<Rightarrow> string"
  mergeProps :: "'v props \<Rightarrow> 'v props \<Rightarrow> 'v props"
  useRender :: "string \<Rightarrow> 'v props \<Rightarrow> 'v pvalue option \<Rightarrow> 'v props \<Rightarrow> 'v node"

definition cn :: "'v ui_lib \<Rightarrow> string option list \<Rightarrow> string" where
  "cn L inputs = twMerge L (clsx L inputs)"

subsection \<open>Properties of an element\<close>

text \<open>Taking properties out of an object with defaults, the rest, and spreading it over others.\<close>

definition prop_or :: "'v props \<Rightarrow> string \<Rightarrow> 'v pvalue \<Rightarrow> 'v pvalue" where
  "prop_or ps k d = coalesce (map_of ps k) d"

definition given_as :: "string \<Rightarrow> string \<Rightarrow> 'v props \<Rightarrow> 'v props" where
  "given_as attr k ps = (case map_of ps k of Some v \<Rightarrow> [(attr, v)] | None \<Rightarrow> [])"

definition rest_of :: "string list \<Rightarrow> 'v props \<Rightarrow> 'v props" where
  "rest_of taken ps = filter (\<lambda>(k, v). k \<notin> set taken) ps"

definition spread :: "'v props \<Rightarrow> 'v props \<Rightarrow> 'v props" where
  "spread own ps = foldl (\<lambda>m (k, v). map_set k v m) own ps"

definition class_given :: "'v props \<Rightarrow> string option" where
  "class_given ps = (case map_of ps ''className'' of Some (PStr s) \<Rightarrow> Some s | _ \<Rightarrow> None)"

definition children_of :: "'v props \<Rightarrow> 'v node list" where
  "children_of ps = (case map_of ps ''children'' of Some v \<Rightarrow> [Given v] | None \<Rightarrow> [])"

text \<open>\<open>className={cn(own classes, className)} {...props}\<close> after the component's own attributes.\<close>

definition wrap_props :: "'v ui_lib \<Rightarrow> string list \<Rightarrow> 'v props \<Rightarrow> string list \<Rightarrow> 'v props \<Rightarrow> 'v props" where
  "wrap_props L taken own parts ps =
     spread (own @ [(''className'', PStr (cn L (map Some parts @ [class_given ps])))]) (rest_of (''className'' # taken) ps)"

definition wrap :: "'v ui_lib \<Rightarrow> string \<Rightarrow> string list \<Rightarrow> 'v props \<Rightarrow> string list \<Rightarrow> 'v props \<Rightarrow> 'v node" where
  "wrap L tag taken own parts ps = Node tag (wrap_props L taken own parts ps) []"

text \<open>The same without class names.\<close>

definition pass :: "string \<Rightarrow> string list \<Rightarrow> 'v props \<Rightarrow> 'v props \<Rightarrow> 'v node" where
  "pass tag taken own ps = Node tag (spread own (rest_of taken ps)) []"

subsection \<open>Button, badge, input, separator, skeleton\<close>

definition buttonVariants :: cva_config where
  "buttonVariants =
     \<lparr>cv_base = ''group/button inline-flex shrink-0 items-center justify-center rounded-lg border border-transparent bg-clip-padding text-sm font-medium whitespace-nowrap transition-[color,background-color,border-color,box-shadow,transform] outline-none pointer-coarse:min-h-11 motion-reduce:transition-none select-none focus-visible:border-ring focus-visible:ring-3 focus-visible:ring-ring/50 active:not-aria-[haspopup]:translate-y-px disabled:pointer-events-none disabled:opacity-50 aria-invalid:border-destructive aria-invalid:ring-3 aria-invalid:ring-destructive/20 dark:aria-invalid:border-destructive/50 dark:aria-invalid:ring-destructive/40 [&_svg]:pointer-events-none [&_svg]:shrink-0 [&_svg:not([class*='size-'])]:size-4'',
      cv_variants = [(''variant'', [(''default'', ''bg-primary text-primary-foreground hover:bg-primary/80''),
         (''outline'', ''border-border bg-background hover:bg-muted hover:text-foreground aria-expanded:bg-muted aria-expanded:text-foreground dark:border-input dark:bg-input/30 dark:hover:bg-input/50''),
         (''secondary'', ''bg-secondary text-secondary-foreground hover:bg-[color-mix(in_oklch,var(--secondary),var(--foreground)_5%)] aria-expanded:bg-secondary aria-expanded:text-secondary-foreground''),
         (''ghost'', ''hover:bg-muted hover:text-foreground aria-expanded:bg-muted aria-expanded:text-foreground dark:hover:bg-muted/50''),
         (''destructive'', ''bg-destructive/10 text-destructive hover:bg-destructive/20 focus-visible:border-destructive/40 focus-visible:ring-destructive/20 dark:bg-destructive/20 dark:hover:bg-destructive/30 dark:focus-visible:ring-destructive/40''),
         (''link'', ''text-primary underline-offset-4 hover:underline'')]),
       (''size'', [(''default'', ''h-8 gap-1.5 px-2.5 has-data-[icon=inline-end]:pr-2 has-data-[icon=inline-start]:pl-2''),
         (''xs'', ''h-6 gap-1 rounded-[min(var(--radius-md),10px)] px-2 text-xs in-data-[slot=button-group]:rounded-lg has-data-[icon=inline-end]:pr-1.5 has-data-[icon=inline-start]:pl-1.5 [&_svg:not([class*='size-'])]:size-3''),
         (''sm'', ''h-7 gap-1 rounded-[min(var(--radius-md),12px)] px-2.5 text-[0.8rem] in-data-[slot=button-group]:rounded-lg has-data-[icon=inline-end]:pr-1.5 has-data-[icon=inline-start]:pl-1.5 [&_svg:not([class*='size-'])]:size-3.5''),
         (''lg'', ''h-9 gap-1.5 px-2.5 has-data-[icon=inline-end]:pr-2 has-data-[icon=inline-start]:pl-2''),
         (''icon'', ''size-8 pointer-coarse:min-w-11''),
         (''icon-xs'', ''size-6 rounded-[min(var(--radius-md),10px)] in-data-[slot=button-group]:rounded-lg [&_svg:not([class*='size-'])]:size-3''),
         (''icon-sm'', ''size-7 rounded-[min(var(--radius-md),12px)] in-data-[slot=button-group]:rounded-lg pointer-coarse:min-w-11''),
         (''icon-lg'', ''size-9'')])],
      cv_defaults = [(''variant'', ''default''), (''size'', ''default'')]\<rparr>"

definition Button :: "'v ui_lib \<Rightarrow> 'v props \<Rightarrow> 'v node" where
  "Button L ps =
     Node ''ButtonPrimitive''
       (spread [(''data-slot'', PStr ''button''),
           (''className'', PStr (cn L [Some (cva L buttonVariants
              [(''variant'', Some (prop_or ps ''variant'' (PStr ''default''))), (''size'', Some (prop_or ps ''size'' (PStr ''default''))),
               (''className'', map_of ps ''className'')])]))]
         (rest_of [''className'', ''variant'', ''size''] ps)) []"

definition badgeVariants :: cva_config where
  "badgeVariants =
     \<lparr>cv_base = ''group/badge inline-flex h-5 w-fit shrink-0 items-center justify-center gap-1 overflow-hidden rounded-4xl border border-transparent px-2 py-0.5 text-xs font-medium whitespace-nowrap transition-colors focus-visible:border-ring focus-visible:ring-[3px] focus-visible:ring-ring/50 has-data-[icon=inline-end]:pr-1.5 has-data-[icon=inline-start]:pl-1.5 aria-invalid:border-destructive aria-invalid:ring-destructive/20 dark:aria-invalid:ring-destructive/40 [&>svg]:pointer-events-none [&>svg]:size-3!'',
      cv_variants = [(''variant'', [(''default'', ''bg-primary text-primary-foreground [a]:hover:bg-primary/80''),
         (''secondary'', ''bg-secondary text-secondary-foreground [a]:hover:bg-secondary/80''),
         (''destructive'', ''bg-destructive/10 text-destructive focus-visible:ring-destructive/20 dark:bg-destructive/20 dark:focus-visible:ring-destructive/40 [a]:hover:bg-destructive/20''),
         (''outline'', ''border-border text-foreground [a]:hover:bg-muted [a]:hover:text-muted-foreground''),
         (''ghost'', ''hover:bg-muted hover:text-muted-foreground dark:hover:bg-muted/50''),
         (''link'', ''text-primary underline-offset-4 hover:underline'')])],
      cv_defaults = [(''variant'', ''default'')]\<rparr>"

definition Badge :: "'v ui_lib \<Rightarrow> 'v props \<Rightarrow> 'v node" where
  "Badge L ps =
     (let variant = prop_or ps ''variant'' (PStr ''default'') in
      useRender L ''span''
        (mergeProps L [(''className'', PStr (cn L [Some (cva L badgeVariants [(''variant'', Some variant)]), class_given ps]))]
          (rest_of [''className'', ''variant'', ''render''] ps))
        (map_of ps ''render'') [(''slot'', PStr ''badge''), (''variant'', variant)])"

definition Input :: "'v ui_lib \<Rightarrow> 'v props \<Rightarrow> 'v node" where
  "Input L ps =
     wrap L ''InputPrimitive'' [''type''] (given_as ''type'' ''type'' ps @ [(''data-slot'', PStr ''input'')])
      [''h-8 pointer-coarse:h-11 w-full min-w-0 rounded-lg border border-input bg-transparent px-2.5 py-1 text-base transition-colors outline-none file:inline-flex file:h-6 file:border-0 file:bg-transparent file:text-sm file:font-medium file:text-foreground placeholder:text-muted-foreground focus-visible:border-ring focus-visible:ring-3 focus-visible:ring-ring/50 disabled:pointer-events-none disabled:cursor-not-allowed disabled:bg-input/50 disabled:opacity-50 aria-invalid:border-destructive aria-invalid:ring-3 aria-invalid:ring-destructive/20 md:text-sm dark:bg-input/30 dark:disabled:bg-input/80 dark:aria-invalid:border-destructive/50 dark:aria-invalid:ring-destructive/40''] ps"

definition Separator :: "'v ui_lib \<Rightarrow> 'v props \<Rightarrow> 'v node" where
  "Separator L ps =
     wrap L ''SeparatorPrimitive'' [''orientation''] [(''data-slot'', PStr ''separator''), (''orientation'', prop_or ps ''orientation'' (PStr ''horizontal''))]
      [''shrink-0 bg-border data-horizontal:h-px data-horizontal:w-full data-vertical:w-px data-vertical:self-stretch''] ps"

definition Skeleton :: "'v ui_lib \<Rightarrow> 'v props \<Rightarrow> 'v node" where
  "Skeleton L ps =
     wrap L ''div'' [] [(''data-slot'', PStr ''skeleton'')]
      [''animate-pulse rounded-md bg-muted''] ps"

subsection \<open>Avatar\<close>

definition Avatar :: "'v ui_lib \<Rightarrow> 'v props \<Rightarrow> 'v node" where
  "Avatar L ps =
     wrap L ''AvatarPrimitive.Root'' [''size''] [(''data-slot'', PStr ''avatar''), (''data-size'', prop_or ps ''size'' (PStr ''default''))]
      [''group/avatar relative flex size-8 shrink-0 rounded-full select-none after:absolute after:inset-0 after:rounded-full after:border after:border-border after:mix-blend-darken data-[size=lg]:size-10 data-[size=sm]:size-6 dark:after:mix-blend-lighten''] ps"

definition AvatarImage :: "'v ui_lib \<Rightarrow> 'v props \<Rightarrow> 'v node" where
  "AvatarImage L ps =
     wrap L ''AvatarPrimitive.Image'' [] [(''data-slot'', PStr ''avatar-image'')]
      [''aspect-square size-full rounded-full object-cover''] ps"

definition AvatarFallback :: "'v ui_lib \<Rightarrow> 'v props \<Rightarrow> 'v node" where
  "AvatarFallback L ps =
     wrap L ''AvatarPrimitive.Fallback'' [] [(''data-slot'', PStr ''avatar-fallback'')]
      [''flex size-full items-center justify-center rounded-full bg-muted text-sm text-muted-foreground group-data-[size=sm]/avatar:text-xs''] ps"

definition AvatarBadge :: "'v ui_lib \<Rightarrow> 'v props \<Rightarrow> 'v node" where
  "AvatarBadge L ps =
     wrap L ''span'' [] [(''data-slot'', PStr ''avatar-badge'')]
      [''absolute right-0 bottom-0 z-10 inline-flex items-center justify-center rounded-full bg-primary text-primary-foreground bg-blend-color ring-2 ring-background select-none'',
      ''group-data-[size=sm]/avatar:size-2 group-data-[size=sm]/avatar:[&>svg]:hidden'',
      ''group-data-[size=default]/avatar:size-2.5 group-data-[size=default]/avatar:[&>svg]:size-2'',
      ''group-data-[size=lg]/avatar:size-3 group-data-[size=lg]/avatar:[&>svg]:size-2''] ps"

definition AvatarGroup :: "'v ui_lib \<Rightarrow> 'v props \<Rightarrow> 'v node" where
  "AvatarGroup L ps =
     wrap L ''div'' [] [(''data-slot'', PStr ''avatar-group'')]
      [''group/avatar-group flex -space-x-2 *:data-[slot=avatar]:ring-2 *:data-[slot=avatar]:ring-background''] ps"

definition AvatarGroupCount :: "'v ui_lib \<Rightarrow> 'v props \<Rightarrow> 'v node" where
  "AvatarGroupCount L ps =
     wrap L ''div'' [] [(''data-slot'', PStr ''avatar-group-count'')]
      [''relative flex size-8 shrink-0 items-center justify-center rounded-full bg-muted text-sm text-muted-foreground ring-2 ring-background group-has-data-[size=lg]/avatar-group:size-10 group-has-data-[size=sm]/avatar-group:size-6 [&>svg]:size-4 group-has-data-[size=lg]/avatar-group:[&>svg]:size-5 group-has-data-[size=sm]/avatar-group:[&>svg]:size-3''] ps"

subsection \<open>Card\<close>

definition Card :: "'v ui_lib \<Rightarrow> 'v props \<Rightarrow> 'v node" where
  "Card L ps =
     wrap L ''div'' [''size''] [(''data-slot'', PStr ''card''), (''data-size'', prop_or ps ''size'' (PStr ''default''))]
      [''group/card flex flex-col gap-(--card-spacing) overflow-hidden rounded-xl bg-card py-(--card-spacing) text-sm text-card-foreground ring-1 ring-foreground/10 [--card-spacing:--spacing(4)] has-data-[slot=card-footer]:pb-0 has-[>img:first-child]:pt-0 data-[size=sm]:[--card-spacing:--spacing(3)] data-[size=sm]:has-data-[slot=card-footer]:pb-0 *:[img:first-child]:rounded-t-xl *:[img:last-child]:rounded-b-xl''] ps"

definition CardHeader :: "'v ui_lib \<Rightarrow> 'v props \<Rightarrow> 'v node" where
  "CardHeader L ps =
     wrap L ''div'' [] [(''data-slot'', PStr ''card-header'')]
      [''group/card-header @container/card-header grid auto-rows-min items-start gap-1 rounded-t-xl px-(--card-spacing) has-data-[slot=card-action]:grid-cols-[1fr_auto] has-data-[slot=card-description]:grid-rows-[auto_auto] [.border-b]:pb-(--card-spacing)''] ps"

definition CardTitle :: "'v ui_lib \<Rightarrow> 'v props \<Rightarrow> 'v node" where
  "CardTitle L ps =
     wrap L ''div'' [] [(''data-slot'', PStr ''card-title'')]
      [''font-heading text-base leading-snug font-medium group-data-[size=sm]/card:text-sm''] ps"

definition CardDescription :: "'v ui_lib \<Rightarrow> 'v props \<Rightarrow> 'v node" where
  "CardDescription L ps =
     wrap L ''div'' [] [(''data-slot'', PStr ''card-description'')]
      [''text-sm text-muted-foreground''] ps"

definition CardAction :: "'v ui_lib \<Rightarrow> 'v props \<Rightarrow> 'v node" where
  "CardAction L ps =
     wrap L ''div'' [] [(''data-slot'', PStr ''card-action'')]
      [''col-start-2 row-span-2 row-start-1 self-start justify-self-end''] ps"

definition CardContent :: "'v ui_lib \<Rightarrow> 'v props \<Rightarrow> 'v node" where
  "CardContent L ps =
     wrap L ''div'' [] [(''data-slot'', PStr ''card-content'')]
      [''px-(--card-spacing)''] ps"

definition CardFooter :: "'v ui_lib \<Rightarrow> 'v props \<Rightarrow> 'v node" where
  "CardFooter L ps =
     wrap L ''div'' [] [(''data-slot'', PStr ''card-footer'')]
      [''flex items-center rounded-b-xl border-t bg-muted/50 p-(--card-spacing)''] ps"

subsection \<open>Table\<close>

definition Table :: "'v ui_lib \<Rightarrow> 'v props \<Rightarrow> 'v node" where
  "Table L ps =
     Node ''div'' [(''data-slot'', PStr ''table-container''), (''className'', PStr ''relative w-full overflow-x-auto'')]
       [wrap L ''table'' [] [(''data-slot'', PStr ''table'')] [''w-full caption-bottom text-sm''] ps]"

definition TableHeader :: "'v ui_lib \<Rightarrow> 'v props \<Rightarrow> 'v node" where
  "TableHeader L ps =
     wrap L ''thead'' [] [(''data-slot'', PStr ''table-header'')]
      [''[&_tr]:border-b''] ps"

definition TableBody :: "'v ui_lib \<Rightarrow> 'v props \<Rightarrow> 'v node" where
  "TableBody L ps =
     wrap L ''tbody'' [] [(''data-slot'', PStr ''table-body'')]
      [''[&_tr:last-child]:border-0''] ps"

definition TableFooter :: "'v ui_lib \<Rightarrow> 'v props \<Rightarrow> 'v node" where
  "TableFooter L ps =
     wrap L ''tfoot'' [] [(''data-slot'', PStr ''table-footer'')]
      [''border-t bg-muted/50 font-medium [&>tr]:last:border-b-0''] ps"

definition TableRow :: "'v ui_lib \<Rightarrow> 'v props \<Rightarrow> 'v node" where
  "TableRow L ps =
     wrap L ''tr'' [] [(''data-slot'', PStr ''table-row'')]
      [''border-b transition-colors hover:bg-muted/50 has-aria-expanded:bg-muted/50 data-[state=selected]:bg-muted''] ps"

definition TableHead :: "'v ui_lib \<Rightarrow> 'v props \<Rightarrow> 'v node" where
  "TableHead L ps =
     wrap L ''th'' [] [(''data-slot'', PStr ''table-head'')]
      [''h-10 px-2 text-left align-middle font-medium whitespace-nowrap text-foreground [&:has([role=checkbox])]:pr-0''] ps"

definition TableCell :: "'v ui_lib \<Rightarrow> 'v props \<Rightarrow> 'v node" where
  "TableCell L ps =
     wrap L ''td'' [] [(''data-slot'', PStr ''table-cell'')]
      [''p-2 align-middle whitespace-nowrap [&:has([role=checkbox])]:pr-0''] ps"

definition TableCaption :: "'v ui_lib \<Rightarrow> 'v props \<Rightarrow> 'v node" where
  "TableCaption L ps =
     wrap L ''caption'' [] [(''data-slot'', PStr ''table-caption'')]
      [''mt-4 text-sm text-muted-foreground''] ps"

subsection \<open>Tabs\<close>

definition Tabs :: "'v ui_lib \<Rightarrow> 'v props \<Rightarrow> 'v node" where
  "Tabs L ps =
     wrap L ''TabsPrimitive.Root'' [''orientation''] [(''data-slot'', PStr ''tabs''), (''data-orientation'', prop_or ps ''orientation'' (PStr ''horizontal''))]
      [''group/tabs flex gap-2 data-horizontal:flex-col''] ps"

definition tabsListVariants :: cva_config where
  "tabsListVariants =
     \<lparr>cv_base = ''group/tabs-list inline-flex w-fit items-center justify-center rounded-lg p-[3px] text-muted-foreground group-data-horizontal/tabs:h-8 pointer-coarse:group-data-horizontal/tabs:h-12 group-data-vertical/tabs:h-fit group-data-vertical/tabs:flex-col data-[variant=line]:rounded-none'',
      cv_variants = [(''variant'', [(''default'', ''bg-muted''),
         (''line'', ''gap-1 bg-transparent'')])],
      cv_defaults = [(''variant'', ''default'')]\<rparr>"

definition TabsList :: "'v ui_lib \<Rightarrow> 'v props \<Rightarrow> 'v node" where
  "TabsList L ps =
     (let variant = prop_or ps ''variant'' (PStr ''default'') in
      wrap L ''TabsPrimitive.List'' [''variant''] [(''data-slot'', PStr ''tabs-list''), (''data-variant'', variant)]
        [cva L tabsListVariants [(''variant'', Some variant)]] ps)"

definition TabsTrigger :: "'v ui_lib \<Rightarrow> 'v props \<Rightarrow> 'v node" where
  "TabsTrigger L ps =
     wrap L ''TabsPrimitive.Tab'' [] [(''data-slot'', PStr ''tabs-trigger'')]
      [''relative inline-flex h-[calc(100%-1px)] flex-1 items-center justify-center gap-1.5 rounded-md border border-transparent px-1.5 py-0.5 text-sm font-medium whitespace-nowrap text-foreground/60 transition-[color,background-color,border-color,box-shadow] group-data-vertical/tabs:w-full group-data-vertical/tabs:justify-start hover:text-foreground focus-visible:border-ring focus-visible:ring-[3px] focus-visible:ring-ring/50 focus-visible:outline-1 focus-visible:outline-ring disabled:pointer-events-none disabled:opacity-50 has-data-[icon=inline-end]:pr-1 has-data-[icon=inline-start]:pl-1 aria-disabled:pointer-events-none aria-disabled:opacity-50 dark:text-muted-foreground dark:hover:text-foreground group-data-[variant=default]/tabs-list:data-active:shadow-sm group-data-[variant=line]/tabs-list:data-active:shadow-none [&_svg]:pointer-events-none [&_svg]:shrink-0 [&_svg:not([class*='size-'])]:size-4'',
      ''group-data-[variant=line]/tabs-list:bg-transparent group-data-[variant=line]/tabs-list:data-active:bg-transparent dark:group-data-[variant=line]/tabs-list:data-active:border-transparent dark:group-data-[variant=line]/tabs-list:data-active:bg-transparent'',
      ''data-active:bg-background data-active:text-foreground dark:data-active:border-input dark:data-active:bg-input/30 dark:data-active:text-foreground'',
      ''after:absolute after:bg-foreground after:opacity-0 after:transition-opacity group-data-horizontal/tabs:after:inset-x-0 group-data-horizontal/tabs:after:bottom-[-5px] group-data-horizontal/tabs:after:h-0.5 group-data-vertical/tabs:after:inset-y-0 group-data-vertical/tabs:after:-right-1 group-data-vertical/tabs:after:w-0.5 group-data-[variant=line]/tabs-list:data-active:after:opacity-100''] ps"

definition TabsContent :: "'v ui_lib \<Rightarrow> 'v props \<Rightarrow> 'v node" where
  "TabsContent L ps =
     wrap L ''TabsPrimitive.Panel'' [] [(''data-slot'', PStr ''tabs-content'')]
      [''flex-1 text-sm outline-none''] ps"

subsection \<open>Scroll area\<close>

definition ScrollBar :: "'v ui_lib \<Rightarrow> 'v props \<Rightarrow> 'v node" where
  "ScrollBar L ps =
     (let orientation = prop_or ps ''orientation'' (PStr ''vertical'') in
      Node ''ScrollAreaPrimitive.Scrollbar''
        (wrap_props L [''orientation'', ''children'']
          [(''data-slot'', PStr ''scroll-area-scrollbar''), (''data-orientation'', orientation), (''orientation'', orientation)]
          [''flex touch-none p-px transition-colors select-none data-horizontal:h-2.5 data-horizontal:flex-col data-horizontal:border-t data-horizontal:border-t-transparent data-vertical:h-full data-vertical:w-2.5 data-vertical:border-l data-vertical:border-l-transparent''] ps)
        [Node ''ScrollAreaPrimitive.Thumb'' [(''data-slot'', PStr ''scroll-area-thumb''), (''className'', PStr ''relative flex-1 rounded-full bg-border'')] []])"

definition ScrollArea :: "'v ui_lib \<Rightarrow> 'v props \<Rightarrow> 'v node" where
  "ScrollArea L ps =
     Node ''ScrollAreaPrimitive.Root'' (wrap_props L [''children''] [(''data-slot'', PStr ''scroll-area'')] [''relative''] ps)
       [Node ''ScrollAreaPrimitive.Viewport'' [(''data-slot'', PStr ''scroll-area-viewport''), (''className'', PStr ''size-full rounded-[inherit] transition-[color,box-shadow] outline-none focus-visible:ring-[3px] focus-visible:ring-ring/50 focus-visible:outline-1'')] (children_of ps),
        ScrollBar L [], Node ''ScrollAreaPrimitive.Corner'' [] []]"

subsection \<open>Dropdown menu\<close>

definition DropdownMenu :: "'v props \<Rightarrow> 'v node" where
  "DropdownMenu ps =
     pass ''MenuPrimitive.Root'' [] [(''data-slot'', PStr ''dropdown-menu'')] ps"

definition DropdownMenuPortal :: "'v props \<Rightarrow> 'v node" where
  "DropdownMenuPortal ps =
     pass ''MenuPrimitive.Portal'' [] [(''data-slot'', PStr ''dropdown-menu-portal'')] ps"

definition DropdownMenuTrigger :: "'v props \<Rightarrow> 'v node" where
  "DropdownMenuTrigger ps =
     pass ''MenuPrimitive.Trigger'' [] [(''data-slot'', PStr ''dropdown-menu-trigger'')] ps"

definition DropdownMenuContent :: "'v ui_lib \<Rightarrow> 'v props \<Rightarrow> 'v node" where
  "DropdownMenuContent L ps =
     Node ''MenuPrimitive.Portal'' []
       [Node ''MenuPrimitive.Positioner'' [(''className'', PStr ''isolate z-50 outline-none''), (''align'', prop_or ps ''align'' (PStr ''start'')), (''alignOffset'', prop_or ps ''alignOffset'' (PNum 0)), (''side'', prop_or ps ''side'' (PStr ''bottom'')), (''sideOffset'', prop_or ps ''sideOffset'' (PNum 4))]
         [Node ''MenuPrimitive.Popup''
            (wrap_props L [''align'', ''alignOffset'', ''side'', ''sideOffset''] [(''data-slot'', PStr ''dropdown-menu-content'')] [''z-50 max-h-(--available-height) w-(--anchor-width) min-w-32 origin-(--transform-origin) overflow-x-hidden overflow-y-auto rounded-lg bg-popover p-1 text-popover-foreground shadow-md ring-1 ring-foreground/10 duration-100 outline-none data-[side=bottom]:slide-in-from-top-2 data-[side=inline-end]:slide-in-from-left-2 data-[side=inline-start]:slide-in-from-right-2 data-[side=left]:slide-in-from-right-2 data-[side=right]:slide-in-from-left-2 data-[side=top]:slide-in-from-bottom-2 data-open:animate-in data-open:fade-in-0 data-open:zoom-in-95 data-closed:animate-out data-closed:overflow-hidden data-closed:fade-out-0 data-closed:zoom-out-95''] ps) []]]"

definition DropdownMenuGroup :: "'v props \<Rightarrow> 'v node" where
  "DropdownMenuGroup ps =
     pass ''MenuPrimitive.Group'' [] [(''data-slot'', PStr ''dropdown-menu-group'')] ps"

definition DropdownMenuLabel :: "'v ui_lib \<Rightarrow> 'v props \<Rightarrow> 'v node" where
  "DropdownMenuLabel L ps =
     wrap L ''MenuPrimitive.GroupLabel'' [''inset''] ([(''data-slot'', PStr ''dropdown-menu-label'')] @ given_as ''data-inset'' ''inset'' ps)
      [''px-1.5 py-1 text-xs font-medium text-muted-foreground data-inset:pl-7''] ps"

definition DropdownMenuItem :: "'v ui_lib \<Rightarrow> 'v props \<Rightarrow> 'v node" where
  "DropdownMenuItem L ps =
     wrap L ''MenuPrimitive.Item'' [''inset'', ''variant''] ([(''data-slot'', PStr ''dropdown-menu-item'')] @ given_as ''data-inset'' ''inset'' ps @ [(''data-variant'', prop_or ps ''variant'' (PStr ''default''))])
      [''group/dropdown-menu-item relative flex cursor-default items-center gap-1.5 rounded-md px-1.5 py-1 text-sm outline-hidden select-none focus:bg-accent focus:text-accent-foreground not-data-[variant=destructive]:focus:**:text-accent-foreground data-inset:pl-7 data-[variant=destructive]:text-destructive data-[variant=destructive]:focus:bg-destructive/10 data-[variant=destructive]:focus:text-destructive dark:data-[variant=destructive]:focus:bg-destructive/20 data-disabled:pointer-events-none data-disabled:opacity-50 [&_svg]:pointer-events-none [&_svg]:shrink-0 [&_svg:not([class*='size-'])]:size-4 data-[variant=destructive]:*:[svg]:text-destructive''] ps"

definition DropdownMenuSub :: "'v props \<Rightarrow> 'v node" where
  "DropdownMenuSub ps =
     pass ''MenuPrimitive.SubmenuRoot'' [] [(''data-slot'', PStr ''dropdown-menu-sub'')] ps"

definition DropdownMenuSubTrigger :: "'v ui_lib \<Rightarrow> 'v props \<Rightarrow> 'v node" where
  "DropdownMenuSubTrigger L ps =
     Node ''MenuPrimitive.SubmenuTrigger''
       (wrap_props L [''inset'', ''children'']
         ([(''data-slot'', PStr ''dropdown-menu-sub-trigger'')] @ given_as ''data-inset'' ''inset'' ps) [''flex cursor-default items-center gap-1.5 rounded-md px-1.5 py-1 text-sm outline-hidden select-none focus:bg-accent focus:text-accent-foreground not-data-[variant=destructive]:focus:**:text-accent-foreground data-inset:pl-7 data-popup-open:bg-accent data-popup-open:text-accent-foreground data-open:bg-accent data-open:text-accent-foreground [&_svg]:pointer-events-none [&_svg]:shrink-0 [&_svg:not([class*='size-'])]:size-4''] ps)
       (children_of ps @ [Node ''ChevronRightIcon'' [(''className'', PStr ''ml-auto'')] []])"

definition DropdownMenuSubContent :: "'v ui_lib \<Rightarrow> 'v props \<Rightarrow> 'v node" where
  "DropdownMenuSubContent L ps =
     DropdownMenuContent L (wrap_props L [''align'', ''alignOffset'', ''side'', ''sideOffset''] [(''data-slot'', PStr ''dropdown-menu-sub-content''), (''align'', prop_or ps ''align'' (PStr ''start'')), (''alignOffset'', prop_or ps ''alignOffset'' (PNum (- 3))), (''side'', prop_or ps ''side'' (PStr ''right'')), (''sideOffset'', prop_or ps ''sideOffset'' (PNum 0))]
      [''w-auto min-w-[96px] rounded-lg bg-popover p-1 text-popover-foreground shadow-lg ring-1 ring-foreground/10 duration-100 data-[side=bottom]:slide-in-from-top-2 data-[side=left]:slide-in-from-right-2 data-[side=right]:slide-in-from-left-2 data-[side=top]:slide-in-from-bottom-2 data-open:animate-in data-open:fade-in-0 data-open:zoom-in-95 data-closed:animate-out data-closed:fade-out-0 data-closed:zoom-out-95''] ps)"

definition DropdownMenuCheckboxItem :: "'v ui_lib \<Rightarrow> 'v props \<Rightarrow> 'v node" where
  "DropdownMenuCheckboxItem L ps =
     Node ''MenuPrimitive.CheckboxItem''
       (wrap_props L [''children'', ''checked'', ''inset''] ([(''data-slot'', PStr ''dropdown-menu-checkbox-item'')] @ given_as ''data-inset'' ''inset'' ps @ given_as ''checked'' ''checked'' ps) [''relative flex cursor-default items-center gap-1.5 rounded-md py-1 pr-8 pl-1.5 text-sm outline-hidden select-none focus:bg-accent focus:text-accent-foreground focus:**:text-accent-foreground data-inset:pl-7 data-disabled:pointer-events-none data-disabled:opacity-50 [&_svg]:pointer-events-none [&_svg]:shrink-0 [&_svg:not([class*='size-'])]:size-4''] ps)
       (Node ''span'' [(''className'', PStr ''pointer-events-none absolute right-2 flex items-center justify-center''), (''data-slot'', PStr ''dropdown-menu-checkbox-item-indicator'')]
          [Node ''MenuPrimitive.CheckboxItemIndicator'' [] [Node ''CheckIcon'' [] []]]
        # children_of ps)"

definition DropdownMenuRadioGroup :: "'v props \<Rightarrow> 'v node" where
  "DropdownMenuRadioGroup ps =
     pass ''MenuPrimitive.RadioGroup'' [] [(''data-slot'', PStr ''dropdown-menu-radio-group'')] ps"

definition DropdownMenuRadioItem :: "'v ui_lib \<Rightarrow> 'v props \<Rightarrow> 'v node" where
  "DropdownMenuRadioItem L ps =
     Node ''MenuPrimitive.RadioItem''
       (wrap_props L [''children'', ''inset''] ([(''data-slot'', PStr ''dropdown-menu-radio-item'')] @ given_as ''data-inset'' ''inset'' ps) [''relative flex cursor-default items-center gap-1.5 rounded-md py-1 pr-8 pl-1.5 text-sm outline-hidden select-none focus:bg-accent focus:text-accent-foreground focus:**:text-accent-foreground data-inset:pl-7 data-disabled:pointer-events-none data-disabled:opacity-50 [&_svg]:pointer-events-none [&_svg]:shrink-0 [&_svg:not([class*='size-'])]:size-4''] ps)
       (Node ''span'' [(''className'', PStr ''pointer-events-none absolute right-2 flex items-center justify-center''), (''data-slot'', PStr ''dropdown-menu-radio-item-indicator'')]
          [Node ''MenuPrimitive.RadioItemIndicator'' [] [Node ''CheckIcon'' [] []]]
        # children_of ps)"

definition DropdownMenuSeparator :: "'v ui_lib \<Rightarrow> 'v props \<Rightarrow> 'v node" where
  "DropdownMenuSeparator L ps =
     wrap L ''MenuPrimitive.Separator'' [] [(''data-slot'', PStr ''dropdown-menu-separator'')]
      [''-mx-1 my-1 h-px bg-border''] ps"

definition DropdownMenuShortcut :: "'v ui_lib \<Rightarrow> 'v props \<Rightarrow> 'v node" where
  "DropdownMenuShortcut L ps =
     wrap L ''span'' [] [(''data-slot'', PStr ''dropdown-menu-shortcut'')]
      [''ml-auto text-xs tracking-widest text-muted-foreground group-focus/dropdown-menu-item:text-accent-foreground''] ps"

subsection \<open>Sheet\<close>

definition Sheet :: "'v props \<Rightarrow> 'v node" where
  "Sheet ps =
     pass ''SheetPrimitive.Root'' [] [(''data-slot'', PStr ''sheet'')] ps"

definition SheetTrigger :: "'v props \<Rightarrow> 'v node" where
  "SheetTrigger ps =
     pass ''SheetPrimitive.Trigger'' [] [(''data-slot'', PStr ''sheet-trigger'')] ps"

definition SheetClose :: "'v props \<Rightarrow> 'v node" where
  "SheetClose ps =
     pass ''SheetPrimitive.Close'' [] [(''data-slot'', PStr ''sheet-close'')] ps"

definition SheetPortal :: "'v props \<Rightarrow> 'v node" where
  "SheetPortal ps =
     pass ''SheetPrimitive.Portal'' [] [(''data-slot'', PStr ''sheet-portal'')] ps"

definition SheetOverlay :: "'v ui_lib \<Rightarrow> 'v props \<Rightarrow> 'v node" where
  "SheetOverlay L ps =
     wrap L ''SheetPrimitive.Backdrop'' [] [(''data-slot'', PStr ''sheet-overlay'')]
      [''fixed inset-0 z-50 bg-black/10 transition-opacity duration-150 data-ending-style:opacity-0 data-starting-style:opacity-0 supports-backdrop-filter:backdrop-blur-xs''] ps"

definition SheetContent :: "'v ui_lib \<Rightarrow> translate \<Rightarrow> 'v props \<Rightarrow> 'v node" where
  "SheetContent L t ps =
     (let side = prop_or ps ''side'' (PStr ''right''); showCloseButton = prop_or ps ''showCloseButton'' (PBool True) in
      Node ''SheetPrimitive.Portal'' [(''data-slot'', PStr ''sheet-portal'')]
        [SheetOverlay L [],
         Node ''SheetPrimitive.Popup''
           (wrap_props L [''children'', ''side'', ''showCloseButton''] [(''data-slot'', PStr ''sheet-content''), (''data-side'', side)]
             [''fixed z-50 flex flex-col gap-4 bg-popover bg-clip-padding text-sm text-popover-foreground shadow-lg transition duration-200 ease-in-out data-ending-style:opacity-0 data-starting-style:opacity-0 data-[side=bottom]:inset-x-0 data-[side=bottom]:bottom-0 data-[side=bottom]:h-auto data-[side=bottom]:border-t data-[side=bottom]:data-ending-style:translate-y-[2.5rem] data-[side=bottom]:data-starting-style:translate-y-[2.5rem] data-[side=left]:inset-y-0 data-[side=left]:left-0 data-[side=left]:h-full data-[side=left]:w-3/4 data-[side=left]:border-r data-[side=left]:data-ending-style:translate-x-[-2.5rem] data-[side=left]:data-starting-style:translate-x-[-2.5rem] data-[side=right]:inset-y-0 data-[side=right]:right-0 data-[side=right]:h-full data-[side=right]:w-3/4 data-[side=right]:border-l data-[side=right]:data-ending-style:translate-x-[2.5rem] data-[side=right]:data-starting-style:translate-x-[2.5rem] data-[side=top]:inset-x-0 data-[side=top]:top-0 data-[side=top]:h-auto data-[side=top]:border-b data-[side=top]:data-ending-style:translate-y-[-2.5rem] data-[side=top]:data-starting-style:translate-y-[-2.5rem] data-[side=left]:sm:max-w-sm data-[side=right]:sm:max-w-sm''] ps)
           (children_of ps
            @ (if showCloseButton = PBool True then
                 [Node ''SheetPrimitive.Close''
                    [(''data-slot'', PStr ''sheet-close''),
                     (''render'', PElem (Button L [(''variant'', PStr ''ghost''), (''className'', PStr ''absolute top-3 right-3''), (''size'', PStr ''icon-sm'')]))]
                    [Node ''XIcon'' [] [],
                     Node ''span'' [(''className'', PStr ''sr-only'')] [Given (PStr (t ''common.close'' []))]]]
               else []))])"

definition SheetHeader :: "'v ui_lib \<Rightarrow> 'v props \<Rightarrow> 'v node" where
  "SheetHeader L ps =
     wrap L ''div'' [] [(''data-slot'', PStr ''sheet-header'')]
      [''flex flex-col gap-0.5 p-4''] ps"

definition SheetFooter :: "'v ui_lib \<Rightarrow> 'v props \<Rightarrow> 'v node" where
  "SheetFooter L ps =
     wrap L ''div'' [] [(''data-slot'', PStr ''sheet-footer'')]
      [''mt-auto flex flex-col gap-2 p-4''] ps"

definition SheetTitle :: "'v ui_lib \<Rightarrow> 'v props \<Rightarrow> 'v node" where
  "SheetTitle L ps =
     wrap L ''SheetPrimitive.Title'' [] [(''data-slot'', PStr ''sheet-title'')]
      [''font-heading text-base font-medium text-foreground''] ps"

definition SheetDescription :: "'v ui_lib \<Rightarrow> 'v props \<Rightarrow> 'v node" where
  "SheetDescription L ps =
     wrap L ''SheetPrimitive.Description'' [] [(''data-slot'', PStr ''sheet-description'')]
      [''text-sm text-muted-foreground''] ps"

subsection \<open>Tooltip\<close>

definition TooltipProvider :: "'v props \<Rightarrow> 'v node" where
  "TooltipProvider ps =
     pass ''TooltipPrimitive.Provider'' [''delay''] [(''data-slot'', PStr ''tooltip-provider''), (''delay'', prop_or ps ''delay'' (PNum 0))] ps"

definition Tooltip :: "'v props \<Rightarrow> 'v node" where
  "Tooltip ps =
     pass ''TooltipPrimitive.Root'' [] [(''data-slot'', PStr ''tooltip'')] ps"

definition TooltipTrigger :: "'v props \<Rightarrow> 'v node" where
  "TooltipTrigger ps =
     pass ''TooltipPrimitive.Trigger'' [] [(''data-slot'', PStr ''tooltip-trigger'')] ps"

definition TooltipContent :: "'v ui_lib \<Rightarrow> 'v props \<Rightarrow> 'v node" where
  "TooltipContent L ps =
     Node ''TooltipPrimitive.Portal'' []
       [Node ''TooltipPrimitive.Positioner'' [(''side'', prop_or ps ''side'' (PStr ''top'')), (''sideOffset'', prop_or ps ''sideOffset'' (PNum 4)), (''align'', prop_or ps ''align'' (PStr ''center'')), (''alignOffset'', prop_or ps ''alignOffset'' (PNum 0)), (''className'', PStr ''isolate z-50'')]
         [Node ''TooltipPrimitive.Popup''
            (wrap_props L [''side'', ''sideOffset'', ''align'', ''alignOffset'', ''children''] [(''data-slot'', PStr ''tooltip-content'')] [''z-50 inline-flex w-fit max-w-xs origin-(--transform-origin) items-center gap-1.5 rounded-md bg-foreground px-3 py-1.5 text-xs text-background has-data-[slot=kbd]:pr-1.5 data-[side=bottom]:slide-in-from-top-2 data-[side=inline-end]:slide-in-from-left-2 data-[side=inline-start]:slide-in-from-right-2 data-[side=left]:slide-in-from-right-2 data-[side=right]:slide-in-from-left-2 data-[side=top]:slide-in-from-bottom-2 **:data-[slot=kbd]:relative **:data-[slot=kbd]:isolate **:data-[slot=kbd]:z-50 **:data-[slot=kbd]:rounded-sm data-[state=delayed-open]:animate-in data-[state=delayed-open]:fade-in-0 data-[state=delayed-open]:zoom-in-95 data-open:animate-in data-open:fade-in-0 data-open:zoom-in-95 data-closed:animate-out data-closed:fade-out-0 data-closed:zoom-out-95''] ps) (children_of ps @ [Node ''TooltipPrimitive.Arrow'' [(''className'', PStr ''z-50 size-2.5 translate-y-[calc(-50%-2px)] rotate-45 rounded-[2px] bg-foreground fill-foreground data-[side=bottom]:top-1 data-[side=inline-end]:top-1/2! data-[side=inline-end]:-left-1 data-[side=inline-end]:-translate-y-1/2 data-[side=inline-start]:top-1/2! data-[side=inline-start]:-right-1 data-[side=inline-start]:-translate-y-1/2 data-[side=left]:top-1/2! data-[side=left]:-right-1 data-[side=left]:-translate-y-1/2 data-[side=right]:top-1/2! data-[side=right]:-left-1 data-[side=right]:-translate-y-1/2 data-[side=top]:-bottom-2.5'')] []])]]"

subsection \<open>Sidebar\<close>

text \<open>What the provider renders; a style of the caller is spread over its two variables.\<close>

definition sidebar_wrapper :: "'v ui_lib \<Rightarrow> 'v node list \<Rightarrow> 'v props \<Rightarrow> 'v node" where
  "sidebar_wrapper L children ps =
     (let own = [(''--sidebar-width'', ''16rem''), (''--sidebar-width-icon'', ''3rem'')];
          style = (case map_of ps ''style'' of
                     Some (PStyle st) \<Rightarrow> foldl (\<lambda>m (k, v). map_set k v m) own st | _ \<Rightarrow> own)
      in Node ''div''
           (wrap_props L [''defaultOpen'', ''open'', ''onOpenChange'', ''style'', ''children'']
             [(''data-slot'', PStr ''sidebar-wrapper''), (''style'', PStyle style)] [''group/sidebar-wrapper flex min-h-svh w-full has-data-[variant=inset]:bg-sidebar''] ps) children)"

text \<open>The frame: a plain box, a sheet on a phone, or a gap and a fixed container. The handler of the sheet is \<open>setOpenMobile\<close>.\<close>

definition Sidebar :: "'v ui_lib \<Rightarrow> translate \<Rightarrow> sidebar \<Rightarrow> 'v \<Rightarrow> 'v props \<Rightarrow> 'v node" where
  "Sidebar L t sb setOpenMobile ps =
     (let side = prop_or ps ''side'' (PStr ''left''); variant = prop_or ps ''variant'' (PStr ''sidebar'');
          collapsible = prop_or ps ''collapsible'' (PStr ''offcanvas'');
          taken = [''side'', ''variant'', ''collapsible'', ''children'', ''dir''];
          padded = (variant = PStr ''floating'' \<or> variant = PStr ''inset'') in
      if collapsible = PStr ''none'' then
        Node ''div''
          (wrap_props L taken [(''data-slot'', PStr ''sidebar'')] [''flex h-full w-(--sidebar-width) flex-col bg-sidebar text-sidebar-foreground''] ps) (children_of ps)
      else if is_mobile (sb_mobile sb) then
        Node ''SheetPrimitive.Root''
          (spread [(''data-slot'', PStr ''sheet'')]
            (spread [(''open'', PBool (sb_openMobile sb)), (''onOpenChange'', PVal setOpenMobile)] (rest_of (''className'' # taken) ps)))
          [SheetContent L t
            (given_as ''dir'' ''dir'' ps
             @ [(''data-sidebar'', PStr ''sidebar''), (''data-slot'', PStr ''sidebar''), (''data-mobile'', PStr ''true''),
                (''className'', PStr ''w-(--sidebar-width) bg-sidebar p-0 text-sidebar-foreground [&>button]:hidden''),
                (''style'', PStyle [(''--sidebar-width'', ''18rem'')]), (''side'', side),
                (''children'', PElem (Node ''Fragment'' []
                   [Node ''div'' (wrap_props L [] [(''data-slot'', PStr ''sheet-header'')] [''flex flex-col gap-0.5 p-4''] [(''className'', PStr ''sr-only'')])
                      [SheetTitle L [(''children'', PStr (t ''common.menu'' []))],
                       SheetDescription L [(''children'', PStr (t ''common.navPanel'' []))]],
                    Node ''div'' [(''className'', PStr ''flex h-full w-full flex-col'')] (children_of ps)]))])]
      else
        Node ''div''
          [(''className'', PStr ''group peer hidden text-sidebar-foreground md:block''), (''data-state'', PStr (sidebar_state sb)),
           (''data-collapsible'', if sidebar_state sb = ''collapsed'' then collapsible else PStr []),
           (''data-variant'', variant), (''data-side'', side), (''data-slot'', PStr ''sidebar'')]
          [Node ''div''
             [(''data-slot'', PStr ''sidebar-gap''),
              (''className'', PStr (cn L (map Some
                 [''relative w-(--sidebar-width) bg-transparent transition-[width] duration-200 ease-linear'',
                  ''group-data-[collapsible=offcanvas]:w-0'',
                  ''group-data-[side=right]:rotate-180'',
                  if padded then ''group-data-[collapsible=icon]:w-[calc(var(--sidebar-width-icon)+(--spacing(4)))]''
                  else ''group-data-[collapsible=icon]:w-(--sidebar-width-icon)''])))] [],
           Node ''div''
             (wrap_props L taken [(''data-slot'', PStr ''sidebar-container''), (''data-side'', side)]
               [''fixed inset-y-0 z-10 hidden h-svh w-(--sidebar-width) transition-[left,right,width] duration-200 ease-linear data-[side=left]:left-0 data-[side=left]:group-data-[collapsible=offcanvas]:left-[calc(var(--sidebar-width)*-1)] data-[side=right]:right-0 data-[side=right]:group-data-[collapsible=offcanvas]:right-[calc(var(--sidebar-width)*-1)] md:flex'',
                if padded then ''p-2 group-data-[collapsible=icon]:w-[calc(var(--sidebar-width-icon)+(--spacing(4))+2px)]''
                else ''group-data-[collapsible=icon]:w-(--sidebar-width-icon) group-data-[side=left]:border-r group-data-[side=right]:border-l''] ps)
             [Node ''div''
                [(''data-sidebar'', PStr ''sidebar''), (''data-slot'', PStr ''sidebar-inner''),
                 (''className'', PStr ''flex size-full flex-col bg-sidebar group-data-[variant=floating]:rounded-lg group-data-[variant=floating]:shadow-sm group-data-[variant=floating]:ring-1 group-data-[variant=floating]:ring-sidebar-border'')]
                (children_of ps)]])"

text \<open>A click runs the handler of the caller, if any, and toggles: \<open>chain\<close> puts the two together. As the rest of
  the properties comes last, it has no handler of its own in it.\<close>

definition SidebarTrigger :: "'v ui_lib \<Rightarrow> translate \<Rightarrow> ('v pvalue option \<Rightarrow> 'v) \<Rightarrow> 'v props \<Rightarrow> 'v node" where
  "SidebarTrigger L t chain ps =
     Button L
       (spread [(''data-sidebar'', PStr ''trigger''), (''data-slot'', PStr ''sidebar-trigger''), (''variant'', PStr ''ghost''),
           (''size'', PStr ''icon-sm''), (''className'', PStr (cn L [class_given ps])),
           (''onClick'', PVal (chain (map_of ps ''onClick''))),
           (''children'', PElem (Node ''Fragment'' []
              [Node ''PanelLeftIcon'' [] [], Node ''span'' [(''className'', PStr ''sr-only'')] [Given (PStr (t ''shell.menu'' []))]]))]
         (rest_of [''className'', ''onClick'', ''children''] ps))"

definition SidebarRail :: "'v ui_lib \<Rightarrow> translate \<Rightarrow> 'v \<Rightarrow> 'v props \<Rightarrow> 'v node" where
  "SidebarRail L t toggle ps =
     wrap L ''button'' []
       [(''data-sidebar'', PStr ''rail''), (''data-slot'', PStr ''sidebar-rail''), (''aria-label'', PStr (t ''shell.menu'' [])),
        (''tabIndex'', PNum (- 1)), (''onClick'', PVal toggle), (''title'', PStr (t ''shell.menu'' []))]
       [''absolute inset-y-0 z-20 hidden w-4 transition-[left,right,background-color] ease-linear group-data-[side=left]:-right-4 group-data-[side=right]:left-0 after:absolute after:inset-y-0 after:start-1/2 after:w-[2px] hover:after:bg-sidebar-border sm:flex ltr:-translate-x-1/2 rtl:-translate-x-1/2'',
        ''in-data-[side=left]:cursor-w-resize in-data-[side=right]:cursor-e-resize'',
        ''[[data-side=left][data-state=collapsed]_&]:cursor-e-resize [[data-side=right][data-state=collapsed]_&]:cursor-w-resize'',
        ''group-data-[collapsible=offcanvas]:translate-x-0 group-data-[collapsible=offcanvas]:after:left-full hover:group-data-[collapsible=offcanvas]:bg-sidebar'',
        ''[[data-side=left][data-collapsible=offcanvas]_&]:-right-2'',
        ''[[data-side=right][data-collapsible=offcanvas]_&]:-left-2''] ps"

definition SidebarInset :: "'v ui_lib \<Rightarrow> 'v props \<Rightarrow> 'v node" where
  "SidebarInset L ps =
     wrap L ''main'' [] [(''data-slot'', PStr ''sidebar-inset'')]
      [''relative flex w-full flex-1 flex-col bg-background md:peer-data-[variant=inset]:m-2 md:peer-data-[variant=inset]:ml-0 md:peer-data-[variant=inset]:rounded-xl md:peer-data-[variant=inset]:shadow-sm md:peer-data-[variant=inset]:peer-data-[state=collapsed]:ml-2''] ps"

definition SidebarInput :: "'v ui_lib \<Rightarrow> 'v props \<Rightarrow> 'v node" where
  "SidebarInput L ps =
     Input L (wrap_props L [] [(''data-slot'', PStr ''sidebar-input''), (''data-sidebar'', PStr ''input'')]
      [''h-8 w-full bg-background shadow-none''] ps)"

definition SidebarHeader :: "'v ui_lib \<Rightarrow> 'v props \<Rightarrow> 'v node" where
  "SidebarHeader L ps =
     wrap L ''div'' [] [(''data-slot'', PStr ''sidebar-header''), (''data-sidebar'', PStr ''header'')]
      [''flex flex-col gap-2 p-2''] ps"

definition SidebarFooter :: "'v ui_lib \<Rightarrow> 'v props \<Rightarrow> 'v node" where
  "SidebarFooter L ps =
     wrap L ''div'' [] [(''data-slot'', PStr ''sidebar-footer''), (''data-sidebar'', PStr ''footer'')]
      [''flex flex-col gap-2 p-2''] ps"

definition SidebarSeparator :: "'v ui_lib \<Rightarrow> 'v props \<Rightarrow> 'v node" where
  "SidebarSeparator L ps =
     Separator L (wrap_props L [] [(''data-slot'', PStr ''sidebar-separator''), (''data-sidebar'', PStr ''separator'')]
      [''mx-2 w-auto bg-sidebar-border''] ps)"

definition SidebarContent :: "'v ui_lib \<Rightarrow> 'v props \<Rightarrow> 'v node" where
  "SidebarContent L ps =
     wrap L ''div'' [] [(''data-slot'', PStr ''sidebar-content''), (''data-sidebar'', PStr ''content'')]
      [''no-scrollbar flex min-h-0 flex-1 flex-col gap-0 overflow-auto group-data-[collapsible=icon]:overflow-hidden''] ps"

definition SidebarGroup :: "'v ui_lib \<Rightarrow> 'v props \<Rightarrow> 'v node" where
  "SidebarGroup L ps =
     wrap L ''div'' [] [(''data-slot'', PStr ''sidebar-group''), (''data-sidebar'', PStr ''group'')]
      [''relative flex w-full min-w-0 flex-col p-2''] ps"

definition SidebarGroupLabel :: "'v ui_lib \<Rightarrow> 'v props \<Rightarrow> 'v node" where
  "SidebarGroupLabel L ps =
     useRender L ''div''
       (mergeProps L
         [(''className'', PStr (cn L
             [Some ''flex h-8 shrink-0 items-center rounded-md px-2 text-xs font-medium text-sidebar-foreground/70 ring-sidebar-ring outline-hidden transition-[margin,opacity] duration-200 ease-linear group-data-[collapsible=icon]:-mt-8 group-data-[collapsible=icon]:opacity-0 focus-visible:ring-2 [&>svg]:size-4 [&>svg]:shrink-0'',
              class_given ps]))]
         (rest_of [''className'', ''render''] ps))
       (map_of ps ''render'') [(''slot'', PStr ''sidebar-group-label''), (''sidebar'', PStr ''group-label'')]"

definition SidebarGroupAction :: "'v ui_lib \<Rightarrow> 'v props \<Rightarrow> 'v node" where
  "SidebarGroupAction L ps =
     useRender L ''button''
       (mergeProps L
         [(''className'', PStr (cn L
             [Some ''absolute top-3.5 right-3 flex aspect-square w-5 items-center justify-center rounded-md p-0 text-sidebar-foreground ring-sidebar-ring outline-hidden transition-transform group-data-[collapsible=icon]:hidden after:absolute after:-inset-2 hover:bg-sidebar-accent hover:text-sidebar-accent-foreground focus-visible:ring-2 md:after:hidden [&>svg]:size-4 [&>svg]:shrink-0'',
              class_given ps]))]
         (rest_of [''className'', ''render''] ps))
       (map_of ps ''render'') [(''slot'', PStr ''sidebar-group-action''), (''sidebar'', PStr ''group-action'')]"

definition SidebarGroupContent :: "'v ui_lib \<Rightarrow> 'v props \<Rightarrow> 'v node" where
  "SidebarGroupContent L ps =
     wrap L ''div'' [] [(''data-slot'', PStr ''sidebar-group-content''), (''data-sidebar'', PStr ''group-content'')]
      [''w-full text-sm''] ps"

definition SidebarMenu :: "'v ui_lib \<Rightarrow> 'v props \<Rightarrow> 'v node" where
  "SidebarMenu L ps =
     wrap L ''ul'' [] [(''data-slot'', PStr ''sidebar-menu''), (''data-sidebar'', PStr ''menu'')]
      [''flex w-full min-w-0 flex-col gap-0''] ps"

definition SidebarMenuItem :: "'v ui_lib \<Rightarrow> 'v props \<Rightarrow> 'v node" where
  "SidebarMenuItem L ps =
     wrap L ''li'' [] [(''data-slot'', PStr ''sidebar-menu-item''), (''data-sidebar'', PStr ''menu-item'')]
      [''group/menu-item relative''] ps"

definition sidebarMenuButtonVariants :: cva_config where
  "sidebarMenuButtonVariants =
     \<lparr>cv_base = ''peer/menu-button group/menu-button pointer-coarse:min-h-11 flex w-full items-center gap-2 overflow-hidden rounded-md p-2 text-left text-sm ring-sidebar-ring outline-hidden transition-[width,height,padding] group-has-data-[sidebar=menu-action]/menu-item:pr-8 group-data-[collapsible=icon]:size-8! group-data-[collapsible=icon]:p-2! hover:bg-sidebar-accent hover:text-sidebar-accent-foreground focus-visible:ring-2 active:bg-sidebar-accent active:text-sidebar-accent-foreground disabled:pointer-events-none disabled:opacity-50 aria-disabled:pointer-events-none aria-disabled:opacity-50 data-open:hover:bg-sidebar-accent data-open:hover:text-sidebar-accent-foreground data-active:bg-sidebar-accent data-active:font-medium data-active:text-sidebar-accent-foreground [&_svg]:size-4 [&_svg]:shrink-0 [&>span:last-child]:truncate'',
      cv_variants = [(''variant'', [(''default'', ''hover:bg-sidebar-accent hover:text-sidebar-accent-foreground''),
         (''outline'', ''bg-background shadow-[0_0_0_1px_var(--sidebar-border)] hover:bg-sidebar-accent hover:text-sidebar-accent-foreground hover:shadow-[0_0_0_1px_var(--sidebar-accent)]'')]),
       (''size'', [(''default'', ''h-8 text-sm''),
         (''sm'', ''h-7 text-xs''),
         (''lg'', ''h-12 text-sm group-data-[collapsible=icon]:p-0!'')])],
      cv_defaults = [(''variant'', ''default''), (''size'', ''default'')]\<rparr>"

text \<open>A tooltip that is no text is an object of properties, here an element that carries them.\<close>

definition tooltip_props :: "'v props \<Rightarrow> 'v props" where
  "tooltip_props ps = (case map_of ps ''tooltip'' of Some (PElem (Node _ qs _)) \<Rightarrow> qs | _ \<Rightarrow> [])"

definition SidebarMenuButton :: "'v ui_lib \<Rightarrow> sidebar \<Rightarrow> 'v props \<Rightarrow> 'v node" where
  "SidebarMenuButton L sb ps =
     (let variant = prop_or ps ''variant'' (PStr ''default''); size = prop_or ps ''size'' (PStr ''default'');
          tooltip = map_of ps ''tooltip''; shown = (tooltip \<noteq> None \<and> tooltip \<noteq> Some (PStr []));
          comp = useRender L ''button''
            (mergeProps L
              [(''className'', PStr (cn L [Some (cva L sidebarMenuButtonVariants [(''variant'', Some variant), (''size'', Some size)]), class_given ps]))]
              (rest_of [''render'', ''isActive'', ''variant'', ''size'', ''tooltip'', ''className''] ps))
            (if \<not> shown then map_of ps ''render'' else Some (PElem (TooltipTrigger (given_as ''render'' ''render'' ps))))
            [(''slot'', PStr ''sidebar-menu-button''), (''sidebar'', PStr ''menu-button''), (''size'', size),
             (''active'', prop_or ps ''isActive'' (PBool False))];
          tip = (case tooltip of Some (PStr s) \<Rightarrow> [(''children'', PStr s)] | _ \<Rightarrow> tooltip_props ps)
      in if \<not> shown then comp
         else Node ''TooltipPrimitive.Root'' [(''data-slot'', PStr ''tooltip'')]
           [comp,
            TooltipContent L
              (spread [(''side'', PStr ''right''), (''align'', PStr ''center''),
                  (''hidden'', PBool (sidebar_state sb \<noteq> ''collapsed'' \<or> is_mobile (sb_mobile sb)))] tip)])"

definition SidebarMenuAction :: "'v ui_lib \<Rightarrow> 'v props \<Rightarrow> 'v node" where
  "SidebarMenuAction L ps =
     useRender L ''button''
       (mergeProps L
         [(''className'', PStr (cn L
             [Some ''absolute top-1.5 right-1 flex aspect-square w-5 items-center justify-center rounded-md p-0 text-sidebar-foreground ring-sidebar-ring outline-hidden transition-transform group-data-[collapsible=icon]:hidden peer-hover/menu-button:text-sidebar-accent-foreground peer-data-[size=default]/menu-button:top-1.5 peer-data-[size=lg]/menu-button:top-2.5 peer-data-[size=sm]/menu-button:top-1 after:absolute after:-inset-2 hover:bg-sidebar-accent hover:text-sidebar-accent-foreground focus-visible:ring-2 md:after:hidden [&>svg]:size-4 [&>svg]:shrink-0'',
               if prop_or ps ''showOnHover'' (PBool False) = PBool True then Some ''group-focus-within/menu-item:opacity-100 group-hover/menu-item:opacity-100 peer-data-active/menu-button:text-sidebar-accent-foreground aria-expanded:opacity-100 md:opacity-0'' else None,
              class_given ps]))]
         (rest_of [''className'', ''render'', ''showOnHover''] ps))
       (map_of ps ''render'') [(''slot'', PStr ''sidebar-menu-action''), (''sidebar'', PStr ''menu-action'')]"

definition SidebarMenuBadge :: "'v ui_lib \<Rightarrow> 'v props \<Rightarrow> 'v node" where
  "SidebarMenuBadge L ps =
     wrap L ''div'' [] [(''data-slot'', PStr ''sidebar-menu-badge''), (''data-sidebar'', PStr ''menu-badge'')]
      [''pointer-events-none absolute right-1 flex h-5 min-w-5 items-center justify-center rounded-md px-1 text-xs font-medium text-sidebar-foreground tabular-nums select-none group-data-[collapsible=icon]:hidden peer-hover/menu-button:text-sidebar-accent-foreground peer-data-[size=default]/menu-button:top-1.5 peer-data-[size=lg]/menu-button:top-2.5 peer-data-[size=sm]/menu-button:top-1 peer-data-active/menu-button:text-sidebar-accent-foreground''] ps"

text \<open>A width chosen once: \<open>Math.random\<close> is a number from 0 to below 1.\<close>

definition skeleton_width :: "jsnum \<Rightarrow> jsnum" where
  "skeleton_width random = math_floor (random * Fin 40) + Fin 50"

definition SidebarMenuSkeleton :: "'v ui_lib \<Rightarrow> jsnum \<Rightarrow> 'v props \<Rightarrow> 'v node" where
  "SidebarMenuSkeleton L random ps =
     Node ''div''
       (wrap_props L [''showIcon'', ''children''] [(''data-slot'', PStr ''sidebar-menu-skeleton''), (''data-sidebar'', PStr ''menu-skeleton'')]
         [''flex h-8 items-center gap-2 rounded-md px-2''] ps)
       ((if prop_or ps ''showIcon'' (PBool False) = PBool True
         then [Skeleton L [(''className'', PStr ''size-4 rounded-md''), (''data-sidebar'', PStr ''menu-skeleton-icon'')]] else [])
        @ [Skeleton L [(''className'', PStr ''h-4 max-w-(--skeleton-width) flex-1''), (''data-sidebar'', PStr ''menu-skeleton-text''),
             (''style'', PStyle [(''--skeleton-width'', num_string (skeleton_width random) @ ''%'')])]])"

definition SidebarMenuSub :: "'v ui_lib \<Rightarrow> 'v props \<Rightarrow> 'v node" where
  "SidebarMenuSub L ps =
     wrap L ''ul'' [] [(''data-slot'', PStr ''sidebar-menu-sub''), (''data-sidebar'', PStr ''menu-sub'')]
      [''mx-3.5 flex min-w-0 translate-x-px flex-col gap-1 border-l border-sidebar-border px-2.5 py-0.5 group-data-[collapsible=icon]:hidden''] ps"

definition SidebarMenuSubItem :: "'v ui_lib \<Rightarrow> 'v props \<Rightarrow> 'v node" where
  "SidebarMenuSubItem L ps =
     wrap L ''li'' [] [(''data-slot'', PStr ''sidebar-menu-sub-item''), (''data-sidebar'', PStr ''menu-sub-item'')]
      [''group/menu-sub-item relative''] ps"

definition SidebarMenuSubButton :: "'v ui_lib \<Rightarrow> 'v props \<Rightarrow> 'v node" where
  "SidebarMenuSubButton L ps =
     useRender L ''a''
       (mergeProps L
         [(''className'', PStr (cn L
             [Some ''flex h-7 min-w-0 -translate-x-px items-center gap-2 overflow-hidden rounded-md px-2 text-sidebar-foreground ring-sidebar-ring outline-hidden group-data-[collapsible=icon]:hidden hover:bg-sidebar-accent hover:text-sidebar-accent-foreground focus-visible:ring-2 active:bg-sidebar-accent active:text-sidebar-accent-foreground disabled:pointer-events-none disabled:opacity-50 aria-disabled:pointer-events-none aria-disabled:opacity-50 data-[size=md]:text-sm data-[size=sm]:text-xs data-active:bg-sidebar-accent data-active:text-sidebar-accent-foreground [&>span:last-child]:truncate [&>svg]:size-4 [&>svg]:shrink-0 [&>svg]:text-sidebar-accent-foreground'',
              class_given ps]))]
         (rest_of [''className'', ''render'', ''size'', ''isActive''] ps))
       (map_of ps ''render'') [(''slot'', PStr ''sidebar-menu-sub-button''), (''sidebar'', PStr ''menu-sub-button''), (''size'', prop_or ps ''size'' (PStr ''md'')), (''active'', prop_or ps ''isActive'' (PBool False))]"

subsection \<open>What a caller can rely on\<close>

text \<open>The primitives that add a slot and class names to one element, by their slots, each with the properties it takes out for itself.\<close>

definition plain_primitives :: "'v ui_lib \<Rightarrow> (string \<times> string list \<times> ('v props \<Rightarrow> 'v node)) list" where
  "plain_primitives L =
    [(''input'', [''className'', ''type''], Input L),
     (''separator'', [''className'', ''orientation''], Separator L),
     (''skeleton'', [''className''], Skeleton L),
     (''avatar'', [''className'', ''size''], Avatar L),
     (''avatar-image'', [''className''], AvatarImage L),
     (''avatar-fallback'', [''className''], AvatarFallback L),
     (''avatar-badge'', [''className''], AvatarBadge L),
     (''avatar-group'', [''className''], AvatarGroup L),
     (''avatar-group-count'', [''className''], AvatarGroupCount L),
     (''card'', [''className'', ''size''], Card L),
     (''card-header'', [''className''], CardHeader L),
     (''card-title'', [''className''], CardTitle L),
     (''card-description'', [''className''], CardDescription L),
     (''card-action'', [''className''], CardAction L),
     (''card-content'', [''className''], CardContent L),
     (''card-footer'', [''className''], CardFooter L),
     (''table-header'', [''className''], TableHeader L),
     (''table-body'', [''className''], TableBody L),
     (''table-footer'', [''className''], TableFooter L),
     (''table-row'', [''className''], TableRow L),
     (''table-head'', [''className''], TableHead L),
     (''table-cell'', [''className''], TableCell L),
     (''table-caption'', [''className''], TableCaption L),
     (''tabs'', [''className'', ''orientation''], Tabs L),
     (''tabs-trigger'', [''className''], TabsTrigger L),
     (''tabs-content'', [''className''], TabsContent L),
     (''dropdown-menu'', [], DropdownMenu),
     (''dropdown-menu-portal'', [], DropdownMenuPortal),
     (''dropdown-menu-trigger'', [], DropdownMenuTrigger),
     (''dropdown-menu-group'', [], DropdownMenuGroup),
     (''dropdown-menu-label'', [''className'', ''inset''], DropdownMenuLabel L),
     (''dropdown-menu-item'', [''className'', ''inset'', ''variant''], DropdownMenuItem L),
     (''dropdown-menu-sub'', [], DropdownMenuSub),
     (''dropdown-menu-radio-group'', [], DropdownMenuRadioGroup),
     (''dropdown-menu-separator'', [''className''], DropdownMenuSeparator L),
     (''dropdown-menu-shortcut'', [''className''], DropdownMenuShortcut L),
     (''sheet'', [], Sheet),
     (''sheet-trigger'', [], SheetTrigger),
     (''sheet-close'', [], SheetClose),
     (''sheet-portal'', [], SheetPortal),
     (''sheet-overlay'', [''className''], SheetOverlay L),
     (''sheet-header'', [''className''], SheetHeader L),
     (''sheet-footer'', [''className''], SheetFooter L),
     (''sheet-title'', [''className''], SheetTitle L),
     (''sheet-description'', [''className''], SheetDescription L),
     (''tooltip-provider'', [''delay''], TooltipProvider),
     (''tooltip'', [], Tooltip),
     (''tooltip-trigger'', [], TooltipTrigger),
     (''sidebar-inset'', [''className''], SidebarInset L),
     (''sidebar-header'', [''className''], SidebarHeader L),
     (''sidebar-footer'', [''className''], SidebarFooter L),
     (''sidebar-content'', [''className''], SidebarContent L),
     (''sidebar-group'', [''className''], SidebarGroup L),
     (''sidebar-group-content'', [''className''], SidebarGroupContent L),
     (''sidebar-menu'', [''className''], SidebarMenu L),
     (''sidebar-menu-item'', [''className''], SidebarMenuItem L),
     (''sidebar-menu-badge'', [''className''], SidebarMenuBadge L),
     (''sidebar-menu-sub'', [''className''], SidebarMenuSub L),
     (''sidebar-menu-sub-item'', [''className''], SidebarMenuSubItem L)]"

definition node_attr_of :: "string \<Rightarrow> 'v node \<Rightarrow> 'v pvalue option" where
  "node_attr_of k n = (case n of Node _ as _ \<Rightarrow> map_of as k | Given _ \<Rightarrow> None)"

definition respects_caller :: "string \<times> string list \<times> ('v props \<Rightarrow> 'v node) \<Rightarrow> bool" where
  "respects_caller p \<longleftrightarrow>
     (case p of (slot, own, W) \<Rightarrow>
        \<forall>ps. distinct (map fst ps) \<longrightarrow>
          (\<forall>k. k \<notin> set own \<longrightarrow> map_of ps k \<noteq> None \<longrightarrow> node_attr_of k (W ps) = map_of ps k)
          \<and> (map_of ps ''data-slot'' = None \<longrightarrow> node_attr_of ''data-slot'' (W ps) = Some (PStr slot)))"

lemma map_of_spread:
  "distinct (map fst ps) \<Longrightarrow>
     map_of (spread own ps) k = (case map_of ps k of Some v \<Rightarrow> Some v | None \<Rightarrow> map_of own k)"
proof (induction ps arbitrary: own)
  case (Cons m ps)
  obtain a b where m: "m = (a, b)" by (cases m)
  have s: "spread own (m # ps) = spread (map_set a b own) ps" by (simp add: spread_def m)
  have g: "map_of (map_set a b own) k = (if k = a then Some b else map_of own k)"
    using map_get_set [of a b own k] by (simp add: map_get_def)
  have ga: "map_of (map_set a b own) a = Some b" using map_get_set [of a b own a] by (simp add: map_get_def)
  have "map_of ps a = None" using Cons.prems by (simp add: m map_of_eq_None_iff)
  then show ?case
    unfolding s using Cons.IH [of "map_set a b own"] Cons.prems by (auto simp: g ga m split: option.split)
qed (simp add: spread_def)

lemma map_of_rest: "map_of (rest_of taken ps) k = (if k \<in> set taken then None else map_of ps k)"
  by (induction ps) (auto simp: rest_of_def)

lemma distinct_rest: "distinct (map fst ps) \<Longrightarrow> distinct (map fst (rest_of taken ps))"
  by (simp add: rest_of_def distinct_map inj_on_def)

lemma wrapped_attr:
  "distinct (map fst ps) \<Longrightarrow> node_attr_of k (wrap L tag taken own parts ps) =
     (case map_of (rest_of (''className'' # taken) ps) k of Some v \<Rightarrow> Some v
      | None \<Rightarrow> map_of (own @ [(''className'', PStr (cn L (map Some parts @ [class_given ps])))]) k)"
  unfolding node_attr_of_def wrap_def wrap_props_def node.case by (rule map_of_spread [OF distinct_rest])

lemma respects_wrap:
  assumes "\<And>ps. W ps = wrap L tag taken (own ps) parts ps" "''data-slot'' \<notin> set taken"
    and "\<And>ps. map_of (own ps) ''data-slot'' = Some (PStr slot)"
  shows "respects_caller (slot, ''className'' # taken, W)"
proof -
  have "node_attr_of k (W ps) = map_of ps k"
    if "distinct (map fst ps)" "k \<notin> set (''className'' # taken)" "map_of ps k \<noteq> None" for ps k
    using that unfolding assms(1) wrapped_attr [OF that(1)] map_of_rest by (auto split: option.split)
  moreover have "node_attr_of ''data-slot'' (W ps) = Some (PStr slot)" if "distinct (map fst ps)" "map_of ps ''data-slot'' = None" for ps
    using that unfolding assms(1) wrapped_attr [OF that(1)] map_of_rest map_of_append
    by (simp add: assms(3) map_add_Some_iff map_add_def)
  ultimately show ?thesis by (simp add: respects_caller_def)
qed

lemma respects_pass:
  assumes "\<And>ps. W ps = pass tag taken (own ps) ps" "''data-slot'' \<notin> set taken"
    and "\<And>ps. map_of (own ps) ''data-slot'' = Some (PStr slot)"
  shows "respects_caller (slot, taken, W)"
proof -
  have a: "node_attr_of k (W ps) = (case map_of (rest_of taken ps) k of Some v \<Rightarrow> Some v | None \<Rightarrow> map_of (own ps) k)"
    if "distinct (map fst ps)" for ps k
    unfolding assms(1) node_attr_of_def pass_def node.case by (rule map_of_spread [OF distinct_rest [OF that]])
  show ?thesis using assms(2,3) by (auto simp: respects_caller_def a map_of_rest split: option.split)
qed

lemmas plain_defs = Input_def Separator_def Skeleton_def Avatar_def AvatarImage_def AvatarFallback_def
    AvatarBadge_def AvatarGroup_def AvatarGroupCount_def Card_def CardHeader_def CardTitle_def
    CardDescription_def CardAction_def CardContent_def CardFooter_def TableHeader_def TableBody_def
    TableFooter_def TableRow_def TableHead_def TableCell_def TableCaption_def Tabs_def
    TabsTrigger_def TabsContent_def DropdownMenu_def DropdownMenuPortal_def DropdownMenuTrigger_def DropdownMenuGroup_def
    DropdownMenuLabel_def DropdownMenuItem_def DropdownMenuSub_def DropdownMenuRadioGroup_def DropdownMenuSeparator_def DropdownMenuShortcut_def
    Sheet_def SheetTrigger_def SheetClose_def SheetPortal_def SheetOverlay_def SheetHeader_def
    SheetFooter_def SheetTitle_def SheetDescription_def TooltipProvider_def Tooltip_def TooltipTrigger_def
    SidebarInset_def SidebarHeader_def SidebarFooter_def SidebarContent_def SidebarGroup_def SidebarGroupContent_def
    SidebarMenu_def SidebarMenuItem_def SidebarMenuBadge_def SidebarMenuSub_def SidebarMenuSubItem_def

text \<open>C40. A caller decides: whatever attribute it gives a primitive, other than the properties this very primitive takes out
  of what it is given (listed with it, mostly the class name alone), is the attribute of the element, also one the primitive has a value for; without a
  slot from the caller the element has the slot of the primitive, and no two primitives have the same slot.\<close>

theorem primitives_respect_caller:
  "list_all respects_caller (plain_primitives L) \<and> distinct (map fst (plain_primitives L))"
proof
  show "list_all respects_caller (plain_primitives L)"
    unfolding plain_primitives_def list.pred_inject(2)
    by (intro conjI TrueI list.pred_inject(1)) ((rule respects_wrap respects_pass, rule plain_defs; simp add: given_as_def map_add_def split: option.split)+)
  show "distinct (map fst (plain_primitives L))"
    by (simp add: plain_primitives_def)
qed

lemma skeleton_width_range: "0 \<le> r \<Longrightarrow> r \<le> 1 \<Longrightarrow> Fin 50 \<le> skeleton_width (Fin r) \<and> skeleton_width (Fin r) \<le> Fin 90"
proof -
  assume r: "0 \<le> r" "r \<le> 1"
  have rep: "rep (of_int n)" if "\<bar>n\<bar> \<le> 2 ^ 53" for n using that rep_of_int by blast
  have "Fin (of_int 0) \<le> to_num (r * 40)" using r rep [of 0] by (intro to_num_ge) simp_all
  moreover have "to_num (r * 40) \<le> Fin (of_int 40)" using r rep [of 40] by (intro to_num_le) simp_all
  ultimately obtain x where x: "to_num (r * 40) = Fin x" "0 \<le> x" "x \<le> 40"
    by (cases "to_num (r * 40)") simp_all
  have f: "0 \<le> \<lfloor>x\<rfloor>" "\<lfloor>x\<rfloor> \<le> 40" using x(2,3) by (simp_all add: floor_le_iff)
  have "Fin (of_int \<lfloor>x\<rfloor>) + Fin (of_int 50) = Fin (of_int (\<lfloor>x\<rfloor> + 50))" using f by (intro plus_of_int) simp
  then have "skeleton_width (Fin r) = Fin (of_int (\<lfloor>x\<rfloor> + 50))" by (simp add: skeleton_width_def x(1))
  then show ?thesis using f by (simp add: of_int_le_iff [of 50 _, simplified] of_int_le_iff [of _ 90, simplified])
qed

end
