(* ===== verification/Transport.thy ===== *)
theory Transport
  imports Json_Parse "HOL-Library.Word"
begin

text \<open>
  \<open>transports/node/index.js\<close>, the client an application uses to send its spans to the hub. A span is
  an object of the caller that the client completes in place, so the spans live in a store from
  addresses to records that every operation passes on, and the same address may come twice in one
  call. \<open>randomBytes\<close>, \<open>Date.now\<close> and \<open>fetch\<close> are parameters; the first two may answer differently each
  time, which the ticks of the world count. A member that is missing is None. Ids, names, kinds and the
  like are strings, as the README has them; the two times and the attributes are any JSON value. (Objects
  among them whose \<open>toString\<close> member is overwritten are outside the model.)
\<close>

subsection \<open>Spans and their store\<close>

record otlp_span =
  tx_trace :: "string option"
  tx_span :: "string option"
  tx_parent :: "string option"
  tx_name :: "string option"
  tx_correlation :: "string option"
  tx_kind :: "string option"
  tx_status :: "string option"
  tx_start :: "json option"
  tx_end :: "json option"
  tx_attributes :: "(string \<times> json option) list option"

record world =
  heap :: "nat \<Rightarrow> otlp_span"
  ticks :: nat

record node_env =
  random_bytes :: "nat \<Rightarrow> nat \<Rightarrow> 8 word list"
  date_now :: "nat \<Rightarrow> nat"

definition write_span :: "nat \<Rightarrow> otlp_span \<Rightarrow> world \<Rightarrow> world" where
  "write_span a s w = w\<lparr>heap := (heap w)(a := s)\<rparr>"

definition tick :: "world \<Rightarrow> world" where
  "tick w = w\<lparr>ticks := Suc (ticks w)\<rparr>"

definition truthy_opt :: "json option \<Rightarrow> bool" where
  "truthy_opt v = (case v of None \<Rightarrow> False | Some x \<Rightarrow> truthy_json x)"

text \<open>\<open>toString("hex")\<close> of a buffer and \<open>String(v)\<close>.\<close>

definition hex_byte :: "8 word \<Rightarrow> string" where
  "hex_byte b = [hex_lower (unat b div 16), hex_lower (unat b mod 16)]"

definition hex_string :: "8 word list \<Rightarrow> string" where
  "hex_string bs = concat (map hex_byte bs)"

definition js_string_opt :: "json option \<Rightarrow> string" where
  "js_string_opt v = (case v of None \<Rightarrow> ''undefined'' | Some x \<Rightarrow> json_to_string x)"

subsection \<open>The address of the hub\<close>

definition ends_with :: "string \<Rightarrow> string \<Rightarrow> bool" where
  "ends_with s p = starts_with (rev s) (rev p)"

definition strip_slash :: "string \<Rightarrow> string" where
  "strip_slash s = (if s \<noteq> [] \<and> last s = CHR ''/'' then butlast s else s)"

definition tracesUrl :: "string \<Rightarrow> string" where
  "tracesUrl endpoint =
     (let base = strip_slash endpoint in
      if ends_with base ''/v1/traces'' then base else base @ ''/v1/traces'')"

subsection \<open>Completing a span\<close>

definition nowNano :: "node_env \<Rightarrow> nat \<Rightarrow> string" where
  "nowNano e k = nat_digits (date_now e k * 1000000)"

definition fill_trace :: "node_env \<Rightarrow> nat \<Rightarrow> world \<Rightarrow> world" where
  "fill_trace e a w =
     (if truthy_str (tx_trace (heap w a)) then w
      else tick (write_span a ((heap w a)\<lparr>tx_trace := Some (hex_string (random_bytes e (ticks w) 16))\<rparr>) w))"

definition fill_span :: "node_env \<Rightarrow> nat \<Rightarrow> world \<Rightarrow> world" where
  "fill_span e a w =
     (if truthy_str (tx_span (heap w a)) then w
      else tick (write_span a ((heap w a)\<lparr>tx_span := Some (hex_string (random_bytes e (ticks w) 8))\<rparr>) w))"

definition fill_start :: "node_env \<Rightarrow> nat \<Rightarrow> world \<Rightarrow> world" where
  "fill_start e a w =
     (if truthy_opt (tx_start (heap w a)) then w
      else tick (write_span a ((heap w a)\<lparr>tx_start := Some (JStr (nowNano e (ticks w)))\<rparr>) w))"

definition fill_end :: "nat \<Rightarrow> world \<Rightarrow> world" where
  "fill_end a w =
     (if truthy_opt (tx_end (heap w a)) then w
      else write_span a ((heap w a)\<lparr>tx_end := tx_start (heap w a)\<rparr>) w)"

definition prepare :: "node_env \<Rightarrow> nat \<Rightarrow> world \<Rightarrow> world" where
  "prepare e a w = fill_end a (fill_start e a (fill_span e a (fill_trace e a w)))"

subsection \<open>The headers of the next hop\<close>

definition traceparent :: "string \<Rightarrow> string \<Rightarrow> string" where
  "traceparent tid sid = ''00-'' @ tid @ ''-'' @ sid @ ''-01''"

definition span_headers :: "otlp_span \<Rightarrow> (string \<times> string) list" where
  "span_headers s =
     (case (tx_trace s, tx_span s) of
        (Some tid, Some sid) \<Rightarrow>
          if length tid = 32 \<and> length sid = 16 then [(''traceparent'', traceparent tid sid)] else []
      | _ \<Rightarrow> [])
     @ (if truthy_str (tx_correlation s) then [(''X-Correlation-Id'', the (tx_correlation s))] else [])"

definition headers :: "node_env \<Rightarrow> nat \<Rightarrow> world \<Rightarrow> (string \<times> string) list \<times> world" where
  "headers e a w = (let w = prepare e a w in (span_headers (heap w a), w))"

subsection \<open>The body\<close>

definition KINDS :: "(string \<times> nat) list" where
  "KINDS = [(''internal'', 1), (''server'', 2), (''client'', 3), (''producer'', 4), (''consumer'', 5)]"

definition STATUS :: "(string \<times> nat) list" where
  "STATUS = [(''unset'', 0), (''ok'', 1), (''error'', 2)]"

text \<open>
  The two tables are plain objects, so a name that is no entry may still be a member of
  \<open>Object.prototype\<close>: a function, which \<open>JSON.stringify\<close> leaves out (None), or the prototype
  itself, which it writes as an empty object. Only what is undefined gives way to the default.
\<close>

definition prototype_functions :: "string list" where
  "prototype_functions =
     [''constructor'', ''__defineGetter__'', ''__defineSetter__'', ''hasOwnProperty'', ''__lookupGetter__'',
      ''__lookupSetter__'', ''isPrototypeOf'', ''propertyIsEnumerable'', ''toString'', ''valueOf'', ''toLocaleString'']"

definition enum_value :: "(string \<times> nat) list \<Rightarrow> string option \<Rightarrow> nat \<Rightarrow> json option" where
  "enum_value table key other =
     (let k = coalesce key ''undefined'' in
      case map_of table k of
        Some n \<Rightarrow> Some (JNum (Fin (of_nat n)))
      | None \<Rightarrow> if k = ''__proto__'' then Some (JObj [])
               else if k \<in> set prototype_functions then None
               else Some (JNum (Fin (of_nat other))))"

definition string_attribute :: "string \<Rightarrow> string \<Rightarrow> json" where
  "string_attribute k v = JObj [(''key'', JStr k), (''value'', JObj [(''stringValue'', JStr v)])]"

definition span_attributes :: "otlp_span \<Rightarrow> (string \<times> json option) list" where
  "span_attributes s =
     (let attrs = coalesce (tx_attributes s) [] in
      object_entries
        (if truthy_str (tx_correlation s)
         then map_set ''argus.correlation_id'' (Some (JStr (the (tx_correlation s)))) attrs else attrs))"

definition encode_span :: "otlp_span \<Rightarrow> json" where
  "encode_span s = JObj
     (optional_member ''traceId'' JStr (tx_trace s)
      @ optional_member ''spanId'' JStr (tx_span s)
      @ [(''parentSpanId'', JStr (coalesce (tx_parent s) []))]
      @ optional_member ''name'' JStr (tx_name s)
      @ optional_member ''kind'' id (enum_value KINDS (tx_kind s) 2)
      @ [(''startTimeUnixNano'', JStr (js_string_opt (tx_start s))),
         (''endTimeUnixNano'', JStr (js_string_opt (tx_end s))),
         (''attributes'', JArr (map (\<lambda>(k, v). string_attribute k (js_string_opt v)) (span_attributes s))),
         (''status'', JObj (optional_member ''code'' id (enum_value STATUS (tx_status s) 0)))])"

fun encode_spans :: "node_env \<Rightarrow> nat list \<Rightarrow> world \<Rightarrow> json list \<times> world" where
  "encode_spans e [] w = ([], w)"
| "encode_spans e (a # as) w =
     (let w1 = prepare e a w; (js, w2) = encode_spans e as w1 in (encode_span (heap w1 a) # js, w2))"

record transport =
  tp_endpoint :: string
  tp_token :: string
  tp_service :: "string option"
  tp_container :: "string option"
  tp_timeout :: jsnum

definition resource_attributes :: "transport \<Rightarrow> json list" where
  "resource_attributes t =
     [string_attribute ''service.name'' (coalesce (tp_service t) [])]
     @ (if truthy_str (tp_container t) then [string_attribute ''container.name'' (the (tp_container t))] else [])"

definition encode :: "node_env \<Rightarrow> transport \<Rightarrow> nat list \<Rightarrow> world \<Rightarrow> json \<times> world" where
  "encode e t as w =
     (let (encoded, w) = encode_spans e as w in
      (JObj [(''resourceSpans'', JArr [JObj
         [(''resource'', JObj [(''attributes'', JArr (resource_attributes t))]),
          (''scopeSpans'', JArr [JObj [(''spans'', JArr encoded)]])]])], w))"

subsection \<open>The transport\<close>

record transport_args =
  ta_endpoint :: string
  ta_token :: "string option"
  ta_service :: "string option"
  ta_container :: "string option"
  ta_timeout :: "jsnum option"

definition createTransport :: "transport_args \<Rightarrow> transport" where
  "createTransport args =
     \<lparr>tp_endpoint = tracesUrl (ta_endpoint args), tp_token = coalesce (ta_token args) [],
      tp_service = Some (coalesce (ta_service args) []), tp_container = Some (coalesce (ta_container args) []),
      tp_timeout = coalesce (ta_timeout args) (Fin 5000)\<rparr>"

record post =
  po_url :: string
  po_method :: string
  po_headers :: "(string \<times> string) list"
  po_body :: string
  po_timeout :: jsnum

record post_answer =
  pa_ok :: bool
  pa_status :: nat

datatype transport_error = Fetch_Rejected string | Transport_Error string

definition post_headers :: "transport \<Rightarrow> (string \<times> string) list" where
  "post_headers t =
     [(''Content-Type'', ''application/json'')]
     @ (if tp_token t \<noteq> [] then [(''Authorization'', ''Bearer '' @ tp_token t)] else [])"

definition export_post :: "node_env \<Rightarrow> transport \<Rightarrow> nat \<Rightarrow> world \<Rightarrow> post \<times> world" where
  "export_post e t a w =
     (let (body, w) = encode e t [a] w in
      (\<lparr>po_url = tp_endpoint t, po_method = ''POST'', po_headers = post_headers t,
        po_body = json_stringify body, po_timeout = tp_timeout t\<rparr>, w))"

definition export_result :: "(string + post_answer) \<Rightarrow> transport_error + nat" where
  "export_result r =
     (case r of
        Inl m \<Rightarrow> Inl (Fetch_Rejected m)
      | Inr res \<Rightarrow> if \<not> pa_ok res then Inl (Transport_Error (''argus transport: '' @ nat_digits (pa_status res)))
                  else Inr (pa_status res))"

definition export ::
  "node_env \<Rightarrow> (post \<Rightarrow> string + post_answer) \<Rightarrow> transport \<Rightarrow> nat \<Rightarrow> world \<Rightarrow> (transport_error + nat) \<times> world" where
  "export e fetch t a w = (let (req, w) = export_post e t a w in (export_result (fetch req), w))"

subsection \<open>Completion happens once\<close>

definition complete :: "otlp_span \<Rightarrow> bool" where
  "complete s \<longleftrightarrow> truthy_str (tx_trace s) \<and> truthy_str (tx_span s) \<and> truthy_opt (tx_start s) \<and> truthy_opt (tx_end s)"

text \<open>The contract of \<open>randomBytes\<close>: as many bytes as asked for.\<close>

definition gives_bytes :: "node_env \<Rightarrow> bool" where
  "gives_bytes e \<longleftrightarrow> (\<forall>k n. length (random_bytes e k n) = n)"

lemma heap_write [simp]:
  "heap (write_span a s w) b = (if b = a then s else heap w b)" "ticks (write_span a s w) = ticks w"
  "heap (tick w) = heap w"
  by (simp_all add: write_span_def tick_def)

lemma length_hex [simp]: "length (hex_string bs) = 2 * length bs"
  by (induction bs) (simp_all add: hex_string_def hex_byte_def)

lemma hex_neq_Nil: "gives_bytes e \<Longrightarrow> 0 < n \<Longrightarrow> hex_string (random_bytes e k n) \<noteq> []"
proof -
  assume "gives_bytes e" "0 < n"
  then have "length (hex_string (random_bytes e k n)) \<noteq> 0" by (simp add: gives_bytes_def)
  then show ?thesis by (simp only: length_0_conv not_False_eq_True)
qed

lemma nano_truthy: "truthy_opt (Some (JStr (nowNano e k)))"
  by (simp add: truthy_opt_def nowNano_def)

lemmas fill_defs = fill_trace_def fill_span_def fill_start_def fill_end_def

lemma prepare_id: "complete (heap w a) \<Longrightarrow> prepare e a w = w"
  by (simp add: prepare_def complete_def fill_defs)

lemma prepare_other: "b \<noteq> a \<Longrightarrow> heap (prepare e a w) b = heap w b"
  by (simp add: prepare_def fill_defs)

lemma prepare_complete: "gives_bytes e \<Longrightarrow> complete (heap (prepare e a w) a)"
  by (simp add: prepare_def complete_def fill_defs hex_neq_Nil nano_truthy)

lemma prepare_again: "gives_bytes e \<Longrightarrow> prepare e a (prepare e a w) = prepare e a w"
  by (rule prepare_id [OF prepare_complete])

text \<open>What the caller gave is kept; a missing id is generated, a missing end is the start.\<close>

lemma prepare_trace:
  "tx_trace (heap (prepare e a w) a) =
     (if truthy_str (tx_trace (heap w a)) then tx_trace (heap w a) else Some (hex_string (random_bytes e (ticks w) 16)))"
  by (simp add: prepare_def fill_defs)

lemma prepare_span:
  "tx_span (heap (prepare e a w) a) =
     (if truthy_str (tx_span (heap w a)) then tx_span (heap w a)
      else Some (hex_string (random_bytes e (if truthy_str (tx_trace (heap w a)) then ticks w else Suc (ticks w)) 8)))"
  by (simp add: prepare_def fill_defs write_span_def tick_def)

lemma prepare_rest:
  "tx_parent (heap (prepare e a w) a) = tx_parent (heap w a)" "tx_name (heap (prepare e a w) a) = tx_name (heap w a)"
  "tx_correlation (heap (prepare e a w) a) = tx_correlation (heap w a)"
  "tx_kind (heap (prepare e a w) a) = tx_kind (heap w a)" "tx_status (heap (prepare e a w) a) = tx_status (heap w a)"
  "tx_attributes (heap (prepare e a w) a) = tx_attributes (heap w a)"
  "truthy_opt (tx_start (heap w a)) \<Longrightarrow> tx_start (heap (prepare e a w) a) = tx_start (heap w a)"
  "truthy_opt (tx_end (heap w a)) \<Longrightarrow> tx_end (heap (prepare e a w) a) = tx_end (heap w a)"
  by (simp_all add: prepare_def fill_defs)

subsection \<open>Encoding over the store\<close>

lemma prepare_keeps_complete: "complete (heap w b) \<Longrightarrow> heap (prepare e a w) b = heap w b"
  by (cases "b = a") (simp_all add: prepare_id prepare_other)

lemma encode_spans_keeps: "complete (heap w b) \<Longrightarrow> heap (snd (encode_spans e as w)) b = heap w b"
proof (induction as arbitrary: w)
  case (Cons a as)
  have "complete (heap (prepare e a w) b)" using Cons.prems prepare_keeps_complete by metis
  from Cons.IH [OF this] show ?case
    using prepare_keeps_complete [OF Cons.prems, of e a] by (simp add: Let_def split_beta)
qed simp

text \<open>What is encoded is the store at the end, whatever addresses repeat.\<close>

lemma encode_spans_store:
  assumes "gives_bytes e"
  shows "fst (encode_spans e as w) = map (\<lambda>a. encode_span (heap (snd (encode_spans e as w)) a)) as
    \<and> (\<forall>a\<in>set as. complete (heap (snd (encode_spans e as w)) a))"
proof (induction as arbitrary: w)
  case (Cons a as)
  have c: "complete (heap (prepare e a w) a)" by (rule prepare_complete [OF assms])
  have k: "heap (snd (encode_spans e as (prepare e a w))) a = heap (prepare e a w) a"
    by (rule encode_spans_keeps [OF c])
  show ?case using Cons.IH [of "prepare e a w"] c k by (simp add: Let_def split_beta)
qed simp

lemma encode_spans_again:
  assumes "\<forall>a\<in>set as. complete (heap w a)"
  shows "encode_spans e as w = (map (\<lambda>a. encode_span (heap w a)) as, w)"
  using assms by (induction as) (simp_all add: prepare_id)

definition document :: "transport \<Rightarrow> json list \<Rightarrow> json" where
  "document t js = JObj [(''resourceSpans'', JArr [JObj
     [(''resource'', JObj [(''attributes'', JArr (resource_attributes t))]),
      (''scopeSpans'', JArr [JObj [(''spans'', JArr js)]])]])]"

lemma encode_eq: "encode e t as w = (document t (fst (encode_spans e as w)), snd (encode_spans e as w))"
  by (simp add: encode_def document_def split_beta)

lemma encode_again:
  assumes "gives_bytes e"
  shows "encode e t as (snd (encode e t as w)) = encode e t as w"
proof -
  let ?w = "snd (encode_spans e as w)"
  have s: "fst (encode_spans e as w) = map (\<lambda>a. encode_span (heap ?w a)) as" "\<forall>a\<in>set as. complete (heap ?w a)"
    using encode_spans_store [OF assms, of as w] by auto
  have "encode_spans e as ?w = (fst (encode_spans e as w), ?w)"
    using encode_spans_again [OF s(2), of e] s(1) by simp
  then show ?thesis by (simp add: encode_eq)
qed

subsection \<open>Reading the body back\<close>

lemma textual_optional:
  "list_all (\<lambda>m. textual (snd m)) (optional_member k f v) = (case v of None \<Rightarrow> True | Some x \<Rightarrow> textual (f x))"
  by (simp add: optional_member_def split: option.split)

lemma count_small: "n \<le> 5 \<Longrightarrow> count_num (Fin (of_nat n))"
proof -
  assume "n \<le> 5"
  then have "(of_nat n :: rat) \<le> 5" using of_nat_mono [of n 5, where 'a = rat] by simp
  then show ?thesis by (simp add: count_num_def)
qed

lemma enum_value_textual:
  assumes "\<forall>n\<in>snd ` set table. n \<le> 5" "other \<le> 5"
  shows "case enum_value table key other of None \<Rightarrow> True | Some x \<Rightarrow> textual (id x)"
proof -
  have "n \<le> 5" if "map_of table k = Some n" for k n
    using assms(1) map_of_SomeD [OF that] by force
  then show ?thesis using assms(2) count_small by (auto simp: enum_value_def Let_def split: option.split)
qed

lemma string_attribute_textual: "textual (string_attribute k v)"
  by (simp add: string_attribute_def)

lemma optional_keys: "map fst (optional_member k f v) = (if v = None then [] else [k])"
  by (simp add: optional_member_def split: option.split)

lemma encode_span_textual: "textual (encode_span s)"
proof -
  have k: "case enum_value KINDS (tx_kind s) 2 of None \<Rightarrow> True | Some x \<Rightarrow> textual (id x)"
    using enum_value_textual [of KINDS 2 "tx_kind s"] by (simp add: KINDS_def)
  have c: "case enum_value STATUS (tx_status s) 0 of None \<Rightarrow> True | Some x \<Rightarrow> textual (id x)"
    using enum_value_textual [of STATUS 0 "tx_status s"] by (simp add: STATUS_def)
  let ?attrs = "JArr (map (\<lambda>(k, v). string_attribute k (js_string_opt v)) (span_attributes s))"
  let ?status = "JObj (optional_member ''code'' id (enum_value STATUS (tx_status s) 0))"
  have a: "textual ?attrs" by (auto simp: list_all_iff string_attribute_textual)
  have st: "textual ?status" unfolding textual.simps textual_optional optional_keys using c by simp
  have vs: "list_all (\<lambda>m. textual (snd m))
    [(''startTimeUnixNano'', JStr (js_string_opt (tx_start s))), (''endTimeUnixNano'', JStr (js_string_opt (tx_end s))),
     (''attributes'', ?attrs), (''status'', ?status)]"
    using a st by (simp only: list.pred_inject snd_conv textual.simps(4-6) simp_thms)
  have ks: "distinct ((if tx_trace s = None then [] else [''traceId'']) @ (if tx_span s = None then [] else [''spanId''])
    @ [''parentSpanId''] @ (if tx_name s = None then [] else [''name''])
    @ (if enum_value KINDS (tx_kind s) 2 = None then [] else [''kind''])
    @ [''startTimeUnixNano'', ''endTimeUnixNano'', ''attributes'', ''status''])"
    by simp
  have n: "list_all (\<lambda>m. textual (snd m)) (optional_member key JStr v)" for key v
    by (simp add: textual_optional split: option.split)
  have kd: "list_all (\<lambda>m. textual (snd m)) (optional_member ''kind'' id (enum_value KINDS (tx_kind s) 2))"
    using k by (simp only: textual_optional)
  have keys: "map fst [(''startTimeUnixNano'', JStr (js_string_opt (tx_start s))), (''endTimeUnixNano'', JStr (js_string_opt (tx_end s))),
     (''attributes'', ?attrs), (''status'', ?status)] = [''startTimeUnixNano'', ''endTimeUnixNano'', ''attributes'', ''status'']"
    by (simp only: list.map fst_conv)
  show ?thesis
    unfolding encode_span_def textual.simps map_append optional_keys list_all_append keys
    using ks n kd vs by (simp only: list.map fst_conv list.pred_inject snd_conv textual.simps simp_thms)
qed

lemma document_textual: "\<forall>j\<in>set js. textual j \<Longrightarrow> textual (document t js)"
  by (simp add: document_def resource_attributes_def list_all_iff string_attribute_textual)

text \<open>How a reader finds its way: members by name, elements of arrays.\<close>

definition json_member :: "string \<Rightarrow> json \<Rightarrow> json option" where
  "json_member k v = (case v of JObj ms \<Rightarrow> map_of ms k | _ \<Rightarrow> None)"

definition elements_of :: "json \<Rightarrow> json list" where
  "elements_of v = (case v of JArr xs \<Rightarrow> xs | _ \<Rightarrow> [])"

definition members_of :: "string \<Rightarrow> json \<Rightarrow> json list" where
  "members_of k v = (case json_member k v of Some x \<Rightarrow> elements_of x | None \<Rightarrow> [])"

definition json_text :: "string \<Rightarrow> json \<Rightarrow> string option" where
  "json_text k v = (case json_member k v of Some (JStr s) \<Rightarrow> Some s | _ \<Rightarrow> None)"

text \<open>All spans of a document, over all its resources and scopes.\<close>

definition document_spans :: "json \<Rightarrow> json list" where
  "document_spans doc =
     concat (map (\<lambda>r. concat (map (members_of ''spans'') (members_of ''scopeSpans'' r))) (members_of ''resourceSpans'' doc))"

definition read_attribute :: "json \<Rightarrow> string \<times> string" where
  "read_attribute v =
     (coalesce (json_text ''key'' v) [], case json_member ''value'' v of Some x \<Rightarrow> coalesce (json_text ''stringValue'' x) [] | None \<Rightarrow> [])"

lemma document_spans_eq: "document_spans (document t js) = js"
  by (simp add: document_spans_def document_def members_of_def json_member_def elements_of_def)

lemma member_of_optional:
  "map_of (optional_member k f v @ ms) k' =
     (if k' = k \<and> v \<noteq> None then Some (f (the v)) else map_of ms k')"
  by (auto simp: optional_member_def split: option.split)

lemma read_string_attribute: "read_attribute (string_attribute k v) = (k, v)"
  by (simp add: read_attribute_def string_attribute_def json_text_def json_member_def)

record sent_span =
  se_trace :: "string option"
  se_span :: "string option"
  se_parent :: "string option"
  se_name :: "string option"
  se_kind :: "json option"
  se_start :: "string option"
  se_end :: "string option"
  se_attributes :: "(string \<times> string) list"
  se_status :: "json option"

text \<open>What a reader finds in an encoded span, and what was to be sent of a span.\<close>

definition read_span :: "json \<Rightarrow> sent_span" where
  "read_span v =
     \<lparr>se_trace = json_text ''traceId'' v, se_span = json_text ''spanId'' v, se_parent = json_text ''parentSpanId'' v,
      se_name = json_text ''name'' v, se_kind = json_member ''kind'' v, se_start = json_text ''startTimeUnixNano'' v,
      se_end = json_text ''endTimeUnixNano'' v, se_attributes = map read_attribute (members_of ''attributes'' v),
      se_status = (case json_member ''status'' v of Some x \<Rightarrow> json_member ''code'' x | None \<Rightarrow> None)\<rparr>"

definition sent_of :: "otlp_span \<Rightarrow> sent_span" where
  "sent_of s =
     \<lparr>se_trace = tx_trace s, se_span = tx_span s, se_parent = Some (coalesce (tx_parent s) []), se_name = tx_name s,
      se_kind = enum_value KINDS (tx_kind s) 2, se_start = Some (js_string_opt (tx_start s)),
      se_end = Some (js_string_opt (tx_end s)),
      se_attributes = map (\<lambda>(k, v). (k, js_string_opt v)) (span_attributes s),
      se_status = enum_value STATUS (tx_status s) 0\<rparr>"

lemma member_of_object: "json_member k (JObj ms) = map_of ms k"
  by (simp add: json_member_def)

lemma map_of_one: "map_of ([(k, v)] @ ms) k' = (if k' = k then Some v else map_of ms k')"
  by simp

lemma map_of_optional: "map_of (optional_member k f v) k' = (if k' = k \<and> v \<noteq> None then Some (f (the v)) else None)"
  by (auto simp: optional_member_def split: option.split)

lemma option_of_the: "(if v \<noteq> None then Some (the v) else None) = v"
  by (cases v) simp_all

lemma encode_span_members:
  "json_text ''traceId'' (encode_span s) = tx_trace s"
  "json_text ''spanId'' (encode_span s) = tx_span s"
  "json_text ''parentSpanId'' (encode_span s) = Some (coalesce (tx_parent s) [])"
  "json_text ''name'' (encode_span s) = tx_name s"
  "json_member ''kind'' (encode_span s) = enum_value KINDS (tx_kind s) 2"
  "json_text ''startTimeUnixNano'' (encode_span s) = Some (js_string_opt (tx_start s))"
  "json_text ''endTimeUnixNano'' (encode_span s) = Some (js_string_opt (tx_end s))"
  "members_of ''attributes'' (encode_span s)
     = map (\<lambda>(k, v). string_attribute k (js_string_opt v)) (span_attributes s)"
  "json_member ''status'' (encode_span s) = Some (JObj (optional_member ''code'' id (enum_value STATUS (tx_status s) 0)))"
  unfolding json_text_def members_of_def encode_span_def member_of_object member_of_optional map_of_one
  by (cases "tx_trace s"; cases "tx_span s"; cases "tx_name s"; simp add: elements_of_def; fail | simp add: elements_of_def)+

lemma read_encode_span: "read_span (encode_span s) = sent_of s"
proof -
  have st: "json_member ''code'' (JObj (optional_member ''code'' id v)) = v" for v
    unfolding member_of_object map_of_optional by (cases v) simp_all
  have at: "map read_attribute (map (\<lambda>(k, v). string_attribute k (js_string_opt v)) xs)
    = map (\<lambda>(k, v). (k, js_string_opt v)) xs" for xs
    by (simp add: split_beta read_string_attribute)
  show ?thesis by (simp only: read_span_def sent_of_def encode_span_members st at option.case)
qed

text \<open>The attributes of an object are those of the caller and the correlation id.\<close>

lemma map_of_same: "set xs = set ys \<Longrightarrow> distinct (map fst xs) \<Longrightarrow> distinct (map fst ys) \<Longrightarrow> map_of xs = map_of ys"
  by (metis map_of_eqI map_of_eq_Some_iff option.exhaust fun_eq_iff map_of_eq_None_iff)

lemma entries_keys: "distinct (map fst ms) \<Longrightarrow> distinct (map fst (object_entries ms))"
  by (auto simp: object_entries_def distinct_map intro: inj_on_subset)

lemma map_of_entries: "distinct (map fst ms) \<Longrightarrow> map_of (object_entries ms) = map_of ms"
  by (intro map_of_same entries_keys) (auto simp: object_entries_def)

lemma keys_map_set: "distinct (map fst ms) \<Longrightarrow> distinct (map fst (map_set k v ms))"
  using map_keys_set [of k v ms] by (auto simp: map_keys_def)

lemma span_attributes_keys:
  "distinct (map fst (coalesce (tx_attributes s) [])) \<Longrightarrow> distinct (map fst (span_attributes s))"
  by (simp add: span_attributes_def Let_def entries_keys keys_map_set)

lemma span_attributes_get:
  assumes "distinct (map fst (coalesce (tx_attributes s) []))"
  shows "map_of (span_attributes s) k =
    (if k = ''argus.correlation_id'' \<and> truthy_str (tx_correlation s) then Some (Some (JStr (the (tx_correlation s))))
     else map_of (coalesce (tx_attributes s) []) k)"
proof -
  have "map_of (map_set k v ms) k' = (if k' = k then Some v else map_of ms k')"
    for k v k' and ms :: "(string \<times> json option) list"
    using map_get_set [of k v ms k'] by (simp add: map_get_def)
  then show ?thesis using assms by (simp add: span_attributes_def Let_def map_of_entries keys_map_set)
qed

subsection \<open>Identifiers\<close>

definition is_hex :: "char \<Rightarrow> bool" where
  "is_hex c \<longleftrightarrow> c \<in> set ''0123456789abcdef''"

lemma is_hex_lower:
  assumes "k < 16"
  shows "is_hex (hex_lower k)"
proof -
  have "list_all (\<lambda>k. is_hex (hex_lower k)) [0..<16]" by code_simp
  with assms show ?thesis by (simp only: list_all_iff set_upt atLeastLessThan_iff) simp
qed

lemma hex_string_hex: "c \<in> set (hex_string bs) \<Longrightarrow> is_hex c"
proof -
  have "unat b div 16 < 16" "unat b mod 16 < 16" for b :: "8 word"
    using unsigned_less [of b, where 'a = nat] by simp_all
  then show "c \<in> set (hex_string bs) \<Longrightarrow> is_hex c"
    by (auto simp: hex_string_def hex_byte_def is_hex_lower)
qed

lemma tracesUrl_shape: "ends_with (tracesUrl s) ''/v1/traces''"
  by (simp add: tracesUrl_def Let_def ends_with_def)

lemma ends_with_iff: "ends_with s p \<longleftrightarrow> (\<exists>t. s = t @ p)"
proof -
  have "(\<exists>t. rev s = rev p @ t) \<longleftrightarrow> (\<exists>t. s = t @ p)" by (metis rev_append rev_rev_ident)
  then show ?thesis by (simp add: ends_with_def starts_with_iff)
qed

lemma tracesUrl_idem: "tracesUrl (tracesUrl s) = tracesUrl s"
proof -
  obtain t where "tracesUrl s = t @ ''/v1/traces''" using tracesUrl_shape [of s] ends_with_iff by blast
  then have "strip_slash (tracesUrl s) = tracesUrl s" by (simp add: strip_slash_def)
  then show ?thesis using tracesUrl_shape [of s] by (simp add: tracesUrl_def [of "tracesUrl s"])
qed

lemma encode_reads_back:
  assumes "gives_bytes e" "encode e t as w = (body, w')"
  obtains doc where "json_parse (json_stringify body) = Some doc"
    and "map read_span (document_spans doc) = map (\<lambda>a. sent_of (heap w' a)) as"
    and "\<forall>a\<in>set as. complete (heap w' a)"
proof (rule that [of body])
  have b: "body = document t (fst (encode_spans e as w))" and w: "w' = snd (encode_spans e as w)"
    using assms(2) by (simp_all add: encode_eq)
  have s: "fst (encode_spans e as w) = map (\<lambda>a. encode_span (heap w' a)) as"
    and c: "\<forall>a\<in>set as. complete (heap w' a)"
    using encode_spans_store [OF assms(1), of as w] unfolding w by auto
  show "json_parse (json_stringify body) = Some body"
    unfolding b s by (intro json_parse_stringify document_textual) (simp add: encode_span_textual)
  show "map read_span (document_spans body) = map (\<lambda>a. sent_of (heap w' a)) as"
    unfolding b document_spans_eq s by (simp add: read_encode_span)
  show "\<forall>a\<in>set as. complete (heap w' a)" by (rule c)
qed

subsection \<open>Properties\<close>

text \<open>What the transport posts is what a reader of the text finds: the body of \<open>encode\<close>, written and
  parsed again, holds one span for each given one, in their order, with the ids and times the spans have
  in the store afterwards, the parent, name and attributes of the caller, the correlation id among the
  attributes, and the codes of kind and status.\<close>

theorem transport_body_round_trip:
  assumes "gives_bytes e" "encode e t as w = (body, w')"
  shows "\<exists>doc. json_parse (json_stringify body) = Some doc
    \<and> map read_span (document_spans doc) = map (\<lambda>a. sent_of (heap w' a)) as
    \<and> (\<forall>a\<in>set as. complete (heap w' a))"
  using encode_reads_back [OF assms] by blast

definition sample_node :: node_env where
  "sample_node = \<lparr>random_bytes = (\<lambda>k n. replicate n (of_nat (k + 10))), date_now = (\<lambda>k. 1700000000000)\<rparr>"

definition bare_span :: otlp_span where
  "bare_span = \<lparr>tx_trace = None, tx_span = None, tx_parent = None, tx_name = Some ''GET /orders'', tx_correlation = Some ''corr-1'',
     tx_kind = Some ''client'', tx_status = Some ''error'', tx_start = None, tx_end = None,
     tx_attributes = Some [(''http.route'', Some (JStr ''/orders''))]\<rparr>"

definition sample_world :: world where
  "sample_world = \<lparr>heap = (\<lambda>_. bare_span), ticks = 0\<rparr>"

definition sample_args :: transport_args where
  "sample_args = \<lparr>ta_endpoint = ''http://hub:8080/'', ta_token = Some ''secret'', ta_service = Some ''orders'',
     ta_container = None, ta_timeout = None\<rparr>"

definition sample_transport :: transport where
  "sample_transport = createTransport sample_args"

lemma sample_bytes: "gives_bytes sample_node"
  by (simp add: gives_bytes_def sample_node_def)

lemma transport_body_round_trip_witness:
  "\<exists>doc. json_parse (json_stringify (fst (encode sample_node sample_transport [0, 1, 0] sample_world))) = Some doc
    \<and> length (document_spans doc) = 3"
proof -
  obtain doc where d: "json_parse (json_stringify (fst (encode sample_node sample_transport [0, 1, 0] sample_world))) = Some doc"
    "map read_span (document_spans doc)
      = map (\<lambda>a. sent_of (heap (snd (encode sample_node sample_transport [0, 1, 0] sample_world)) a)) [0, 1, 0]"
    using transport_body_round_trip [OF sample_bytes prod.collapse [symmetric]] by blast
  have "length (document_spans doc) = 3" using arg_cong [OF d(2), of length] by (simp only: length_map list.size)
  with d(1) show ?thesis by blast
qed

text \<open>C10. Exporting a span settles it: sending it again posts the very same request, asking for the headers
  afterwards changes nothing, and the \<open>traceparent\<close> of the next hop names the ids that were posted.\<close>

theorem transport_retry_same_span:
  assumes "gives_bytes e" "export_post e t a w = (req, w')"
  shows "export_post e t a w' = (req, w')
    \<and> headers e a w' = (span_headers (heap w' a), w')
    \<and> (\<exists>doc tid sid. json_parse (po_body req) = Some doc
      \<and> map (\<lambda>s. (se_trace s, se_span s)) (map read_span (document_spans doc)) = [(Some tid, Some sid)]
      \<and> (\<forall>p. (''traceparent'', p) \<in> set (span_headers (heap w' a)) \<longrightarrow> p = traceparent tid sid))"
proof (intro conjI)
  have w: "w' = snd (encode e t [a] w)" and b: "po_body req = json_stringify (fst (encode e t [a] w))"
    using assms(2) by (auto simp: export_post_def split_beta)
  show "export_post e t a w' = (req, w')"
    using assms(2) encode_again [OF assms(1), of t "[a]" w] unfolding w by (simp add: export_post_def split_beta)
  obtain doc where d: "json_parse (po_body req) = Some doc"
    "map read_span (document_spans doc) = map (\<lambda>a. sent_of (heap w' a)) [a]" and "\<forall>x\<in>set [a]. complete (heap w' x)"
    using encode_reads_back [OF assms(1) prod.collapse [symmetric], of t "[a]" w] unfolding w b by blast
  then have c: "complete (heap w' a)" by simp
  then obtain tid sid where ids: "tx_trace (heap w' a) = Some tid" "tx_span (heap w' a) = Some sid"
    by (cases "tx_trace (heap w' a)"; cases "tx_span (heap w' a)") (auto simp: complete_def)
  show "headers e a w' = (span_headers (heap w' a), w')" by (simp add: headers_def prepare_id [OF c])
  show "\<exists>doc tid sid. json_parse (po_body req) = Some doc
      \<and> map (\<lambda>s. (se_trace s, se_span s)) (map read_span (document_spans doc)) = [(Some tid, Some sid)]
      \<and> (\<forall>p. (''traceparent'', p) \<in> set (span_headers (heap w' a)) \<longrightarrow> p = traceparent tid sid)"
    using d ids by (intro exI [of _ doc] exI [of _ tid] exI [of _ sid]) (auto simp: span_headers_def sent_of_def split: if_splits)
qed

lemma transport_retry_same_span_witness:
  "\<exists>req w'. export_post sample_node sample_transport 0 sample_world = (req, w')
    \<and> export_post sample_node sample_transport 0 w' = (req, w')"
proof -
  obtain req w' where r: "export_post sample_node sample_transport 0 sample_world = (req, w')" by (rule prod.exhaust)
  show ?thesis using transport_retry_same_span [OF sample_bytes r] r by blast
qed

text \<open>C32. The headers of a span have the format of the README: at most one \<open>traceparent\<close>, present exactly when
  the ids have 32 and 16 characters, which is \<open>00-{traceId}-{spanId}-01\<close>, 55 characters long; ids that were missing are generated as lower-case
  hexadecimal of these lengths, so a span without ids always has one; the correlation id is passed on when
  it is not empty; and the ids the caller gave are those that are named.\<close>

theorem transport_headers_format:
  assumes "gives_bytes e" "headers e a w = (hs, w')" "s = heap w a"
  shows "(\<exists>tid sid. tx_trace (heap w' a) = Some tid \<and> tx_span (heap w' a) = Some sid
      \<and> map_of hs ''traceparent'' = (if length tid = 32 \<and> length sid = 16 then Some (''00-'' @ tid @ ''-'' @ sid @ ''-01'') else None)
      \<and> length (''00-'' @ tid @ ''-'' @ sid @ ''-01'') = length tid + length sid + 7
      \<and> (if truthy_str (tx_trace s) then tx_trace s = Some tid else length tid = 32 \<and> (\<forall>c\<in>set tid. is_hex c))
      \<and> (if truthy_str (tx_span s) then tx_span s = Some sid else length sid = 16 \<and> (\<forall>c\<in>set sid. is_hex c)))
    \<and> map_of hs ''X-Correlation-Id'' = (if truthy_str (tx_correlation s) then tx_correlation s else None)
    \<and> distinct (map fst hs)"
proof -
  have w: "w' = prepare e a w" and hs: "hs = span_headers (heap (prepare e a w) a)"
    using assms(2) by (auto simp: headers_def Let_def)
  have c: "complete (heap w' a)" unfolding w by (rule prepare_complete [OF assms(1)])
  then obtain tid sid where ids: "tx_trace (heap w' a) = Some tid" "tx_span (heap w' a) = Some sid"
    by (cases "tx_trace (heap w' a)"; cases "tx_span (heap w' a)") (auto simp: complete_def)
  have t: "if truthy_str (tx_trace s) then tx_trace s = Some tid else length tid = 32 \<and> (\<forall>c\<in>set tid. is_hex c)"
    using ids(1) assms(1) hex_string_hex unfolding w prepare_trace assms(3) by (auto simp: gives_bytes_def split: if_splits)
  have d: "if truthy_str (tx_span s) then tx_span s = Some sid else length sid = 16 \<and> (\<forall>c\<in>set sid. is_hex c)"
    using ids(2) assms(1) hex_string_hex unfolding w prepare_span assms(3) by (auto simp: gives_bytes_def split: if_splits)
  have cor: "tx_correlation (heap w' a) = tx_correlation s" unfolding w assms(3) by (rule prepare_rest)
  have co: "(if truthy_str v then Some (the v) else None) = (if truthy_str v then v else None)" for v
    by (cases v) simp_all
  have m: "map_of hs ''traceparent'' = (if length tid = 32 \<and> length sid = 16 then Some (''00-'' @ tid @ ''-'' @ sid @ ''-01'') else None)"
    "map_of hs ''X-Correlation-Id'' = (if truthy_str (tx_correlation s) then tx_correlation s else None)"
    "distinct (map fst hs)"
    unfolding hs span_headers_def w [symmetric] ids cor by (auto simp: co [symmetric] traceparent_def)
  have l: "length (''00-'' @ tid @ ''-'' @ sid @ ''-01'') = length tid + length sid + 7" by simp
  show ?thesis using ids m t d l by blast
qed

lemma transport_headers_format_witness:
  "length (the (map_of (fst (headers sample_node 0 sample_world)) ''traceparent'')) = 55
   \<and> map_of (fst (headers sample_node 0 sample_world)) ''X-Correlation-Id'' = Some ''corr-1''"
proof -
  have b: "\<not> truthy_str (tx_trace (heap sample_world 0))" "\<not> truthy_str (tx_span (heap sample_world 0))"
    "tx_correlation (heap sample_world 0) = Some ''corr-1''"
    by (simp_all add: sample_world_def bare_span_def)
  show ?thesis
    using transport_headers_format [OF sample_bytes prod.collapse [symmetric] refl, of 0 sample_world] b by auto
qed

text \<open>An export makes one POST to the traces address of the endpoint, which appending the path again
  would not change, with the token as a bearer exactly when there is one, and settles as the answer says: a rejected
  fetch is passed on, a status that is not ok is an error naming it, and only an answer that is ok is a success.\<close>

theorem transport_export_outcome:
  assumes "t = createTransport args" "export_post e t a w = (req, w')"
  shows "export e fetch t a w =
      (case fetch req of
         Inl m \<Rightarrow> Inl (Fetch_Rejected m)
       | Inr res \<Rightarrow> if pa_ok res then Inr (pa_status res)
                   else Inl (Transport_Error (''argus transport: '' @ nat_digits (pa_status res))), w')
    \<and> po_method req = ''POST'' \<and> po_url req = tracesUrl (ta_endpoint args)
    \<and> tracesUrl (po_url req) = po_url req \<and> ends_with (po_url req) ''/v1/traces''
    \<and> map_of (po_headers req) ''Content-Type'' = Some ''application/json''
    \<and> map_of (po_headers req) ''Authorization''
        = (if truthy_str (ta_token args) then Some (''Bearer '' @ the (ta_token args)) else None)"
proof -
  have req: "po_method req = ''POST''" "po_url req = tracesUrl (ta_endpoint args)" "po_headers req = post_headers t"
    using assms by (auto simp: export_post_def createTransport_def split_beta)
  have tok: "tp_token t = coalesce (ta_token args) []" using assms(1) by (simp add: createTransport_def)
  have h: "map_of (post_headers t) ''Content-Type'' = Some ''application/json''"
    "map_of (post_headers t) ''Authorization''
      = (if truthy_str (ta_token args) then Some (''Bearer '' @ the (ta_token args)) else None)"
    unfolding post_headers_def tok by (cases "ta_token args"; simp)+
  have x: "export e fetch t a w = (export_result (fetch req), w')"
    using assms(2) by (simp add: export_def)
  show ?thesis
    unfolding req h x by (auto simp: export_result_def tracesUrl_idem tracesUrl_shape split: sum.split)
qed

lemma transport_export_outcome_witness:
  "fst (export sample_node (\<lambda>_. Inr \<lparr>pa_ok = False, pa_status = 401\<rparr>) sample_transport 0 sample_world)
     = Inl (Transport_Error (''argus transport: '' @ nat_digits 401))"
proof -
  obtain req w' where r: "export_post sample_node sample_transport 0 sample_world = (req, w')" by (rule prod.exhaust)
  show ?thesis
    using transport_export_outcome [OF sample_transport_def r, of "\<lambda>_. Inr \<lparr>pa_ok = False, pa_status = 401\<rparr>"] by simp
qed

end
