(* ===== verification/Go_Text.thy ===== *)
theory Go_Text
  imports Js_String
begin

text \<open>
  The string functions of Go that the handlers of the hub use, on the same strings as the panel's: \<open>strings.TrimSpace\<close>,
  which unlike \<open>trim\<close> also takes the control character \<open>0085\<close> for a space, and \<open>strings.TrimPrefix\<close>.
\<close>

definition go_space :: "char \<Rightarrow> bool" where
  "go_space c = (is_space c \<or> code_unit c = 133)"

definition go_trim :: "string \<Rightarrow> string" where
  "go_trim s = rev (dropWhile go_space (rev (dropWhile go_space s)))"

definition trim_prefix :: "string \<Rightarrow> string \<Rightarrow> string" where
  "trim_prefix p s = (if starts_with s p then drop (length p) s else s)"

lemma trim_prefix_append: "trim_prefix p (p @ s) = s"
  by (simp add: trim_prefix_def)

lemma go_trim_id: "s \<noteq> [] \<Longrightarrow> \<not> go_space (hd s) \<Longrightarrow> \<not> go_space (last s) \<Longrightarrow> go_trim s = s"
proof -
  assume s: "s \<noteq> []" "\<not> go_space (hd s)" "\<not> go_space (last s)"
  then have "dropWhile go_space s = s" by (cases s) auto
  moreover have "dropWhile go_space (rev s) = rev s"
    using s by (cases "rev s") (auto simp: last_rev [symmetric] hd_rev)
  ultimately show ?thesis by (simp add: go_trim_def)
qed

lemma go_space_plain: "is_digit c \<or> c \<in> {CHR ''-'', CHR ''+'', CHR ''Z''} \<Longrightarrow> \<not> go_space c"
  by (auto simp: go_space_def is_space_def is_digit_def Let_def)

lemma go_trim_plain: "(\<And>c. c \<in> set s \<Longrightarrow> \<not> go_space c) \<Longrightarrow> go_trim s = s"
  by (cases "s = []") (simp add: go_trim_def, simp add: go_trim_id)

end
