(* ===== verification/Otlp_Ingest.thy ===== *)
theory Otlp_Ingest
  imports Transport Url Go_Text
begin

text \<open>
  What the hub makes of the spans it is sent: \<open>internal/otel/ingest.go\<close> and the handler of \<open>otlp.go\<close> with the check
  of the token (\<open>auth\<close> in \<open>server.go\<close>). The text is parsed as JSON; decoding into Go's structs ignores unknown
  members, takes names in any case, leaves \<open>null\<close> and missing members at their zero values and fails on a value of another
  type. Bytes of a string are counted in UTF-8, instants are nanoseconds in 64 bits, a zero time is None. Then the
  transport is run against it.
\<close>

subsection \<open>Decoding into structs\<close>

datatype 'a decoded = Bad_Type | Got 'a

definition bind_got :: "'a decoded \<Rightarrow> ('a \<Rightarrow> 'b decoded) \<Rightarrow> 'b decoded" where
  "bind_got d f = (case d of Bad_Type \<Rightarrow> Bad_Type | Got x \<Rightarrow> f x)"

fun all_got :: "'a decoded list \<Rightarrow> 'a list decoded" where
  "all_got [] = Got []"
| "all_got (d # ds) = bind_got d (\<lambda>x. bind_got (all_got ds) (\<lambda>xs. Got (x # xs)))"

text \<open>The member that sets a field: the last one of its name that is not \<open>null\<close>. (Go merges two objects given for one
  field; bodies that name a field twice are outside the model, as are numbers written with a fraction or an exponent,
  which Go refuses for an integer field whatever their value.)\<close>

definition go_field :: "string \<Rightarrow> (string \<times> json) list \<Rightarrow> json option" where
  "go_field k ms = map_of (rev (filter (\<lambda>(n, v). v \<noteq> JNull) (map (\<lambda>(n, v). (to_lower n, v)) ms))) (to_lower k)"

definition struct_of :: "json \<Rightarrow> (string \<times> json) list decoded" where
  "struct_of v = (case v of JObj ms \<Rightarrow> Got ms | JNull \<Rightarrow> Got [] | _ \<Rightarrow> Bad_Type)"

definition get_struct :: "string \<Rightarrow> (string \<times> json) list \<Rightarrow> (string \<times> json) list decoded" where
  "get_struct k ms = (case go_field k ms of None \<Rightarrow> Got [] | Some v \<Rightarrow> struct_of v)"

definition get_string :: "string \<Rightarrow> (string \<times> json) list \<Rightarrow> string decoded" where
  "get_string k ms = (case go_field k ms of None \<Rightarrow> Got [] | Some (JStr s) \<Rightarrow> Got s | Some _ \<Rightarrow> Bad_Type)"

definition get_int :: "string \<Rightarrow> (string \<times> json) list \<Rightarrow> int decoded" where
  "get_int k ms = (case go_field k ms of
       None \<Rightarrow> Got 0
     | Some (JNum (Fin x)) \<Rightarrow> if x = of_int \<lfloor>x\<rfloor> \<and> - (2 ^ 63) \<le> \<lfloor>x\<rfloor> \<and> \<lfloor>x\<rfloor> < 2 ^ 63 then Got \<lfloor>x\<rfloor> else Bad_Type
     | Some _ \<Rightarrow> Bad_Type)"

definition get_list :: "string \<Rightarrow> ((string \<times> json) list \<Rightarrow> 'a decoded) \<Rightarrow> (string \<times> json) list \<Rightarrow> 'a list decoded" where
  "get_list k f ms = (case go_field k ms of
       None \<Rightarrow> Got []
     | Some (JArr xs) \<Rightarrow> all_got (map (\<lambda>x. bind_got (struct_of x) f) xs)
     | Some _ \<Rightarrow> Bad_Type)"

record otlp_attr =
  oa_key :: string
  oa_string :: string
  oa_int :: string

record wire_span =
  ws_trace :: string
  ws_span :: string
  ws_parent :: string
  ws_name :: string
  ws_kind :: int
  ws_start :: string
  ws_end :: string
  ws_attributes :: "otlp_attr list"
  ws_code :: int

record resource_spans =
  rs_attributes :: "otlp_attr list"
  rs_scopes :: "wire_span list list"

definition decode_attr :: "(string \<times> json) list \<Rightarrow> otlp_attr decoded" where
  "decode_attr ms =
     bind_got (get_string ''key'' ms) (\<lambda>k.
     bind_got (get_struct ''value'' ms) (\<lambda>v.
     bind_got (get_string ''stringValue'' v) (\<lambda>s.
     bind_got (get_string ''intValue'' v) (\<lambda>i.
       Got \<lparr>oa_key = k, oa_string = s, oa_int = i\<rparr>))))"

definition decode_span :: "(string \<times> json) list \<Rightarrow> wire_span decoded" where
  "decode_span ms =
     bind_got (get_string ''traceId'' ms) (\<lambda>tid.
     bind_got (get_string ''spanId'' ms) (\<lambda>sid.
     bind_got (get_string ''parentSpanId'' ms) (\<lambda>pid.
     bind_got (get_string ''name'' ms) (\<lambda>name.
     bind_got (get_int ''kind'' ms) (\<lambda>kind.
     bind_got (get_string ''startTimeUnixNano'' ms) (\<lambda>st.
     bind_got (get_string ''endTimeUnixNano'' ms) (\<lambda>en.
     bind_got (get_list ''attributes'' decode_attr ms) (\<lambda>attrs.
     bind_got (get_struct ''status'' ms) (\<lambda>status.
     bind_got (get_int ''code'' status) (\<lambda>code.
       Got \<lparr>ws_trace = tid, ws_span = sid, ws_parent = pid, ws_name = name, ws_kind = kind, ws_start = st,
            ws_end = en, ws_attributes = attrs, ws_code = code\<rparr>))))))))))"

definition decode_resource :: "(string \<times> json) list \<Rightarrow> resource_spans decoded" where
  "decode_resource ms =
     bind_got (get_struct ''resource'' ms) (\<lambda>r.
     bind_got (get_list ''attributes'' decode_attr r) (\<lambda>attrs.
     bind_got (get_list ''scopeSpans'' (get_list ''spans'' decode_span) ms) (\<lambda>scopes.
       Got \<lparr>rs_attributes = attrs, rs_scopes = scopes\<rparr>)))"

subsection \<open>Identifiers and times\<close>

definition go_len :: "string \<Rightarrow> nat" where
  "go_len s = length (concat (map utf8 s))"

definition isHex :: "string \<Rightarrow> bool" where
  "isHex s \<longleftrightarrow> list_all (\<lambda>c. let n = code_unit c in (48 \<le> n \<and> n \<le> 57) \<or> (97 \<le> n \<and> n \<le> 102) \<or> (65 \<le> n \<and> n \<le> 70)) s"

text \<open>\<open>encoding/base64\<close> with and without padding; line ends are skipped.\<close>

definition b64_val :: "char \<Rightarrow> nat option" where
  "b64_val c = (let n = code_unit c in
     if 65 \<le> n \<and> n \<le> 90 then Some (n - 65)
     else if 97 \<le> n \<and> n \<le> 122 then Some (n - 71)
     else if 48 \<le> n \<and> n \<le> 57 then Some (n + 4)
     else if n = 43 then Some 62 else if n = 47 then Some 63 else None)"

definition b64_triple :: "nat \<Rightarrow> nat \<Rightarrow> nat \<Rightarrow> nat \<Rightarrow> nat list" where
  "b64_triple a b c d = [a * 4 + b div 16, (b mod 16) * 16 + c div 4, (c mod 4) * 64 + d]"

fun b64_decode :: "bool \<Rightarrow> string \<Rightarrow> nat list option" where
  "b64_decode padded (a # b # c # d # r) =
     (case (b64_val a, b64_val b, b64_val c, b64_val d) of
        (Some x, Some y, Some z, Some w) \<Rightarrow> map_option ((@) (b64_triple x y z w)) (b64_decode padded r)
      | (Some x, Some y, Some z, None) \<Rightarrow>
          if padded \<and> d = CHR ''='' \<and> r = [] then Some (take 2 (b64_triple x y z 0)) else None
      | (Some x, Some y, None, _) \<Rightarrow>
          if padded \<and> c = CHR ''='' \<and> d = CHR ''='' \<and> r = [] then Some (take 1 (b64_triple x y 0 0)) else None
      | _ \<Rightarrow> None)"
| "b64_decode padded [a, b, c] =
     (case (b64_val a, b64_val b, b64_val c) of
        (Some x, Some y, Some z) \<Rightarrow> if padded then None else Some (take 2 (b64_triple x y z 0)) | _ \<Rightarrow> None)"
| "b64_decode padded [a, b] =
     (case (b64_val a, b64_val b) of
        (Some x, Some y) \<Rightarrow> if padded then None else Some (take 1 (b64_triple x y 0 0)) | _ \<Rightarrow> None)"
| "b64_decode padded [a] = None"
| "b64_decode padded [] = Some []"

definition base64_bytes :: "string \<Rightarrow> nat list option" where
  "base64_bytes raw =
     (let s = filter (\<lambda>c. code_unit c \<noteq> 10 \<and> code_unit c \<noteq> 13) raw in
      case b64_decode True s of Some b \<Rightarrow> Some b | None \<Rightarrow> b64_decode False s)"

definition hex_encode :: "nat list \<Rightarrow> string" where
  "hex_encode bs = concat (map (\<lambda>b. [hex_lower (b div 16), hex_lower (b mod 16)]) bs)"

definition decodeID :: "string \<Rightarrow> string" where
  "decodeID raw0 =
     (let raw = go_trim raw0 in
      if raw = [] then []
      else if go_len raw = 32 \<and> isHex raw then to_lower raw
      else if go_len raw = 36 \<and> length (filter (\<lambda>c. c = CHR ''-'') raw) = 4
        then filter (\<lambda>c. c \<noteq> CHR ''-'') (to_lower raw)
      else case base64_bytes raw of
             Some b \<Rightarrow> if b \<noteq> [] then hex_encode b else to_lower raw
           | None \<Rightarrow> to_lower raw)"

text \<open>The digits are added up in 64 bits, which wrap.\<close>

definition nanoTime :: "string \<Rightarrow> int option" where
  "nanoTime raw0 =
     (let raw = go_trim raw0 in
      if raw = [] \<or> \<not> list_all is_digit raw then None
      else let n = sint (foldl (\<lambda>n c. n * 10 + of_nat (digit_val c)) (0 :: 64 word) raw)
           in if n \<le> 0 then None else Some n)"

subsection \<open>Spans\<close>

definition attrVal :: "otlp_attr \<Rightarrow> string" where
  "attrVal a = (if oa_string a \<noteq> [] then oa_string a else oa_int a)"

fun attrString :: "otlp_attr list \<Rightarrow> string list \<Rightarrow> string" where
  "attrString attrs [] = []"
| "attrString attrs (k # ks) =
     (case List.find (\<lambda>a. oa_key a = k \<and> attrVal a \<noteq> []) attrs of Some a \<Rightarrow> attrVal a | None \<Rightarrow> attrString attrs ks)"

definition spanKindName :: "int \<Rightarrow> string" where
  "spanKindName kind = coalesce
     (map_of [(1, ''internal''), (2, ''server''), (3, ''client''), (4, ''producer''), (5, ''consumer'')] kind) ''unspecified''"

definition firstNonEmpty :: "string list \<Rightarrow> string" where
  "firstNonEmpty vs = coalesce (List.find (\<lambda>v. go_trim v \<noteq> []) vs) []"

record hub_span =
  hp_trace :: string
  hp_span :: string
  hp_parent :: string
  hp_name :: string
  hp_service :: string
  hp_container :: string
  hp_start :: "int option"
  hp_end :: "int option"
  hp_duration_ms :: int
  hp_status :: string
  hp_kind :: string
  hp_source :: string
  hp_attributes :: "(string \<times> string) list"

definition span_duration :: "int option \<Rightarrow> int option \<Rightarrow> int" where
  "span_duration st en = (case (st, en) of (Some s, Some f) \<Rightarrow> if f > s then (f - s) div 1000000 else 0 | _ \<Rightarrow> 0)"

definition hub_span_of :: "string \<Rightarrow> string \<Rightarrow> wire_span \<Rightarrow> hub_span" where
  "hub_span_of service container sp =
     (let st = nanoTime (ws_start sp); en = nanoTime (ws_end sp) in
      \<lparr>hp_trace = decodeID (ws_trace sp), hp_span = decodeID (ws_span sp), hp_parent = decodeID (ws_parent sp),
       hp_name = ws_name sp, hp_service = firstNonEmpty [service, attrString (ws_attributes sp) [''service.name'']],
       hp_container = container, hp_start = st, hp_end = en, hp_duration_ms = span_duration st en,
       hp_status = (if ws_code sp = 1 then ''ok'' else if ws_code sp = 2 then ''error'' else ''unset''),
       hp_kind = spanKindName (ws_kind sp), hp_source = ''otlp'',
       hp_attributes = foldl (\<lambda>m a. if attrVal a \<noteq> [] then map_set (oa_key a) (attrVal a) m else m) [] (ws_attributes sp)\<rparr>)"

definition resource_hub_spans :: "resource_spans \<Rightarrow> hub_span list" where
  "resource_hub_spans rs =
     (let service = attrString (rs_attributes rs) [''service.name''];
          container = attrString (rs_attributes rs) [''container.id'', ''container.name'']
      in map (hub_span_of service container)
           (filter (\<lambda>sp. decodeID (ws_trace sp) \<noteq> [] \<and> decodeID (ws_span sp) \<noteq> []) (concat (rs_scopes rs))))"

text \<open>None is an error of the decoder.\<close>

definition ParseOTLPTracesJSON :: "string \<Rightarrow> hub_span list option" where
  "ParseOTLPTracesJSON body =
     (case json_parse body of
        None \<Rightarrow> None
      | Some doc \<Rightarrow>
          (case bind_got (struct_of doc) (get_list ''resourceSpans'' decode_resource) of
             Bad_Type \<Rightarrow> None
           | Got rss \<Rightarrow> Some (concat (map resource_hub_spans rss))))"

subsection \<open>The handler\<close>

text \<open>\<open>auth\<close>: an empty token of the hub lets everyone in.\<close>

definition auth :: "string \<Rightarrow> (string \<times> string) list \<Rightarrow> bool" where
  "auth agent_token hs =
     (agent_token = [] \<or> trim_prefix ''Bearer '' (coalesce (map_of hs ''Authorization'') []) = agent_token)"

datatype store_answer = Write_Failed | Already_Applied | Batch_Applied

text \<open>
  The body as the handler reads it: \<open>MaxBytesReader\<close> fails on a body above the hub's own limit unless reading stops
  before that at four megabytes, where the rest is cut off. (A letter cut in two leaves no JSON either way; it is dropped.)
\<close>

definition read_body :: "nat \<Rightarrow> string \<Rightarrow> string option" where
  "read_body MaxBodyBytes b =
     (let bytes = concat (map utf8 b); n = 4 * 2 ^ 20 in
      if MaxBodyBytes < length bytes \<and> MaxBodyBytes < n then None
      else if length bytes \<le> n then Some b
      else case utf8_decode (take n bytes) of Some s \<Rightarrow> Some s | None \<Rightarrow> utf8_decode (take (n - 1) bytes))"

text \<open>The status of an answer with the spans handed to the store. The body is None when it cannot be read, a slot is
  there unless too many writes run at once.\<close>

definition handleOTLPTraces :: "string option \<Rightarrow> (hub_span list \<Rightarrow> store_answer) \<Rightarrow> nat \<times> hub_span list" where
  "handleOTLPTraces body store =
     (case body of
        None \<Rightarrow> (400, [])
      | Some b \<Rightarrow>
          (case ParseOTLPTracesJSON b of
             None \<Rightarrow> (400, [])
           | Some spans \<Rightarrow>
               if spans = [] then (200, [])
               else (case store spans of
                       Write_Failed \<Rightarrow> (500, []) | Already_Applied \<Rightarrow> (200, []) | Batch_Applied \<Rightarrow> (200, spans))))"

definition ingest :: "string \<Rightarrow> bool \<Rightarrow> (string \<times> string) list \<Rightarrow> nat \<times> hub_span list \<Rightarrow> nat \<times> hub_span list" where
  "ingest agent_token slot hs answer =
     (if \<not> auth agent_token hs then (401, []) else if \<not> slot then (503, []) else answer)"

text \<open>The hub as the other end of the transport's \<open>fetch\<close>.\<close>

record hub_config =
  AgentToken :: string
  MaxBodyBytes :: nat

definition hub_serves :: "hub_config \<Rightarrow> bool \<Rightarrow> (hub_span list \<Rightarrow> store_answer) \<Rightarrow> post \<Rightarrow> nat \<times> hub_span list" where
  "hub_serves cfg slot store req =
     ingest (AgentToken cfg) slot (po_headers req) (handleOTLPTraces (read_body (MaxBodyBytes cfg) (po_body req)) store)"

definition otlp_fetch :: "hub_config \<Rightarrow> bool \<Rightarrow> (hub_span list \<Rightarrow> store_answer) \<Rightarrow> post \<Rightarrow> string + post_answer" where
  "otlp_fetch cfg slot store req =
     (let n = fst (hub_serves cfg slot store req) in Inr \<lparr>pa_ok = (200 \<le> n \<and> n \<le> 299), pa_status = n\<rparr>)"

subsection \<open>Decoding what the transport writes\<close>

lemma bind_got_simps [simp]: "bind_got Bad_Type f = Bad_Type" "bind_got (Got x) f = f x"
  by (simp_all add: bind_got_def)

lemma all_got_map: "(\<And>x. x \<in> set xs \<Longrightarrow> f x = Got (g x)) \<Longrightarrow> all_got (map f xs) = Got (map g xs)"
  by (induction xs) simp_all

lemma go_field_Nil: "go_field k [] = None"
  by (simp add: go_field_def)

definition or_else :: "'a option \<Rightarrow> 'a option \<Rightarrow> 'a option" where
  "or_else a b = (case a of None \<Rightarrow> b | Some x \<Rightarrow> Some x)"

lemma or_else_simps [simp]: "or_else None b = b" "or_else a None = a" "or_else (Some x) b = Some x"
  by (simp_all add: or_else_def split: option.split)

lemma go_field_append: "go_field k (a @ b) = or_else (go_field k b) (go_field k a)"
  by (simp add: go_field_def map_add_def or_else_def)

lemma go_field_Cons:
  "go_field k ((n, v) # b) = or_else (go_field k b) (if v \<noteq> JNull \<and> to_lower n = to_lower k then Some v else None)"
  by (auto simp: go_field_def map_add_def or_else_def split: option.split)

lemma go_field_optional:
  "go_field k (optional_member n f v) =
     (if to_lower n = to_lower k then (if map_option f v = Some JNull then None else map_option f v) else None)"
  by (auto simp: optional_member_def go_field_Cons go_field_Nil split: option.split)

lemma lower_names:
  "to_lower ''traceId'' = ''traceid''" "to_lower ''spanId'' = ''spanid''" "to_lower ''parentSpanId'' = ''parentspanid''"
  "to_lower ''name'' = ''name''" "to_lower ''kind'' = ''kind''" "to_lower ''startTimeUnixNano'' = ''starttimeunixnano''"
  "to_lower ''endTimeUnixNano'' = ''endtimeunixnano''" "to_lower ''attributes'' = ''attributes''"
  "to_lower ''status'' = ''status''" "to_lower ''code'' = ''code''" "to_lower ''key'' = ''key''"
  "to_lower ''value'' = ''value''" "to_lower ''stringValue'' = ''stringvalue''" "to_lower ''intValue'' = ''intvalue''"
  "to_lower ''resource'' = ''resource''" "to_lower ''scopeSpans'' = ''scopespans''" "to_lower ''spans'' = ''spans''"
  "to_lower ''resourceSpans'' = ''resourcespans''"
  by code_simp+

lemmas go_fields = go_field_Nil go_field_Cons go_field_append go_field_optional lower_names

definition plain_attr :: "string \<Rightarrow> string \<Rightarrow> otlp_attr" where
  "plain_attr k v = \<lparr>oa_key = k, oa_string = v, oa_int = []\<rparr>"

lemma string_attribute_fields:
  "\<exists>ms. string_attribute k v = JObj ms \<and> decode_attr ms = Got (plain_attr k v)"
  by (simp add: string_attribute_def decode_attr_def get_string_def get_struct_def struct_of_def go_fields plain_attr_def)

lemma decode_attributes:
  "all_got (map (\<lambda>x. bind_got (struct_of x) decode_attr) (map (\<lambda>(k, v). string_attribute k (f v)) xs))
     = Got (map (\<lambda>(k, v). plain_attr k (f v)) xs)"
proof -
  have "bind_got (struct_of (string_attribute k v)) decode_attr = Got (plain_attr k v)" for k v
    using string_attribute_fields [of k v] by (auto simp: struct_of_def)
  then show ?thesis by (induction xs) auto
qed

definition wire_of :: "otlp_span \<Rightarrow> int \<Rightarrow> int \<Rightarrow> wire_span" where
  "wire_of s kind code =
     \<lparr>ws_trace = coalesce (tx_trace s) [], ws_span = coalesce (tx_span s) [], ws_parent = coalesce (tx_parent s) [],
      ws_name = coalesce (tx_name s) [], ws_kind = kind, ws_start = js_string_opt (tx_start s),
      ws_end = js_string_opt (tx_end s),
      ws_attributes = map (\<lambda>(k, v). plain_attr k (js_string_opt v)) (span_attributes s), ws_code = code\<rparr>"

definition int_json :: "json option \<Rightarrow> int option" where
  "int_json v = (case v of
       None \<Rightarrow> Some 0
     | Some (JNum (Fin x)) \<Rightarrow> if x = of_int \<lfloor>x\<rfloor> \<and> - (2 ^ 63) \<le> \<lfloor>x\<rfloor> \<and> \<lfloor>x\<rfloor> < 2 ^ 63 then Some \<lfloor>x\<rfloor> else None
     | Some _ \<Rightarrow> None)"

definition got :: "'a option \<Rightarrow> 'a decoded" where
  "got v = (case v of None \<Rightarrow> Bad_Type | Some x \<Rightarrow> Got x)"

lemma got_simps [simp]: "got None = Bad_Type" "got (Some x) = Got x"
  by (simp_all add: got_def)

lemma get_string_optional:
  "go_field k ms = map_option JStr v \<Longrightarrow> get_string k ms = Got (coalesce v [])"
  by (cases v) (simp_all add: get_string_def)

lemma get_int_json: "go_field k ms = v \<Longrightarrow> get_int k ms = got (int_json v)"
  by (simp add: get_int_def int_json_def split: option.split json.split jsnum.split)

lemma str_option: "map_option JStr v \<noteq> Some JNull"
  by (cases v) simp_all

lemma enum_value_not_null: "enum_value table k other \<noteq> Some JNull"
  by (simp add: enum_value_def Let_def split: option.split)

lemma decode_encode_span:
  "bind_got (struct_of (encode_span s)) decode_span =
     bind_got (got (int_json (enum_value KINDS (tx_kind s) 2)))
       (\<lambda>kind. bind_got (got (int_json (enum_value STATUS (tx_status s) 0))) (\<lambda>code. Got (wire_of s kind code)))"
proof -
  obtain ms where ms: "encode_span s = JObj ms" by (simp add: encode_span_def)
  note nn = enum_value_not_null
  let ?status = "JObj (optional_member ''code'' id (enum_value STATUS (tx_status s) 0))"
  let ?attrs = "JArr (map (\<lambda>(k, v). string_attribute k (js_string_opt v)) (span_attributes s))"
  have f: "go_field ''traceId'' ms = map_option JStr (tx_trace s)"
    "go_field ''spanId'' ms = map_option JStr (tx_span s)"
    "go_field ''parentSpanId'' ms = map_option JStr (Some (coalesce (tx_parent s) []))"
    "go_field ''name'' ms = map_option JStr (tx_name s)"
    "go_field ''kind'' ms = enum_value KINDS (tx_kind s) 2"
    "go_field ''startTimeUnixNano'' ms = map_option JStr (Some (js_string_opt (tx_start s)))"
    "go_field ''endTimeUnixNano'' ms = map_option JStr (Some (js_string_opt (tx_end s)))"
    "go_field ''attributes'' ms = Some ?attrs"
    "go_field ''status'' ms = Some ?status"
    using ms [symmetric] unfolding encode_span_def json.inject
    by (simp_all add: go_fields nn str_option option.map_id0)
  have c: "go_field ''code'' (optional_member ''code'' id (enum_value STATUS (tx_status s) 0)) = enum_value STATUS (tx_status s) 0"
    by (simp add: go_fields nn option.map_id0)
  have st: "get_struct ''status'' ms = Got (optional_member ''code'' id (enum_value STATUS (tx_status s) 0))"
    by (simp add: get_struct_def f(9) struct_of_def)
  have at: "get_list ''attributes'' decode_attr ms = Got (map (\<lambda>(k, v). plain_attr k (js_string_opt v)) (span_attributes s))"
    by (simp only: get_list_def f(8) option.case json.case decode_attributes)
  show ?thesis
    by (simp add: ms struct_of_def decode_span_def get_string_optional [OF f(1)] get_string_optional [OF f(2)]
      get_string_optional [OF f(3)] get_string_optional [OF f(4)] get_int_json [OF f(5)] get_string_optional [OF f(6)]
      get_string_optional [OF f(7)] at st get_int_json [OF c] wire_of_def)
qed

lemma decode_resource_attributes:
  "all_got (map (\<lambda>x. bind_got (struct_of x) decode_attr) (resource_attributes t)) =
     Got (plain_attr ''service.name'' (coalesce (tp_service t) [])
       # (if truthy_str (tp_container t) then [plain_attr ''container.name'' (the (tp_container t))] else []))"
proof -
  have "bind_got (struct_of (string_attribute k v)) decode_attr = Got (plain_attr k v)" for k v
    using string_attribute_fields [of k v] by (auto simp: struct_of_def)
  then show ?thesis by (simp add: resource_attributes_def)
qed

lemma struct_of_object: "struct_of (JObj ms) = Got ms"
  by (simp add: struct_of_def)

lemma decode_document:
  assumes "all_got (map (\<lambda>j. bind_got (struct_of j) decode_span) js) = Got ws"
  shows "bind_got (struct_of (document t js)) (get_list ''resourceSpans'' decode_resource) =
     Got [\<lparr>rs_attributes = plain_attr ''service.name'' (coalesce (tp_service t) [])
             # (if truthy_str (tp_container t) then [plain_attr ''container.name'' (the (tp_container t))] else []),
           rs_scopes = [ws]\<rparr>]"
  unfolding document_def
  by (simp add: struct_of_object get_list_def get_struct_def decode_resource_def go_fields decode_resource_attributes assms)

lemma decode_bad_document:
  assumes "all_got (map (\<lambda>j. bind_got (struct_of j) decode_span) js) = Bad_Type"
  shows "bind_got (struct_of (document t js)) (get_list ''resourceSpans'' decode_resource) = Bad_Type"
  unfolding document_def
  by (simp add: struct_of_object get_list_def get_struct_def decode_resource_def go_fields decode_resource_attributes assms)

text \<open>What the hub reads from one span of the transport.\<close>

definition hub_reads :: "transport \<Rightarrow> wire_span \<Rightarrow> hub_span list" where
  "hub_reads t ws =
     (if decodeID (ws_trace ws) \<noteq> [] \<and> decodeID (ws_span ws) \<noteq> []
      then [hub_span_of (coalesce (tp_service t) []) (coalesce (tp_container t) []) ws] else [])"

lemma resource_hub_spans_sent:
  "resource_hub_spans \<lparr>rs_attributes = plain_attr ''service.name'' (coalesce (tp_service t) [])
      # (if truthy_str (tp_container t) then [plain_attr ''container.name'' (the (tp_container t))] else []), rs_scopes = [ws]\<rparr>
   = concat (map (hub_reads t) ws)"
proof -
  let ?attrs = "plain_attr ''service.name'' (coalesce (tp_service t) [])
      # (if truthy_str (tp_container t) then [plain_attr ''container.name'' (the (tp_container t))] else [])"
  have "attrString ?attrs [''service.name''] = coalesce (tp_service t) []"
    "attrString ?attrs [''container.id'', ''container.name''] = coalesce (tp_container t) []"
    by (cases "tp_container t"; simp add: plain_attr_def attrVal_def)+
  then have r: "resource_hub_spans \<lparr>rs_attributes = ?attrs, rs_scopes = [ws]\<rparr>
    = map (hub_span_of (coalesce (tp_service t) []) (coalesce (tp_container t) []))
        (filter (\<lambda>sp. decodeID (ws_trace sp) \<noteq> [] \<and> decodeID (ws_span sp) \<noteq> []) ws)"
    by (simp add: resource_hub_spans_def Let_def)
  show ?thesis unfolding r by (induction ws) (simp_all add: hub_reads_def)
qed

definition known_kind :: "string option \<Rightarrow> int" where
  "known_kind k = (case map_of KINDS (coalesce k ''undefined'') of Some n \<Rightarrow> int n | None \<Rightarrow> 2)"

definition known_status :: "string option \<Rightarrow> int" where
  "known_status k = (case map_of STATUS (coalesce k ''undefined'') of Some n \<Rightarrow> int n | None \<Rightarrow> 0)"

text \<open>
  Names that are members of every object are the exception: a function is not written, so the hub reads 0, and the
  prototype is written as an object, which the hub refuses.
\<close>

definition method_name :: "string option \<Rightarrow> bool" where
  "method_name k \<longleftrightarrow> k \<in> Some ` set prototype_functions"

definition wire_kind :: "string option \<Rightarrow> int" where
  "wire_kind k = (if method_name k then 0 else known_kind k)"

definition readable_span :: "otlp_span \<Rightarrow> bool" where
  "readable_span s \<longleftrightarrow> tx_kind s \<noteq> Some ''__proto__'' \<and> tx_status s \<noteq> Some ''__proto__''"

lemma int_json_nat: "n \<le> 5 \<Longrightarrow> int_json (Some (JNum (Fin (of_nat n)))) = Some (int n)"
  by (simp add: int_json_def)

lemma method_name_iff: "coalesce k ''undefined'' \<in> set prototype_functions \<longleftrightarrow> method_name k"
  by (cases k) (auto simp: method_name_def prototype_functions_def)

lemma proto_name_iff: "coalesce k ''undefined'' = ''__proto__'' \<longleftrightarrow> k = Some ''__proto__''"
  by (cases k) auto

lemma enum_value_int:
  assumes "\<forall>n\<in>snd ` set table. n \<le> 5" "other \<le> 5" "\<forall>k\<in>fst ` set table. k \<noteq> ''__proto__'' \<and> k \<notin> set prototype_functions"
  shows "int_json (enum_value table key other)
    = (if key = Some ''__proto__'' then None else if method_name key then Some 0
       else Some (case map_of table (coalesce key ''undefined'') of Some n \<Rightarrow> int n | None \<Rightarrow> int other))"
proof (cases "map_of table (coalesce key ''undefined'')")
  case None
  have "int_json (Some (JObj [])) = None" "int_json None = Some 0" by (simp_all add: int_json_def)
  then show ?thesis using None int_json_nat [OF assms(2)]
    by (simp add: enum_value_def Let_def proto_name_iff method_name_iff)
next
  case (Some n)
  note m = map_of_SomeD [OF Some]
  then have "n \<le> 5" "coalesce key ''undefined'' \<noteq> ''__proto__'' \<and> coalesce key ''undefined'' \<notin> set prototype_functions"
    using assms(1,3) by force+
  then have "n \<le> 5" "key \<noteq> Some ''__proto__''" "\<not> method_name key" by (simp_all only: proto_name_iff method_name_iff) simp_all
  moreover have "enum_value table key other = Some (JNum (Fin (of_nat n)))" using Some by (simp add: enum_value_def Let_def)
  ultimately show ?thesis using Some int_json_nat by simp
qed

lemma kinds_int: "int_json (enum_value KINDS k 2) = (if k = Some ''__proto__'' then None else Some (wire_kind k))"
  by (subst enum_value_int) (auto simp: KINDS_def wire_kind_def known_kind_def prototype_functions_def split: option.split)

lemma known_status_method: "method_name k \<Longrightarrow> known_status k = 0"
  by (auto simp: method_name_def known_status_def STATUS_def prototype_functions_def)

lemma statuses_int: "int_json (enum_value STATUS k 0) = (if k = Some ''__proto__'' then None else Some (known_status k))"
  using known_status_method [of k]
  by (subst enum_value_int) (auto simp: STATUS_def known_status_def prototype_functions_def split: option.split)

lemma decode_sent:
  "bind_got (struct_of (encode_span s)) decode_span
     = (if readable_span s then Got (wire_of s (wire_kind (tx_kind s)) (known_status (tx_status s))) else Bad_Type)"
  by (simp add: decode_encode_span kinds_int statuses_int readable_span_def)

text \<open>What the hub makes of one span that was sent.\<close>

definition hub_spans_sent :: "transport \<Rightarrow> otlp_span \<Rightarrow> hub_span list" where
  "hub_spans_sent t s = hub_reads t (wire_of s (wire_kind (tx_kind s)) (known_status (tx_status s)))"

lemma all_got_bad: "Bad_Type \<in> set ds \<Longrightarrow> all_got ds = Bad_Type"
  by (induction ds) (auto simp: bind_got_def split: decoded.split)

lemma parse_sent:
  "ParseOTLPTracesJSON (json_stringify (document t (map encode_span ss)))
    = (if list_all readable_span ss then Some (concat (map (hub_spans_sent t) ss)) else None)"
proof -
  let ?js = "map (\<lambda>j. bind_got (struct_of j) decode_span) (map encode_span ss)"
  have p: "json_parse (json_stringify (document t (map encode_span ss))) = Some (document t (map encode_span ss))"
    by (intro json_parse_stringify document_textual) (simp add: encode_span_textual)
  show ?thesis
  proof (cases "list_all readable_span ss")
    case True
    then have "all_got ?js = Got (map (\<lambda>s. wire_of s (wire_kind (tx_kind s)) (known_status (tx_status s))) ss)"
      by (induction ss) (simp_all add: decode_sent)
    from decode_document [OF this, of t] show ?thesis using True
      by (simp add: ParseOTLPTracesJSON_def p resource_hub_spans_sent o_def hub_spans_sent_def [abs_def])
  next
    case False
    then have "Bad_Type \<in> set ?js" by (auto simp: decode_sent list_all_iff)
    then have "all_got ?js = Bad_Type" by (rule all_got_bad)
    from decode_bad_document [OF this, of t] show ?thesis using False by (simp add: ParseOTLPTracesJSON_def p)
  qed
qed

subsection \<open>Identifiers of the transport\<close>

text \<open>An identifier as \<open>randomBytes(..).toString("hex")\<close> writes it.\<close>

definition hex_id :: "nat \<Rightarrow> string \<Rightarrow> bool" where
  "hex_id n s \<longleftrightarrow> length s = n \<and> (\<forall>c\<in>set s. is_hex c)"

text \<open>The digits, one by one.\<close>

lemma hex_digit_facts:
  assumes "is_hex c"
  shows "\<not> go_space c \<and> lower_char c = c \<and> utf8 c = [code_unit c] \<and> isHex [c] \<and> c \<noteq> CHR ''-''
    \<and> code_unit c \<noteq> 10 \<and> code_unit c \<noteq> 13 \<and> b64_val c \<noteq> None"
proof -
  have "list_all (\<lambda>c. \<not> go_space c \<and> lower_char c = c \<and> utf8 c = [code_unit c] \<and> isHex [c] \<and> c \<noteq> CHR ''-''
    \<and> code_unit c \<noteq> 10 \<and> code_unit c \<noteq> 13 \<and> b64_val c \<noteq> None) ''0123456789abcdef''"
    by code_simp
  then show ?thesis using assms unfolding is_hex_def list_all_iff by blast
qed

lemma hex_id_facts:
  assumes "hex_id n s"
  shows "to_lower s = s" "go_len s = n" "isHex s" "filter (\<lambda>c. c = CHR ''-'') s = []"
    "filter (\<lambda>c. code_unit c \<noteq> 10 \<and> code_unit c \<noteq> 13) s = s" "list_all (\<lambda>c. b64_val c \<noteq> None) s"
proof -
  have h: "\<And>c. c \<in> set s \<Longrightarrow> is_hex c" and l: "length s = n" using assms by (simp_all add: hex_id_def)
  show "to_lower s = s" using h hex_digit_facts by (simp add: to_lower_def map_idI)
  have "concat (map utf8 s) = concat (map (\<lambda>c. [code_unit c]) s)"
    using h hex_digit_facts by (intro arg_cong [of _ _ concat] map_cong) auto
  moreover have "length (concat (map (\<lambda>c. [code_unit c]) s)) = length s" by (induction s) simp_all
  ultimately show "go_len s = n" using l by (simp add: go_len_def)
  show "isHex s" using h hex_digit_facts by (auto simp: isHex_def list_all_iff)
  show "filter (\<lambda>c. c = CHR ''-'') s = []" using h hex_digit_facts by (auto simp: filter_empty_conv)
  show "filter (\<lambda>c. code_unit c \<noteq> 10 \<and> code_unit c \<noteq> 13) s = s" using h hex_digit_facts by (auto simp: filter_id_conv)
  show "list_all (\<lambda>c. b64_val c \<noteq> None) s" using h hex_digit_facts by (auto simp: list_all_iff)
qed

lemma trim_hex_id: "hex_id n s \<Longrightarrow> go_trim s = s"
  using hex_digit_facts by (intro go_trim_plain) (auto simp: hex_id_def)

lemma decodeID_trace: "hex_id 32 s \<Longrightarrow> decodeID s = s"
  by (auto simp: decodeID_def trim_hex_id hex_id_facts Let_def)

text \<open>Four digits of the alphabet are three bytes, and the bytes tell the digits.\<close>

lemma b64_val_less: "b64_val c = Some x \<Longrightarrow> x < 64"
  by (auto simp: b64_val_def Let_def split: if_splits)

lemma b64_val_char:
  "b64_val c = Some x \<Longrightarrow> code_unit c = (if x < 26 then x + 65 else if x < 52 then x + 71 else if x < 62 then x - 4
     else if x = 62 then 43 else 47)"
  by (auto simp: b64_val_def Let_def split: if_splits)

lemma b64_val_inject: "b64_val c = Some x \<Longrightarrow> b64_val d = Some x \<Longrightarrow> c = d"
  using b64_val_char [of c x] b64_val_char [of d x] by (simp only: of_char_eq_iff [where 'a = nat, symmetric])

lemma b64_triple_bytes: "a < 64 \<Longrightarrow> b < 64 \<Longrightarrow> c < 64 \<Longrightarrow> d < 64 \<Longrightarrow> \<forall>x\<in>set (b64_triple a b c d). x < 256"
  by (simp add: b64_triple_def) linarith

lemma mixed_radix:
  assumes "x * k + y = x' * k + y'" "y < k" "y' < (k :: nat)"
  shows "x = x' \<and> y = y'"
proof -
  have "(x * k + y) div k = x" "(x' * k + y') div k = x'" using assms(2,3) by simp_all
  with assms(1) show ?thesis by simp
qed

lemma b64_triple_inject:
  assumes "b64_triple a b c d = b64_triple a' b' c' d'"
    "a < 64" "b < 64" "c < 64" "d < 64" "a' < 64" "b' < 64" "c' < 64" "d' < 64"
  shows "a = a' \<and> b = b' \<and> c = c' \<and> d = d'"
proof -
  have e: "a * 4 + b div 16 = a' * 4 + b' div 16" "(b mod 16) * 16 + c div 4 = (b' mod 16) * 16 + c' div 4"
    "(c mod 4) * 64 + d = (c' mod 4) * 64 + d'"
    using assms(1) by (simp_all add: b64_triple_def)
  have "b div 16 < 4" "b' div 16 < 4" "c div 4 < 16" "c' div 4 < 16" using assms(4,3,8,7) by linarith+
  then have "a = a' \<and> b div 16 = b' div 16" "b mod 16 = b' mod 16 \<and> c div 4 = c' div 4" "c mod 4 = c' mod 4 \<and> d = d'"
    using mixed_radix [OF e(1)] mixed_radix [OF e(2)] mixed_radix [OF e(3)] assms(5,9) by simp_all
  then show ?thesis by (metis div_mult_mod_eq)
qed

lemma four_chars: "length s = 4 * Suc n \<Longrightarrow> \<exists>a b c d r. s = a # b # c # d # r \<and> length r = 4 * n"
proof -
  assume "length s = 4 * Suc n"
  then have "length s = Suc (Suc (Suc (Suc (4 * n))))" by simp
  then show ?thesis by (simp only: length_Suc_conv) blast
qed

lemma b64_decode_quads:
  assumes "list_all (\<lambda>c. b64_val c \<noteq> None) s" "length s = 4 * n"
  shows "\<exists>bs. b64_decode p s = Some bs \<and> length bs = 3 * n \<and> (\<forall>x\<in>set bs. x < 256)"
  using assms
proof (induction n arbitrary: s)
  case (Suc n)
  then obtain a b c d r where s: "s = a # b # c # d # r" using four_chars by blast
  with Suc.prems obtain x y z w where v: "b64_val a = Some x" "b64_val b = Some y" "b64_val c = Some z" "b64_val d = Some w"
    by auto
  obtain bs where bs: "b64_decode p r = Some bs" "length bs = 3 * n" "\<forall>x\<in>set bs. x < 256"
    using Suc.IH [of r] Suc.prems s by auto
  have "b64_decode p s = Some (b64_triple x y z w @ bs)" by (simp add: s v bs(1))
  moreover have "length (b64_triple x y z w) = 3" by (simp add: b64_triple_def)
  ultimately show ?case
    using bs b64_triple_bytes [OF v [THEN b64_val_less]] by auto
qed simp

lemma b64_decode_inject:
  assumes "list_all (\<lambda>c. b64_val c \<noteq> None) s" "list_all (\<lambda>c. b64_val c \<noteq> None) t"
    "length s = 4 * n" "length t = 4 * n" "b64_decode p s = b64_decode p t"
  shows "s = t"
  using assms
proof (induction n arbitrary: s t)
  case (Suc n)
  obtain a b c d r where s: "s = a # b # c # d # r" using four_chars [OF Suc.prems(3)] by blast
  obtain a' b' c' d' r' where t: "t = a' # b' # c' # d' # r'" using four_chars [OF Suc.prems(4)] by blast
  obtain x y z w where v: "b64_val a = Some x" "b64_val b = Some y" "b64_val c = Some z" "b64_val d = Some w"
    using Suc.prems(1) s by auto
  obtain x' y' z' w' where v': "b64_val a' = Some x'" "b64_val b' = Some y'" "b64_val c' = Some z'" "b64_val d' = Some w'"
    using Suc.prems(2) t by auto
  obtain bs where bs: "b64_decode p r = Some bs" using b64_decode_quads [of r n p] Suc.prems s by auto
  obtain bs' where bs': "b64_decode p r' = Some bs'" using b64_decode_quads [of r' n p] Suc.prems t by auto
  have "b64_triple x y z w @ bs = b64_triple x' y' z' w' @ bs'"
    using Suc.prems(5) by (simp add: s t v v' bs bs')
  then have tr: "b64_triple x y z w = b64_triple x' y' z' w'" and "bs = bs'"
    by (simp_all add: b64_triple_def)
  have r: "r = r'" using Suc.IH [of r r'] Suc.prems s t bs bs' \<open>bs = bs'\<close> by simp
  have "x = x' \<and> y = y' \<and> z = z' \<and> w = w'"
    by (rule b64_triple_inject [OF tr v [THEN b64_val_less] v' [THEN b64_val_less]])
  then show ?case using b64_val_inject [OF v(1)] b64_val_inject [OF v(2)] b64_val_inject [OF v(3)] b64_val_inject [OF v(4)] v' r
    by (simp only: s t simp_thms list.inject)
qed simp

lemma hex_lower_inject:
  assumes "hex_lower a = hex_lower b" "a < 16" "b < 16"
  shows "a = b"
proof -
  have "list_all (\<lambda>a. list_all (\<lambda>b. hex_lower a = hex_lower b \<longrightarrow> a = b) [0..<16]) [0..<16]" by code_simp
  then show ?thesis using assms by (simp only: list_all_iff set_upt atLeastLessThan_iff) simp
qed

lemma length_hex_encode: "length (hex_encode bs) = 2 * length bs"
  by (induction bs) (simp_all add: hex_encode_def)

lemma hex_encode_inject:
  "\<forall>x\<in>set bs. x < 256 \<Longrightarrow> \<forall>x\<in>set cs. x < 256 \<Longrightarrow> hex_encode bs = hex_encode cs \<Longrightarrow> bs = cs"
proof (induction bs arbitrary: cs)
  case Nil
  then show ?case by (cases cs) (simp_all add: hex_encode_def)
next
  case (Cons b bs)
  from Cons.prems(3) obtain c ds where cs: "cs = c # ds" by (cases cs) (simp_all add: hex_encode_def)
  have h: "hex_lower (b div 16) = hex_lower (c div 16)" "hex_lower (b mod 16) = hex_lower (c mod 16)"
    "hex_encode bs = hex_encode ds"
    using Cons.prems(3) by (simp_all add: cs hex_encode_def)
  have "b div 16 = c div 16" "b mod 16 = c mod 16"
    using Cons.prems(1,2) h(1,2) by (auto simp: cs intro!: hex_lower_inject)
  then have "b = c" by (metis div_mult_mod_eq)
  with Cons.IH [of ds] Cons.prems h(3) show ?case by (simp add: cs)
qed

text \<open>An identifier of a span, 16 digits long, passes for base64.\<close>

lemma decodeID_span:
  assumes "hex_id 16 s"
  obtains bs where "decodeID s = hex_encode bs" "length bs = 12" "\<forall>x\<in>set bs. x < 256" "b64_decode True s = Some bs"
proof -
  obtain bs where bs: "b64_decode True s = Some bs" "length bs = 12" "\<forall>x\<in>set bs. x < 256"
    using b64_decode_quads [of s 4 True] hex_id_facts(6) [OF assms] assms by (auto simp: hex_id_def)
  have "s \<noteq> []" using assms by (auto simp: hex_id_def)
  moreover have "base64_bytes s = Some bs" by (simp add: base64_bytes_def hex_id_facts(5) [OF assms] bs(1))
  moreover have "bs \<noteq> []" using bs(2) by auto
  ultimately have "decodeID s = hex_encode bs"
    by (simp add: decodeID_def trim_hex_id [OF assms] hex_id_facts(2) [OF assms])
  with bs that show thesis by blast
qed

lemma decodeID_span_length: "hex_id 16 s \<Longrightarrow> length (decodeID s) = 24"
  using decodeID_span [of s] by (metis length_hex_encode mult_2 numeral_Bit0)

lemma decodeID_span_inject:
  assumes "hex_id 16 s" "hex_id 16 t" "decodeID s = decodeID t"
  shows "s = t"
proof -
  obtain bs where bs: "decodeID s = hex_encode bs" "length bs = 12" "\<forall>x\<in>set bs. x < 256" "b64_decode True s = Some bs"
    by (rule decodeID_span [OF assms(1)])
  obtain cs where cs: "decodeID t = hex_encode cs" "length cs = 12" "\<forall>x\<in>set cs. x < 256" "b64_decode True t = Some cs"
    by (rule decodeID_span [OF assms(2)])
  have "bs = cs" using hex_encode_inject [OF bs(3) cs(3)] assms(3) bs(1) cs(1) by simp
  then have e: "b64_decode True s = b64_decode True t" by (simp only: bs(4) cs(4))
  have "length s = 4 * 4" "length t = 4 * 4" using assms(1,2) by (simp_all add: hex_id_def)
  from b64_decode_inject [OF hex_id_facts(6) [OF assms(1)] hex_id_facts(6) [OF assms(2)] this e] show ?thesis .
qed

subsection \<open>Times and attributes\<close>

lemma nano_fold: "foldl (\<lambda>n c. n * 10 + of_nat (digit_val c)) (of_nat k :: 64 word) s = of_nat (foldl (\<lambda>n c. 10 * n + digit_val c) k s)"
proof (induction s arbitrary: k)
  case (Cons c s)
  have "of_nat k * 10 + of_nat (digit_val c) = (of_nat (10 * k + digit_val c) :: 64 word)" by simp
  then show ?case using Cons.IH [of "10 * k + digit_val c"] by (simp only: foldl.simps)
qed simp

lemma nanoTime_digits:
  assumes "0 < n" "n < 2 ^ 63"
  shows "nanoTime (nat_digits n) = Some (int n)"
proof -
  have d: "\<forall>c\<in>set (nat_digits n). is_digit c" and ne: "nat_digits n \<noteq> []" using nat_digits_digits [of n] by auto
  have t: "go_trim (nat_digits n) = nat_digits n"
    using d by (intro go_trim_plain) (auto simp: go_space_def is_digit_def is_space_def Let_def)
  have f: "foldl (\<lambda>n c. n * 10 + of_nat (digit_val c)) (0 :: 64 word) (nat_digits n) = of_nat n"
    using nano_fold [of 0 "nat_digits n"] digits_val_nat_digits [of n] by (simp add: digits_val_def)
  have "sint (of_nat n :: 64 word) = int n"
    using assms(2) by (simp add: signed_of_nat signed_take_bit_int_eq_self)
  then show ?thesis using assms(1) d ne unfolding nanoTime_def t Let_def f by (simp add: list_all_iff)
qed

definition kept_attributes :: "otlp_attr list \<Rightarrow> (string \<times> string) list \<Rightarrow> (string \<times> string) list" where
  "kept_attributes as m = foldl (\<lambda>m a. if attrVal a \<noteq> [] then map_set (oa_key a) (attrVal a) m else m) m as"

lemma map_get_Nil: "map_get [] k = None"
  by (simp add: map_get_def)

text \<open>The attributes the hub keeps are those whose text is not empty.\<close>

lemma kept_attributes_get:
  assumes "distinct (map fst xs)"
  shows "map_get (kept_attributes (map (\<lambda>(k, v). plain_attr k (f v)) xs) m) k =
    (case map_of xs k of Some v \<Rightarrow> if f v \<noteq> [] then Some (f v) else map_get m k | None \<Rightarrow> map_get m k)"
  using assms
proof (induction xs arbitrary: m)
  case Nil
  then show ?case by (simp add: kept_attributes_def)
next
  case (Cons x xs)
  obtain n v where x: "x = (n, v)" by (cases x)
  let ?m = "if f v \<noteq> [] then map_set n (f v) m else m"
  have u: "kept_attributes (map (\<lambda>(k, v). plain_attr k (f v)) (x # xs)) m
    = kept_attributes (map (\<lambda>(k, v). plain_attr k (f v)) xs) ?m"
    by (simp add: kept_attributes_def x plain_attr_def attrVal_def)
  have "map_of xs n = None" using Cons.prems by (simp add: x map_of_eq_None_iff)
  then show ?case unfolding u using Cons by (auto simp: x map_get_set split: option.split)
qed

lemma kind_name:
  "spanKindName (wire_kind k) =
     (if k \<in> Some ` {''internal'', ''server'', ''client'', ''producer'', ''consumer''} then the k
      else if method_name k then ''unspecified'' else ''server'')"
  by (cases k) (auto simp: wire_kind_def method_name_def prototype_functions_def known_kind_def KINDS_def spanKindName_def)

lemma status_name:
  "(if known_status k = 1 then ''ok'' else if known_status k = 2 then ''error'' else ''unset'')
     = (if k \<in> {Some ''ok'', Some ''error''} then the k else ''unset'')"
  by (cases k) (auto simp: known_status_def STATUS_def)

lemma go_len_le: "go_len s \<le> 2 * length s"
proof -
  have "length (utf8 c) \<le> 2" for c by (simp add: utf8_def Let_def)
  then have "length (utf8 a) + n \<le> 2 + m" if "n \<le> m" for a n m using that by (intro add_mono) simp_all
  then show ?thesis unfolding go_len_def by (induction s) simp_all
qed

lemma lower_char_dash: "lower_char c = CHR ''-'' \<Longrightarrow> c = CHR ''-''"
proof (rule ccontr)
  assume l: "lower_char c = CHR ''-''" and "c \<noteq> CHR ''-''"
  then have n: "(65 \<le> code_unit c \<and> code_unit c \<le> 90) \<or> (192 \<le> code_unit c \<and> code_unit c \<le> 222)"
    and "char_of (code_unit c + 32) = CHR ''-''" by (auto simp: lower_char_def Let_def split: if_splits)
  then have "code_unit (char_of (code_unit c + 32)) = 45" by simp
  moreover have "(code_unit c + 32) mod 256 = code_unit c + 32" using n by (intro mod_less) auto
  ultimately have "code_unit c + 32 = 45" by (simp add: of_char_of)
  then show False using n by simp
qed

text \<open>Only a blank identifier is none.\<close>

lemma decodeID_blank: "decodeID raw = [] \<longleftrightarrow> go_trim raw = []"
proof (cases "go_trim raw = []")
  case False
  have l: "to_lower (go_trim raw) \<noteq> []" using False by (simp add: to_lower_def)
  have d: "filter (\<lambda>c. c \<noteq> CHR ''-'') (to_lower (go_trim raw)) \<noteq> []"
    if "go_len (go_trim raw) = 36" "length (filter (\<lambda>c. c = CHR ''-'') (go_trim raw)) = 4"
  proof
    assume "filter (\<lambda>c. c \<noteq> CHR ''-'') (to_lower (go_trim raw)) = []"
    then have "\<forall>c\<in>set (go_trim raw). lower_char c = CHR ''-''" by (simp add: to_lower_def filter_empty_conv)
    then have "\<forall>c\<in>set (go_trim raw). c = CHR ''-''" using lower_char_dash by blast
    then have "length (go_trim raw) = 4" using that(2) by (simp add: filter_True)
    then show False using go_len_le [of "go_trim raw"] that(1) by simp
  qed
  have "b \<noteq> [] \<Longrightarrow> hex_encode b \<noteq> []" for b by (cases b) (simp_all add: hex_encode_def)
  then show ?thesis using False l d by (auto simp: decodeID_def Let_def split: option.split)
qed (simp add: decodeID_def)

subsection \<open>Properties\<close>

text \<open>A generated identifier has the form of a given one.\<close>

lemma generated_id: "gives_bytes e \<Longrightarrow> hex_id (2 * n) (hex_string (random_bytes e k n))"
  using hex_string_hex by (auto simp: hex_id_def gives_bytes_def)

lemma prepared_span_id:
  assumes "gives_bytes e" "truthy_str (tx_span (heap w a)) \<Longrightarrow> hex_id 16 (the (tx_span (heap w a)))"
  obtains sid where "tx_span (heap (prepare e a w) a) = Some sid" "hex_id 16 sid"
proof (cases "truthy_str (tx_span (heap w a))")
  case True
  then have "tx_span (heap (prepare e a w) a) = Some (the (tx_span (heap w a)))"
    unfolding prepare_span by (cases "tx_span (heap w a)") simp_all
  from this assms(2) [OF True] show thesis by (rule that)
next
  case False
  show thesis using generated_id [OF assms(1), of 8] by (intro that) (simp_all add: prepare_span False)
qed

lemma export_post_body:
  assumes "export_post e t a w = (req, w')"
  shows "po_body req = json_stringify (document t (map encode_span [heap w' a]))" "w' = prepare e a w"
    "po_headers req = post_headers t"
  using assms by (auto simp: export_post_def encode_eq Let_def)

lemma parse_export:
  assumes "export_post e t a w = (req, w')"
  shows "ParseOTLPTracesJSON (po_body req) = (if readable_span (heap w' a) then Some (hub_spans_sent t (heap w' a)) else None)"
  unfolding export_post_body(1) [OF assms] by (simp only: parse_sent) simp

lemma readable_prepared: "readable_span (heap (prepare e a w) a) = readable_span (heap w a)"
  by (simp add: readable_span_def prepare_rest)

text \<open>The record the hub stores for a span that was sent.\<close>

definition stored_span :: "transport \<Rightarrow> otlp_span \<Rightarrow> hub_span" where
  "stored_span t s = hub_span_of (coalesce (tp_service t) []) (coalesce (tp_container t) [])
     (wire_of s (wire_kind (tx_kind s)) (known_status (tx_status s)))"

lemma spans_sent:
  "hub_spans_sent t s = (if go_trim (coalesce (tx_trace s) []) \<noteq> [] \<and> go_trim (coalesce (tx_span s) []) \<noteq> [] then [stored_span t s] else [])"
  by (simp add: hub_spans_sent_def hub_reads_def stored_span_def wire_of_def decodeID_blank)

lemma prepared_both_ids:
  assumes "gives_bytes e"
  obtains tid sid where "tx_trace (heap (prepare e a w) a) = Some tid" "tx_span (heap (prepare e a w) a) = Some sid"
  using that prepare_complete [OF assms, of a w]
  by (cases "tx_trace (heap (prepare e a w) a)"; cases "tx_span (heap (prepare e a w) a)") (auto simp: complete_def)

text \<open>A time of the caller, in nanoseconds.\<close>

definition given_time :: "json option \<Rightarrow> nat \<Rightarrow> bool" where
  "given_time v n \<longleftrightarrow> v = Some (JStr (nat_digits n)) \<and> 0 < n \<and> n < 2 ^ 63"

lemma given_time_truthy: "given_time v n \<Longrightarrow> truthy_opt v"
  by (auto simp: given_time_def truthy_opt_def)

lemma given_time_read: "given_time v n \<Longrightarrow> nanoTime (js_string_opt v) = Some (int n)"
  using nanoTime_digits by (auto simp: given_time_def js_string_opt_def)

lemma prepared_end: "\<not> truthy_opt (tx_end (heap w a)) \<Longrightarrow> tx_end (heap (prepare e a w) a) = tx_start (heap (prepare e a w) a)"
  by (simp add: prepare_def fill_defs)

lemma stored_fields:
  assumes "w' = prepare e a w" "s = heap w a" "tx_trace (heap w' a) = Some tid" "tx_span (heap w' a) = Some sid"
    "sp = stored_span (createTransport args) (heap w' a)"
  shows "hp_trace sp = decodeID tid" "hp_span sp = decodeID sid"
    "hp_parent sp = decodeID (coalesce (tx_parent s) [])" "hp_name sp = coalesce (tx_name s) []"
    "hp_kind sp = (if tx_kind s \<in> Some ` {''internal'', ''server'', ''client'', ''producer'', ''consumer''}
                     then the (tx_kind s) else if method_name (tx_kind s) then ''unspecified'' else ''server'')"
    "hp_status sp = (if tx_status s \<in> {Some ''ok'', Some ''error''} then the (tx_status s) else ''unset'')"
    "go_trim (coalesce (ta_service args) []) \<noteq> [] \<Longrightarrow> hp_service sp = coalesce (ta_service args) []"
    "hp_container sp = coalesce (ta_container args) []"
    "given_time (tx_start s) n \<Longrightarrow> hp_start sp = Some (int n)" "given_time (tx_end s) n \<Longrightarrow> hp_end sp = Some (int n)"
    "\<not> truthy_opt (tx_end s) \<Longrightarrow> hp_end sp = hp_start sp"
proof -
  have svc: "coalesce (tp_service (createTransport args)) [] = coalesce (ta_service args) []"
    "coalesce (tp_container (createTransport args)) [] = coalesce (ta_container args) []"
    by (simp_all add: createTransport_def)
  note d = assms(5) stored_span_def hub_span_of_def wire_of_def Let_def
  show "hp_trace sp = decodeID tid" "hp_span sp = decodeID sid" by (simp_all add: d assms(3,4))
  show "hp_parent sp = decodeID (coalesce (tx_parent s) [])" "hp_name sp = coalesce (tx_name s) []"
    by (simp_all add: d assms(1,2) prepare_rest)
  show "hp_kind sp = (if tx_kind s \<in> Some ` {''internal'', ''server'', ''client'', ''producer'', ''consumer''}
                     then the (tx_kind s) else if method_name (tx_kind s) then ''unspecified'' else ''server'')"
    unfolding kind_name [symmetric] by (simp add: d assms(1,2) prepare_rest)
  show "hp_status sp = (if tx_status s \<in> {Some ''ok'', Some ''error''} then the (tx_status s) else ''unset'')"
    unfolding status_name [symmetric] by (simp add: d assms(1,2) prepare_rest)
  show "go_trim (coalesce (ta_service args) []) \<noteq> [] \<Longrightarrow> hp_service sp = coalesce (ta_service args) []"
    "hp_container sp = coalesce (ta_container args) []"
    by (simp_all add: d svc firstNonEmpty_def)
  show "hp_start sp = Some (int n)" if "given_time (tx_start s) n"
    using given_time_read [OF that] prepare_rest(7) [OF given_time_truthy [OF that [unfolded assms(2)]]] by (simp add: d assms(1,2))
  show "hp_end sp = Some (int n)" if "given_time (tx_end s) n"
    using given_time_read [OF that] prepare_rest(8) [OF given_time_truthy [OF that [unfolded assms(2)]]] by (simp add: d assms(1,2))
  show "hp_end sp = hp_start sp" if "\<not> truthy_opt (tx_end s)"
    using prepared_end [where e = e and w = w and a = a] that by (simp add: d assms(1,2))
qed

lemma stored_attributes:
  assumes "w' = prepare e a w" "s = heap w a" "distinct (map fst (coalesce (tx_attributes s) []))"
  shows "map_get (hp_attributes (stored_span t (heap w' a))) k =
      (if k = ''argus.correlation_id'' \<and> truthy_str (tx_correlation s) then tx_correlation s
       else case map_of (coalesce (tx_attributes s) []) k of
              Some v \<Rightarrow> if js_string_opt v \<noteq> [] then Some (js_string_opt v) else None | None \<Rightarrow> None)"
proof -
  let ?s = "heap w' a"
  have kept: "tx_correlation ?s = tx_correlation s" "tx_attributes ?s = tx_attributes s"
    unfolding assms(1,2) by (simp_all only: prepare_rest)
  have d: "distinct (map fst (span_attributes ?s))"
    using assms(3) by (simp add: span_attributes_keys kept)
  have at: "map_get (hp_attributes (stored_span t ?s)) k =
     (case map_of (span_attributes ?s) k of Some v \<Rightarrow> if js_string_opt v \<noteq> [] then Some (js_string_opt v) else None | None \<Rightarrow> None)"
    using kept_attributes_get [OF d, of js_string_opt "[]" k]
    by (simp add: stored_span_def hub_span_of_def wire_of_def kept_attributes_def Let_def map_get_Nil split: option.split)
  have m: "map_of (span_attributes ?s) k =
    (if k = ''argus.correlation_id'' \<and> truthy_str (tx_correlation s) then Some (Some (JStr (the (tx_correlation s))))
     else map_of (coalesce (tx_attributes s) []) k)"
    using span_attributes_get [of ?s k] assms(3) by (simp add: kept)
  have c: "truthy_str v \<Longrightarrow> js_string_opt (Some (JStr (the v))) = the v \<and> the v \<noteq> [] \<and> Some (the v) = v" for v
    by (cases v) (simp_all add: js_string_opt_def)
  show ?thesis unfolding at m using c by simp
qed

lemma fresh_ids:
  assumes "gives_bytes e" "\<not> truthy_str (tx_trace (heap w a))" "\<not> truthy_str (tx_span (heap w a))"
  obtains tid sid where "tx_trace (heap (snd (export_post e t a w)) a) = Some tid" "hex_id 32 tid"
    "tx_span (heap (snd (export_post e t a w)) a) = Some sid" "hex_id 16 sid"
proof -
  have "snd (export_post e t a w) = prepare e a w" using export_post_body(2) [OF prod.collapse [symmetric]] .
  then show thesis using that assms(2,3) generated_id [OF assms(1), of 16] generated_id [OF assms(1), of 8]
    by (simp add: prepare_trace prepare_span)
qed

lemma fresh_span_read:
  assumes "gives_bytes e" "\<not> truthy_str (tx_trace (heap w a))" "\<not> truthy_str (tx_span (heap w a))" "readable_span (heap w a)"
  shows "\<exists>sp. ParseOTLPTracesJSON (po_body (fst (export_post e t a w))) = Some [sp]"
proof -
  let ?s = "heap (snd (export_post e t a w)) a"
  obtain tid sid where i: "tx_trace ?s = Some tid" "hex_id 32 tid" "tx_span ?s = Some sid" "hex_id 16 sid"
    by (rule fresh_ids [OF assms(1-3)])
  have "tid \<noteq> [] \<and> sid \<noteq> []" using i by (auto simp: hex_id_def)
  moreover have "readable_span ?s"
    using assms(4) export_post_body(2) [OF prod.collapse [symmetric], of e t a w] by (simp add: readable_prepared)
  ultimately show ?thesis
    using i by (simp add: parse_export [OF prod.collapse [symmetric]] spans_sent trim_hex_id)
qed

lemma sample_sent_ids:
  "\<exists>tid. tx_trace (heap (snd (export_post sample_node sample_transport 0 sample_world)) 0) = Some tid \<and> hex_id 32 tid"
  "\<exists>sid. tx_span (heap (snd (export_post sample_node sample_transport 0 sample_world)) 0) = Some sid \<and> hex_id 16 sid"
proof -
  have n: "\<not> truthy_str (tx_trace (heap sample_world 0))" "\<not> truthy_str (tx_span (heap sample_world 0))"
    by (simp_all add: sample_world_def bare_span_def)
  show "\<exists>tid. tx_trace (heap (snd (export_post sample_node sample_transport 0 sample_world)) 0) = Some tid \<and> hex_id 32 tid"
    "\<exists>sid. tx_span (heap (snd (export_post sample_node sample_transport 0 sample_world)) 0) = Some sid \<and> hex_id 16 sid"
    by (rule fresh_ids [OF sample_bytes n], blast)+
qed


lemma sample_attributes: "distinct (map fst (coalesce (tx_attributes (heap sample_world 0)) []))"
  by (simp add: sample_world_def bare_span_def)


text \<open>C18. The hub does not keep the span ids the transport sends: the 16 digits that the \<open>traceparent\<close> of the next hop
  names pass for base64, so that a span whose id was generated, or given as 16 lower-case hexadecimal digits, is stored under another id,
  of 24 characters. The parents are renamed alike: a span that any transport exports with such a parent, or with none, is stored
  as a child of the first one exactly when that parent is the id the first one was sent with.\<close>

theorem hub_renames_span_ids:
  assumes "gives_bytes e" "export_post e t a w = (req, w')" "export_post e u b v = (req2, v')"
    "truthy_str (tx_span (heap w a)) \<Longrightarrow> hex_id 16 (the (tx_span (heap w a)))"
    "ParseOTLPTracesJSON (po_body req) = Some [sp]" "ParseOTLPTracesJSON (po_body req2) = Some [child]"
    "p = coalesce (tx_parent (heap v b)) []" "p = [] \<or> hex_id 16 p"
  shows "\<exists>sid. tx_span (heap w' a) = Some sid \<and> hex_id 16 sid
    \<and> hp_span sp \<noteq> sid \<and> length (hp_span sp) = 24
    \<and> (hp_parent child = hp_span sp \<longleftrightarrow> p = sid)"
proof -
  obtain sid where i: "tx_span (heap w' a) = Some sid" "hex_id 16 sid"
    using prepared_span_id [OF assms(1) assms(4)] unfolding export_post_body(2) [OF assms(2)] by blast
  have "sp = stored_span t (heap w' a)" "child = stored_span u (heap v' b)"
    using assms(5,6) unfolding parse_export [OF assms(2)] parse_export [OF assms(3)] spans_sent by (auto split: if_splits)
  then have h: "hp_span sp = decodeID sid" "hp_parent child = decodeID p"
    using i export_post_body(2) [OF assms(3)] by (simp_all add: stored_span_def hub_span_of_def wire_of_def Let_def prepare_rest assms(7))
  have l: "length (decodeID sid) = 24" by (rule decodeID_span_length [OF i(2)])
  have "decodeID sid \<noteq> sid" using l i(2) by (auto simp: hex_id_def)
  moreover have "decodeID p = decodeID sid \<longleftrightarrow> p = sid"
    using assms(8) decodeID_span_inject [OF _ i(2)] l decodeID_blank [of "[]"] by (auto simp: go_trim_def)
  ultimately show ?thesis using i l h by auto
qed

definition child_world :: world where
  "child_world = sample_world\<lparr>heap := (\<lambda>_. bare_span\<lparr>tx_parent := tx_span (heap (snd (export_post sample_node sample_transport 0 sample_world)) 0)\<rparr>)\<rparr>"

lemma hub_renames_span_ids_witness:
  "\<exists>sid sp child. tx_span (heap (snd (export_post sample_node sample_transport 0 sample_world)) 0) = Some sid
    \<and> ParseOTLPTracesJSON (po_body (fst (export_post sample_node sample_transport 0 sample_world))) = Some [sp]
    \<and> ParseOTLPTracesJSON (po_body (fst (export_post sample_node sample_transport 0 child_world))) = Some [child]
    \<and> hp_span sp \<noteq> sid \<and> hp_parent child = hp_span sp"
proof -
  let ?x = "export_post sample_node sample_transport 0"
  have r: "readable_span bare_span" "readable_span (bare_span\<lparr>tx_parent := q\<rparr>)" for q by (simp_all add: readable_span_def bare_span_def)
  obtain sid where s: "tx_span (heap (snd (?x sample_world)) 0) = Some sid" "hex_id 16 sid" using sample_sent_ids by blast
  have n: "\<not> truthy_str (tx_span (heap sample_world 0))" "\<not> truthy_str (tx_trace (heap sample_world 0))"
    "\<not> truthy_str (tx_span (heap child_world 0))" "\<not> truthy_str (tx_trace (heap child_world 0))"
    "readable_span (heap sample_world 0)" "readable_span (heap child_world 0)"
    by (simp_all add: sample_world_def child_world_def r) (simp_all add: bare_span_def)
  obtain sp child where p: "ParseOTLPTracesJSON (po_body (fst (?x sample_world))) = Some [sp]"
    "ParseOTLPTracesJSON (po_body (fst (?x child_world))) = Some [child]"
    using fresh_span_read [OF sample_bytes n(2,1,5)] fresh_span_read [OF sample_bytes n(4,3,6)] by blast
  have c: "coalesce (tx_parent (heap child_world 0)) [] = sid" by (simp add: child_world_def s(1))
  from hub_renames_span_ids [OF sample_bytes prod.collapse [symmetric] prod.collapse [symmetric] _ p c [symmetric]] n(1) s p
  show ?thesis by auto
qed

lemma auth_post: "auth agent_token (post_headers t) \<longleftrightarrow> agent_token = [] \<or> tp_token t = agent_token"
proof -
  have "coalesce (map_of (post_headers t) ''Authorization'') [] = (if tp_token t \<noteq> [] then ''Bearer '' @ tp_token t else [])"
    by (simp add: post_headers_def)
  moreover have "trim_prefix p [] = []" for p by (cases p) (simp_all add: trim_prefix_def)
  ultimately show ?thesis by (auto simp: auth_def trim_prefix_append simp del: append_Cons)
qed

text \<open>A bound on the length of what is posted, which the limits of the hub are about.\<close>

fun json_size :: "json \<Rightarrow> nat" where
  "json_size JNull = 4"
| "json_size (JBool b) = 5"
| "json_size (JNum n) = length (num_string n) + 4"
| "json_size (JStr s) = 6 * length s + 2"
| "json_size (JArr xs) = 2 + sum_list (map (\<lambda>x. json_size x + 1) xs)"
| "json_size (JObj ms) = 2 + sum_list (map (\<lambda>m. 6 * length (fst m) + 4 + json_size (snd m)) ms)"

lemma length_join: "length (join [c] xs) \<le> sum_list (map (\<lambda>x. length x + 1) xs)"
  by (induction "[c]" xs rule: join.induct) auto

lemma length_json_quote: "length (json_quote s) \<le> 6 * length s + 2"
proof -
  have "length (json_char c) \<le> 6" for c by (simp add: json_char_def Let_def)
  then have "length (concat (map json_char s)) \<le> 6 * length s" by (induction s) (auto intro: add_mono)
  then show ?thesis by (simp add: json_quote_def)
qed

lemma length_json_stringify: "length (json_stringify v) \<le> json_size v"
proof (induction v rule: json_stringify.induct)
  case (5 xs)
  have "sum_list (map (\<lambda>x. length x + 1) (map json_stringify xs)) \<le> sum_list (map (\<lambda>x. json_size x + 1) xs)"
    using 5 unfolding map_map o_def by (intro sum_list_mono) simp
  then show ?case using length_join [of "CHR '',''" "map json_stringify xs"] by simp
next
  case (6 ms)
  have "length (json_quote (fst m) @ '':'' @ json_stringify (snd m)) + 1 \<le> 6 * length (fst m) + 4 + json_size (snd m)" if "m \<in> set ms" for m
    using length_json_quote [of "fst m"] 6 [of m "fst m" "snd m"] that by simp
  then have "sum_list (map (\<lambda>m. length (json_quote (fst m) @ '':'' @ json_stringify (snd m)) + 1) ms)
    \<le> sum_list (map (\<lambda>m. 6 * length (fst m) + 4 + json_size (snd m)) ms)"
    by (intro sum_list_mono) simp
  then show ?case using length_join [of "CHR '',''" "map (\<lambda>(k, v). json_quote k @ '':'' @ json_stringify v) ms"]
    by (simp add: split_beta o_def)
qed (auto split: jsnum.splits intro: le_trans [OF length_json_quote])


lemma nats: "length (num_string (Fin 3)) = 1" "length (num_string (Fin 2)) = 1" by code_simp+

lemma sample_fits: "go_len (po_body (fst (export_post sample_node sample_transport 0 sample_world))) \<le> 20000"
proof -
  let ?w = "prepare sample_node 0 sample_world"
  let ?t = "JStr (nat_digits 1700000000000000000)"
  have b: "po_body (fst (export_post sample_node sample_transport 0 sample_world))
      = json_stringify (document sample_transport [encode_span (heap ?w 0)])"
    using export_post_body(1,2) [OF prod.collapse [symmetric]] by simp
  have s: "heap ?w 0 = bare_span\<lparr>tx_trace := Some (hex_string (random_bytes sample_node 0 16)),
      tx_span := Some (hex_string (random_bytes sample_node 1 8)), tx_start := Some ?t, tx_end := Some ?t\<rparr>"
    by (simp add: prepare_def fill_defs sample_world_def bare_span_def truthy_opt_def write_span_def tick_def nowNano_def sample_node_def)
  have l: "length (random_bytes sample_node k n) = n" for k n using sample_bytes by (simp add: gives_bytes_def)
  have "length (nat_digits 1700000000000000000) \<le> 19" using length_nat_digits [of _ 18] by simp
  then have "json_size (document sample_transport [encode_span (heap ?w 0)]) \<le> 10000"
    unfolding s
    by (simp add: document_def encode_span_def bare_span_def resource_attributes_def sample_transport_def createTransport_def
       sample_args_def string_attribute_def optional_member_def span_attributes_def js_string_opt_def enum_value_def KINDS_def
       STATUS_def object_entries_def index_key_def is_digit_def nats l)
  then show ?thesis
    using go_len_le [of "json_stringify (document sample_transport [encode_span (heap ?w 0)])"]
      length_json_stringify [of "document sample_transport [encode_span (heap ?w 0)]"] unfolding b by linarith
qed


end
