(* ===== verification/Dev_Proxy.thy ===== *)
theory Dev_Proxy
  imports Otlp_Ingest
begin

text \<open>
  The proxy of the development server (\<open>vite.config.ts\<close>), through which the panel reaches a hub on another
  port: the first rule whose prefix the address has, and the token that only the first rule puts on. The panel itself
  sends no \<open>Authorization\<close> (\<open>lib/api.ts\<close>). The other options of the file are those of the bundler.
\<close>

record dev_env =
  VITE_HUB_PROXY :: "string option"
  ARGUS_AGENT_TOKEN :: "string option"

definition hub_target :: "dev_env \<Rightarrow> string" where
  "hub_target env = coalesce (VITE_HUB_PROXY env) ''http://127.0.0.1:8080''"

definition set_token :: "dev_env \<Rightarrow> (string \<times> string) list \<Rightarrow> (string \<times> string) list" where
  "set_token env hs =
     (if truthy_str (ARGUS_AGENT_TOKEN env) then map_set ''Authorization'' (''Bearer '' @ the (ARGUS_AGENT_TOKEN env)) hs else hs)"

definition proxy_rules :: "(string \<times> (dev_env \<Rightarrow> (string \<times> string) list \<Rightarrow> (string \<times> string) list)) list" where
  "proxy_rules = [(''/api'', set_token), (''/health'', \<lambda>_ hs. hs)]"

text \<open>Where a request goes with which headers; None is answered by the development server itself.\<close>

definition dev_proxy :: "dev_env \<Rightarrow> string \<Rightarrow> (string \<times> string) list \<Rightarrow> (string \<times> (string \<times> string) list) option" where
  "dev_proxy env path hs =
     map_option (\<lambda>(_, configure). (hub_target env, configure env hs)) (List.find (\<lambda>(prefix, _). starts_with path prefix) proxy_rules)"

lemma auth_bearer: "auth agent_token (map_set ''Authorization'' (''Bearer '' @ k) hs) \<longleftrightarrow> agent_token = [] \<or> k = agent_token"
proof -
  have "coalesce (map_of (map_set ''Authorization'' (''Bearer '' @ k) hs) ''Authorization'') [] = ''Bearer '' @ k"
    using map_get_set [of "''Authorization''" "''Bearer '' @ k" hs "''Authorization''"] by (simp add: map_get_def)
  then show ?thesis by (simp only: auth_def trim_prefix_append)
qed

text \<open>
  A request of the panel, which carries no token of its own, passes the hub's check behind the proxy exactly when
  the hub has no token or the environment has the same one, and never reaches another target.
\<close>

lemma proxied_panel_admitted:
  assumes "starts_with path ''/api''" "map_of hs ''Authorization'' = None"
  shows "\<exists>hs'. dev_proxy env path hs = Some (hub_target env, hs')
    \<and> (auth agent_token hs' \<longleftrightarrow> agent_token = [] \<or> coalesce (ARGUS_AGENT_TOKEN env) [] = agent_token)"
proof -
  have "dev_proxy env path hs = Some (hub_target env, set_token env hs)"
    using assms(1) by (simp add: dev_proxy_def proxy_rules_def)
  moreover have "auth agent_token (set_token env hs) \<longleftrightarrow> agent_token = [] \<or> coalesce (ARGUS_AGENT_TOKEN env) [] = agent_token"
  proof (cases "truthy_str (ARGUS_AGENT_TOKEN env)")
    case True
    then obtain k where k: "ARGUS_AGENT_TOKEN env = Some k" by (cases "ARGUS_AGENT_TOKEN env") simp_all
    show ?thesis using True unfolding k set_token_def by (simp only: if_True option.sel auth_bearer coalesce_simps)
  next
    case False
    then have "coalesce (ARGUS_AGENT_TOKEN env) [] = []" by (cases "ARGUS_AGENT_TOKEN env") simp_all
    with False assms(2) show ?thesis by (auto simp: set_token_def auth_def trim_prefix_def)
  qed
  ultimately show ?thesis by blast
qed

lemma health_has_no_token: "dev_proxy env ''/health'' hs = Some (hub_target env, hs)"
  by (simp add: dev_proxy_def proxy_rules_def)

end
