(* ===== verification/Hub_Contract.thy ===== *)
theory Hub_Contract
  imports Problems Traces Go_Text
begin

text \<open>
  The other end of the requests: what the hub (\<open>internal/hub\<close>, Go) does with the window and the page of a
  list request, \<open>window.go\<close>, \<open>page.go\<close>, the list handlers of \<open>server.go\<close> and \<open>traces.go\<close>, the handler of \<open>topology.go\<close> and
  the graph it asks for (\<open>GetTopology\<close> in \<open>store/postgres/patterns.go\<close>), as far as the panel depends on it. The queries
  to the database are parameters, each of which may fail: one that counts and one that reads a page of the rows of a list, and
  one for each of the two tables behind the graph. So are \<open>time.Parse\<close> and \<open>time.ParseDuration\<close>. Instants are
  nanoseconds. The panel's client is then run against this hub.
\<close>

subsection \<open>The window of a request\<close>

record go_time =
  parse_rfc3339 :: "string \<Rightarrow> int option"
  parse_duration :: "string \<Rightarrow> int option"

type_synonym window = "int \<times> int option"

definition maxQueryWindow :: int where
  "maxQueryWindow = 24 * 3600000000000"

text \<open>\<open>strings.Cut\<close> at the first occurrence.\<close>

definition cut_at :: "string \<Rightarrow> string \<Rightarrow> (string \<times> string) option" where
  "cut_at s sep = map_option (\<lambda>i. (take i s, drop (i + length sep) s)) (index_of s sep)"

definition hub_split_range :: "go_time \<Rightarrow> string \<Rightarrow> (int \<times> int) option" where
  "hub_split_range g raw =
     (case cut_at raw ''..'' of
        None \<Rightarrow> None
      | Some (a, b) \<Rightarrow>
          if a = [] \<or> b = [] then None
          else case (parse_rfc3339 g a, parse_rfc3339 g b) of
                 (Some s, Some f) \<Rightarrow> Some (s, f) | _ \<Rightarrow> None)"

text \<open>None is the error \<open>invalid range\<close>; an open window has no end.\<close>

definition requestWindow :: "go_time \<Rightarrow> int \<Rightarrow> int \<Rightarrow> params \<Rightarrow> window option" where
  "requestWindow g now dflt ps =
     (let raw = go_trim (coalesce (params_get ps ''since'') []) in
      if raw = [] then Some (now - dflt, None)
      else case hub_split_range g raw of
        Some (start, fin) \<Rightarrow>
          (let fin = (if fin > now then now else fin) in
           if \<not> fin > start \<or> fin - start > maxQueryWindow then None else Some (start, Some fin))
      | None \<Rightarrow>
          (case parse_duration g raw of
             Some d \<Rightarrow> if d \<le> 0 then Some (now - dflt, None) else Some (now - d, None)
           | None \<Rightarrow> Some (now - dflt, None)))"

subsection \<open>The page of a request\<close>

text \<open>\<open>strconv.Atoi\<close>: an optional sign and decimal digits, within 64 bits.\<close>

definition atoi :: "string \<Rightarrow> int option" where
  "atoi s =
     (let (neg, ds) = split_sign s in
      if ds = [] \<or> \<not> list_all is_digit ds then None
      else let n = (if neg then - digits_int ds else digits_int ds) in
           if - (2 ^ 63) \<le> n \<and> n < 2 ^ 63 then Some n else None)"

definition positive_param :: "params \<Rightarrow> string \<Rightarrow> int \<Rightarrow> int" where
  "positive_param ps key dflt =
     (let raw = coalesce (params_get ps key) [] in
      if raw = [] then dflt
      else case atoi raw of Some n \<Rightarrow> if n > 0 then n else dflt | None \<Rightarrow> dflt)"

definition pageWindow :: "params \<Rightarrow> int \<Rightarrow> int \<times> int" where
  "pageWindow ps dflt =
     (let l = positive_param ps ''limit'' dflt; l = (if l > 200 then 200 else l);
          o' = positive_param ps ''offset'' 0; o' = (if o' > 100000 then 100000 else o')
      in (l, o'))"

subsection \<open>The list handlers\<close>

datatype store_failure = Group_Missing | Store_Failed

definition plain_error :: "nat \<Rightarrow> string \<Rightarrow> 'a response" where
  "plain_error code text = \<lparr>res_status = code, res_status_text = text, res_json = Inl (Body_Error [])\<rparr>"

definition store_error :: "store_failure \<Rightarrow> 'a response" where
  "store_error f = (case f of Group_Missing \<Rightarrow> plain_error 404 ''Not Found''
                            | Store_Failed \<Rightarrow> plain_error 500 ''Internal Server Error'')"

definition window_page :: "'a list \<Rightarrow> int \<Rightarrow> int \<Rightarrow> 'a list" where
  "window_page rows l o' = take (nat l) (drop (nat o') rows)"

definition list_body :: "'a list \<Rightarrow> nat \<Rightarrow> int \<Rightarrow> int \<Rightarrow> bool \<Rightarrow> 'a body" where
  "list_body es n l o' trunc =
     Object ([(''entries'', Rows_Field es), (''total'', Value_Field (JNum (num_of_int (int n)))),
              (''limit'', Value_Field (JNum (num_of_int l))), (''offset'', Value_Field (JNum (num_of_int o')))]
             @ (if trunc then [(''truncated'', Value_Field (JBool True))] else []))"

text \<open>What a handler makes of its two queries, the count of the rows and the page of them.\<close>

definition two_queries :: "nat option \<Rightarrow> 'a list option \<Rightarrow> int \<Rightarrow> int \<Rightarrow> 'a body response" where
  "two_queries counted page l o' =
     (case counted of
        None \<Rightarrow> store_error Store_Failed
      | Some n \<Rightarrow>
          (case page of
             None \<Rightarrow> store_error Store_Failed
           | Some es \<Rightarrow> \<lparr>res_status = 200, res_status_text = ''OK'', res_json = Inr (list_body es n l o' False)\<rparr>))"

text \<open>Log lines: the filter is made of the parameters, a group gives the names of its containers or fails.\<close>

record log_search_filter =
  lq_query :: string
  lq_entity_uid :: string
  lq_container :: string
  lq_level :: string
  lq_topic :: string
  lq_trace_id :: string
  lq_since :: int
  lq_until :: "int option"
  lq_limit :: int
  lq_offset :: int
  lq_containers :: "string list"

record log_store =
  resolve_group :: "string \<Rightarrow> store_failure + string list"
  count_logs :: "log_search_filter \<Rightarrow> nat option"
  search_logs :: "log_search_filter \<Rightarrow> log_row list option"

definition log_filter :: "log_store \<Rightarrow> window \<Rightarrow> params \<Rightarrow> store_failure + log_search_filter" where
  "log_filter store win ps =
     (let get = (\<lambda>k. coalesce (params_get ps k) []); (l, o') = pageWindow ps 50;
          f = \<lparr>lq_query = get ''q'', lq_entity_uid = get ''entity_uid'', lq_container = get ''container'', lq_level = get ''level'',
               lq_topic = get ''topic'', lq_trace_id = get ''trace_id'', lq_since = fst win, lq_until = snd win,
               lq_limit = l, lq_offset = o', lq_containers = []\<rparr>
      in if get ''group'' \<noteq> [] then map_sum id (\<lambda>names. f\<lparr>lq_containers := names\<rparr>) (resolve_group store (get ''group'')) else Inr f)"

definition handleSearchLogs :: "go_time \<Rightarrow> int \<Rightarrow> log_store \<Rightarrow> params \<Rightarrow> log_row body response" where
  "handleSearchLogs g now store ps =
     (case requestWindow g now (15 * 60000000000) ps of
        None \<Rightarrow> plain_error 400 ''Bad Request''
      | Some win \<Rightarrow>
          (case log_filter store win ps of
             Inl f \<Rightarrow> store_error f
           | Inr f \<Rightarrow> two_queries (count_logs store f) (search_logs store f) (lq_limit f) (lq_offset f)))"

record event_store =
  count_events :: "string \<Rightarrow> window \<Rightarrow> nat option"
  list_events :: "string \<Rightarrow> window \<Rightarrow> int \<Rightarrow> int \<Rightarrow> event_row list option"

definition handleListEvents :: "go_time \<Rightarrow> int \<Rightarrow> event_store \<Rightarrow> params \<Rightarrow> event_row body response" where
  "handleListEvents g now store ps =
     (let uid = coalesce (params_get ps ''entity_uid'') [] in
      case requestWindow g now (24 * 3600000000000) ps of
        None \<Rightarrow> plain_error 400 ''Bad Request''
      | Some win \<Rightarrow>
          (let (l, o') = pageWindow ps 50
           in two_queries (count_events store uid win) (list_events store uid win l o') l o'))"

text \<open>The list of traces also says whether the scan behind it was cut off. An offset beyond the end is
  lowered to it for the rows, but reported as it was asked for.\<close>

definition handleListTraces ::
  "go_time \<Rightarrow> int \<Rightarrow> (window \<Rightarrow> params \<Rightarrow> store_failure + trace_summary list \<times> bool) \<Rightarrow> params \<Rightarrow> trace_summary body response" where
  "handleListTraces g now store ps =
     (case requestWindow g now 3600000000000 ps of
        None \<Rightarrow> plain_error 400 ''Bad Request''
      | Some win \<Rightarrow>
          (let (l, o') = pageWindow ps 50 in
           case store win ps of
             Inl f \<Rightarrow> store_error f
           | Inr (rows, trunc) \<Rightarrow>
               \<lparr>res_status = 200, res_status_text = ''OK'',
                res_json = Inr (list_body (window_page rows l (min o' (int (length rows)))) (length rows) l o' trunc)\<rparr>))"

subsection \<open>The graph of services\<close>

text \<open>
  The two tables, observed links and edges inferred from log text, are each read from the start of the window on, busiest
  first and 200 rows at most; an inferred edge gives way to an observed link of the same pair.
\<close>

record link_row =
  gl_source :: string
  gl_target :: string
  gl_kind :: string
  gl_port :: int
  gl_count :: int

record edge_row =
  er_source :: string
  er_target :: string
  er_kind :: string
  er_count :: int

record graph_store =
  links_since :: "int \<Rightarrow> link_row list option"
  edges_since :: "int \<Rightarrow> edge_row list option"

record go_edge =
  ge_source :: string
  ge_target :: string
  ge_kind :: string
  ge_count :: int
  ge_origin :: string
  ge_port :: int

definition observed_edge :: "link_row \<Rightarrow> go_edge" where
  "observed_edge r = \<lparr>ge_source = gl_source r, ge_target = gl_target r, ge_kind = gl_kind r, ge_count = gl_count r,
     ge_origin = ''kernel'', ge_port = gl_port r\<rparr>"

definition inferred_edge :: "edge_row \<Rightarrow> go_edge" where
  "inferred_edge r = \<lparr>ge_source = er_source r, ge_target = er_target r, ge_kind = er_kind r, ge_count = er_count r,
     ge_origin = ''log'', ge_port = 0\<rparr>"

definition pair_key :: "string \<Rightarrow> string \<Rightarrow> string" where
  "pair_key a b = a @ CHR 0x00 # b"

definition topologyEdgeLimit :: nat where
  "topologyEdgeLimit = 200"

definition merged_edges :: "link_row list \<Rightarrow> edge_row list \<Rightarrow> go_edge list" where
  "merged_edges links inferred =
     (let seen = map (\<lambda>r. pair_key (gl_source r) (gl_target r)) links in
      map observed_edge links @ map inferred_edge (filter (\<lambda>r. pair_key (er_source r) (er_target r) \<notin> set seen) inferred))"

definition GetTopology :: "graph_store \<Rightarrow> int \<Rightarrow> (string list \<times> go_edge list) option" where
  "GetTopology st since =
     (case links_since st since of
        None \<Rightarrow> None
      | Some observed \<Rightarrow>
          (case edges_since st since of
             None \<Rightarrow> None
           | Some inferred \<Rightarrow>
               (let edges = take topologyEdgeLimit (sort_key (\<lambda>e. - ge_count e) (merged_edges observed inferred));
                    nodes = sort (remdups (concat (map (\<lambda>e. [ge_source e, ge_target e]) edges)))
                in Some (nodes, edges))))"

text \<open>As JSON, without an origin or a port that is zero; the label of a node is its name.\<close>

definition written_edge :: "go_edge \<Rightarrow> topology_edge" where
  "written_edge e = \<lparr>te_source = ge_source e, te_target = ge_target e, te_kind = ge_kind e, te_count = ge_count e,
     te_origin = (if ge_origin e = [] then None else Some (ge_origin e)), te_port = (if ge_port e = 0 then None else Some (ge_port e))\<rparr>"

definition handleTopology :: "go_time \<Rightarrow> int \<Rightarrow> graph_store \<Rightarrow> params \<Rightarrow> topology_graph response" where
  "handleTopology g now store ps =
     (case requestWindow g now (24 * 3600000000000) ps of
        None \<Rightarrow> plain_error 400 ''Bad Request''
      | Some (since, _) \<Rightarrow>
          (case GetTopology store since of
             None \<Rightarrow> plain_error 500 ''Internal Server Error''
           | Some (ids, es) \<Rightarrow>
               \<lparr>res_status = 200, res_status_text = ''OK'',
                res_json = Inr \<lparr>tg_nodes = Some (map (\<lambda>i. \<lparr>tn_id = i, tn_label = i\<rparr>) ids),
                                tg_edges = Some (map written_edge es)\<rparr>\<rparr>))"

subsection \<open>The network between them\<close>

text \<open>A \<open>fetch\<close> that leads to a handler: the part of the address after the question mark is the query.\<close>

definition hub_fetch :: "string \<Rightarrow> (params \<Rightarrow> 'a response) \<Rightarrow> 'a fetch" where
  "hub_fetch path handler url init =
     (if starts_with url path then
        case parse_query (drop (length path) url) of
          Some ps \<Rightarrow> Inr (handler ps)
        | None \<Rightarrow> Inr (plain_error 400 ''Bad Request'')
      else Inr (plain_error 404 ''Not Found''))"

lemma hub_fetch_query: "parse_query q = Some ps \<Longrightarrow> hub_fetch path handler (path @ q) init = Inr (handler ps)"
  by (simp add: hub_fetch_def)

lemma since_query: "parse_query (''since='' @ encodeURIComponent v) = Some [(''since'', v)]"
  using parse_query_text [of "[(''since'', encodeURIComponent v)]" "[(''since'', v)]"] coded_intros(1) [of v]
  by (simp add: query_text_def self_coded_def)

subsection \<open>Numbers in the query\<close>

lemma split_sign_digits: "list_all is_digit s \<Longrightarrow> split_sign s = (False, s)"
  using digit_units by (cases s) (auto simp: split_sign_def)

lemma atoi_digits: "int n < 2 ^ 63 \<Longrightarrow> atoi (nat_digits n) = Some (int n)"
  using nat_digits_digits [of n] split_sign_digits [of "nat_digits n"]
  by (simp add: atoi_def list_all_iff digits_int_def)

lemma positive_param_count:
  assumes "params_get ps key = Some (num_string (Fin (of_int n)))" "0 \<le> n" "n \<le> 2 ^ 53"
  shows "positive_param ps key dflt = (if n > 0 then n else dflt)"
proof -
  obtain m where m: "n = int m" using assms(2) nonneg_int_cases by blast
  have "num_string (Fin (of_int n)) = nat_digits m" using num_string_nat [of m] assms by (simp add: m)
  then show ?thesis using assms atoi_digits [of m] by (simp add: positive_param_def m)
qed

lemma pageWindow_request:
  assumes "params_get q ''limit'' = Some (num_string (Fin 50))"
    and "params_get q ''offset'' = Some (num_string ((Fin (of_int k) - 1) * Fin 50))"
    and "1 \<le> k" "k \<le> 2 ^ 32"
  shows "pageWindow q 50 = (50, min ((k - 1) * 50) 100000)"
proof -
  have s: "Fin (of_int k) - 1 = Fin (of_int (k - 1))" using assms(3,4) minus_of_int [of k 1] by simp
  have t: "Fin (of_int (k - 1)) * Fin 50 = Fin (of_int ((k - 1) * 50))"
    using assms(3,4) times_of_int [of "k - 1" 50] by simp
  have l: "positive_param q ''limit'' 50 = 50" using positive_param_count [of q "''limit''" 50] assms(1) by simp
  have "positive_param q ''offset'' 0 = (k - 1) * 50"
    using positive_param_count [OF assms(2) [unfolded s t]] assms(3,4) by simp
  then show ?thesis unfolding pageWindow_def Let_def l by simp
qed

subsection \<open>The client against the hub\<close>

text \<open>The page the client makes of the body of a list.\<close>

lemma asPage_list_body:
  "asPage (list_body es n l o' trunc) =
     \<lparr>entries = es, total = num_of_int (int n), limit = num_of_int l, offset = num_of_int o', truncated = trunc\<rparr>"
  by (simp add: asPage_def list_body_def number_field_def truthy_field_def)

definition hub_page :: "'a list \<Rightarrow> int \<Rightarrow> bool \<Rightarrow> 'a list_page" where
  "hub_page rows k trunc =
     (let o' = min ((k - 1) * 50) 100000 in
      \<lparr>entries = window_page rows 50 o', total = length_num rows, limit = Fin 50, offset = Fin (of_int o'), truncated = trunc\<rparr>)"

text \<open>A handler that answers the request of a page with the rows of its window, as the list handlers do.\<close>

definition answers_rows :: "(params \<Rightarrow> 'a body response) \<Rightarrow> params \<Rightarrow> 'a list \<Rightarrow> bool \<Rightarrow> bool" where
  "answers_rows handler q rows trunc \<longleftrightarrow>
     (let (l, o') = pageWindow q 50 in
      handler q = \<lparr>res_status = 200, res_status_text = ''OK'',
                   res_json = Inr (list_body (window_page rows l o') (length rows) l o' trunc)\<rparr>)"

text \<open>A list of the panel that the hub pages: the request of page \<open>p\<close> asks for 50 rows from \<open>(p - 1) * 50\<close>.\<close>

locale remote_list =
  fixes ask :: "params \<Rightarrow> 'a body fetch \<Rightarrow> api_error + 'a list_page"
    and path :: string
    and query :: "params \<Rightarrow> params"
  assumes ask: "ask ps fetch = then_value asPage (request fetch path (params_string (query ps)) None)"
    and limit_param: "params_get (query ps) ''limit'' = Some (num_string (Fin 50))"
    and offset_param: "params_get (query ps) ''offset'' = Some (num_string ((log_page ps - 1) * Fin 50))"
begin

lemma asked: "ask ps (hub_fetch path handler) =
    (if res_ok (handler (query ps)) then then_value asPage (res_json (handler (query ps)))
     else Inl (status_error (handler (query ps))))"
  by (simp add: ask request_def hub_fetch_def parse_params_string then_value_def split: sum.split)

lemma page_window:
  assumes "log_page ps = Fin (of_int k)" "1 \<le> k" "k \<le> 2 ^ 32"
  shows "pageWindow (query ps) 50 = (50, min ((k - 1) * 50) 100000)"
  using offset_param [of ps] by (intro pageWindow_request [OF limit_param _ assms(2,3)]) (simp add: assms(1))

lemma shown:
  assumes "answers_rows handler (query ps) rows trunc" "length rows < 2 ^ 32"
    and "log_page ps = Fin (of_int k)" "1 \<le> k" "k \<le> 2 ^ 32"
  shows "ask ps (hub_fetch path handler) = Inr (hub_page rows k trunc)"
proof -
  let ?o = "min ((k - 1) * 50) 100000"
  have h: "handler (query ps) = \<lparr>res_status = 200, res_status_text = ''OK'',
      res_json = Inr (list_body (window_page rows 50 ?o) (length rows) 50 ?o trunc)\<rparr>"
    using assms(1) page_window [OF assms(3-)] by (simp add: answers_rows_def)
  have "num_of_int 50 = Fin 50" using num_of_int_eq [of 50] by simp
  moreover have "\<bar>?o\<bar> \<le> 2 ^ 53" using assms(4) by (simp add: min_def abs_if)
  then have "num_of_int ?o = Fin (of_int ?o)" by (rule num_of_int_eq)
  ultimately show ?thesis
    unfolding asked h by (simp add: res_ok_def asPage_list_body hub_page_def length_num_def Let_def)
qed

lemma refused: "handler (query ps) = plain_error code text \<Longrightarrow> code < 200 \<or> 299 < code \<Longrightarrow>
    ask ps (hub_fetch path handler) = Inl (status_error (plain_error code text))"
  by (simp add: asked res_ok_def plain_error_def) (auto simp: status_error_def)

end

lemma request_prefix: "request fetch base (a @ b) None = request fetch (base @ a) b None"
  by (simp add: request_def)

lemma search_params_page:
  "params_get (search_params p) ''limit'' = Some (num_string (coalesce (ls_limit p) (Fin 50)))"
  "params_get (search_params p) ''offset'' = Some (num_string (coalesce (ls_offset p) (Fin 0)))"
  unfolding search_params_def Let_def by (simp_all add: params_get_rules) (simp_all add: params_get_def)

interpretation remote_lines: remote_list "\<lambda>ps fetch. searchLogs fetch base (lines_request ps)"
  "base @ ''/api/v1/logs/search?''" "\<lambda>ps. search_params (lines_request ps)" for base
  by unfold_locales (simp_all add: searchLogs_def request_prefix [symmetric] search_params_page lines_request_def Let_def)

text \<open>The queries of the two other lists.\<close>

definition events_query :: "string \<Rightarrow> params \<Rightarrow> params" where
  "events_query since ps =
     [(''since'', since), (''limit'', num_string (Fin 50)), (''offset'', num_string ((log_page ps - 1) * Fin 50))]"

definition hub_traces_query :: "params \<Rightarrow> params" where
  "hub_traces_query ps =
     set_given ''service'' (given (query_value ''service'' [] ps))
       [(''since'', query_value ''since'' ''1h'' ps), (''limit'', num_string (Fin 50)),
        (''offset'', num_string ((log_page ps - 1) * Fin 50))]"

interpretation remote_events: remote_list "\<lambda>ps fetch. events_request fetch base since ps"
  "base @ ''/api/v1/events?''" "events_query since" for base since
  by unfold_locales
    (simp_all add: events_request_def listEvents_def events_query_def request_prefix [symmetric] set_given_def params_get_def)

interpretation remote_traces: remote_list "\<lambda>ps fetch. trace_list_request fetch base ps"
  "base @ ''/api/v1/traces?''" hub_traces_query for base
  by unfold_locales
    (simp_all add: trace_list_request_def fetchTraces_def hub_traces_query_def request_prefix [symmetric] Let_def
      params_get_given, simp_all add: params_get_def)

text \<open>
  The contract of a store: its two queries see the same rows in the same order. (The search orders by time alone, so for
  lines of one instant the order is up to the database; see the findings.)
\<close>

definition reads_lines :: "log_store \<Rightarrow> window \<Rightarrow> params \<Rightarrow> log_row list \<Rightarrow> bool" where
  "reads_lines store win q rows \<longleftrightarrow>
     (\<exists>f. log_filter store win q = Inr f \<and> count_logs store f = Some (length rows)
        \<and> search_logs store f = Some (window_page rows (lq_limit f) (lq_offset f)))"

definition reads_events :: "event_store \<Rightarrow> window \<Rightarrow> params \<Rightarrow> event_row list \<Rightarrow> bool" where
  "reads_events store win q rows \<longleftrightarrow>
     (let uid = coalesce (params_get q ''entity_uid'') []; (l, o') = pageWindow q 50 in
      count_events store uid win = Some (length rows) \<and> list_events store uid win l o' = Some (window_page rows l o'))"

lemma log_filter_page: "log_filter store win q = Inr f \<Longrightarrow> pageWindow q 50 = (lq_limit f, lq_offset f)"
  by (cases "resolve_group store (coalesce (params_get q ''group'') [])") (auto simp: log_filter_def Let_def split: prod.splits if_splits)

lemma lines_answers:
  "requestWindow g now (15 * 60000000000) q = Some win \<Longrightarrow> reads_lines store win q rows \<Longrightarrow>
     answers_rows (handleSearchLogs g now store) q rows False"
  by (auto simp: answers_rows_def handleSearchLogs_def reads_lines_def two_queries_def log_filter_page)

lemma events_answers:
  "requestWindow g now (24 * 3600000000000) q = Some win \<Longrightarrow> reads_events store win q rows \<Longrightarrow>
     answers_rows (handleListEvents g now store) q rows False"
  by (auto simp: answers_rows_def handleListEvents_def reads_events_def two_queries_def Let_def split: prod.splits)

lemma traces_answers:
  "requestWindow g now 3600000000000 q = Some win \<Longrightarrow> store win q = Inr (rows, trunc) \<Longrightarrow>
     answers_rows (handleListTraces g now store) q rows trunc"
  by (auto simp: answers_rows_def handleListTraces_def split_beta window_page_def min_def)

subsection \<open>A remote page is a slice\<close>

lemma start_in_reach:
  assumes "n \<le> 100050" "1 \<le> p" "p \<le> page_count n 50"
  shows "min ((int p - 1) * 50) 100000 = int ((p - 1) * 50)" and "(p - 1) * 50 \<le> n"
proof -
  have "(p - 1) * 50 \<le> n"
  proof (cases "n = 0")
    case True
    then show ?thesis using assms(3) by (simp add: page_count_def)
  next
    case False
    then have "p - 1 \<le> (n + 49) div 50 - 1" using assms(3) by (simp add: page_count_def max_def split: if_splits)
    then have "(p - 1) * 50 \<le> ((n + 49) div 50 - 1) * 50" by simp
    also have "\<dots> \<le> n" using div_times_less_eq_dividend [of "n + 49" 50] by (simp add: diff_mult_distrib)
    finally show ?thesis .
  qed
  then show "(p - 1) * 50 \<le> n" .
  then have "(p - 1) * 50 \<le> 100050" "(p - 1) * 50 \<noteq> 100050" if "(p - 1) * 50 \<noteq> n" using assms(1) that by auto
  moreover have "(p - 1) * 50 \<noteq> n" if "n = 100050" using assms that by (auto simp: page_count_def)
  ultimately have "(p - 1) * 50 < 100050" using \<open>(p - 1) * 50 \<le> n\<close> assms(1) by linarith
  then have "p - 1 \<le> 2000" by simp
  then have "int p \<le> 2001" by simp
  then have "(int p - 1) * 50 \<le> 100000" by simp
  then show "min ((int p - 1) * 50) 100000 = int ((p - 1) * 50)" using assms(2) by (simp add: of_nat_diff)
qed

lemma window_page_rows: "window_page rows 50 (int ((p - 1) * 50)) = page_rows rows 50 p"
  by (simp only: window_page_def page_rows_def nat_int nat_numeral)

lemma hub_page_slice:
  fixes rows :: "'a list"
  assumes "length rows \<le> 100050" "1 \<le> p" "p \<le> page_count (length rows) 50"
  defines "s \<equiv> pageSlice rows (Fin (of_int (int p))) (Fin (of_int (int 50)))"
  shows "entries (hub_page rows (int p) trunc) = ps_rows s"
    and "remote_pager t (hub_page rows (int p) trunc) (Fin (of_int (int p))) h
       = list_pager t (ps_start s) (ps_end s) (ps_total s) (ps_page s) (Fin 50) trunc h"
proof -
  let ?o = "(p - 1) * 50" and ?es = "page_rows rows 50 p"
  have len: "length rows < 2 ^ 32" using assms(1) by simp
  have r: "min ((int p - 1) * 50) 100000 = int ?o" "?o \<le> length rows"
    by (rule start_in_reach [OF assms(1-3)])+
  have pg: "hub_page rows (int p) trunc = \<lparr>entries = ?es, total = length_num rows, limit = Fin 50, offset = Fin (of_int (int ?o)), truncated = trunc\<rparr>"
    unfolding hub_page_def Let_def r(1) window_page_rows ..
  have cl: "clamp_page (length rows) 50 (int p) = p" using assms(2,3) by (simp add: clamp_page_def)
  have s: "s = \<lparr>ps_page = Fin (of_nat p), ps_rows = ?es, ps_total = Fin (of_nat (length rows)),
     ps_start = (if rows = [] then Fin 0 else Fin (of_nat (?o + 1))),
     ps_end = Fin (of_nat (min (length rows) (?o + length ?es)))\<rparr>"
    unfolding s_def using pageSlice_eq [OF len, of 50 "int p"] by (simp only: cl) simp
  have b: "?o + length ?es \<le> length rows" using r(2) by (auto simp: page_rows_def)
  have o1: "Fin (of_int (int ?o)) + 1 = Fin (of_nat (?o + 1))"
    using plus_of_int [of "int ?o" 1] r(2) assms(1) by simp
  have "length ?es < 2 ^ 32" using b assms(1) by simp
  then have oe: "Fin (of_int (int ?o)) + length_num ?es = Fin (of_nat (?o + length ?es))"
    using plus_of_int [of "int ?o" "int (length ?es)"] b assms(1) by (simp add: length_num_eq)
  have tot: "length_num rows = Fin (of_nat (length rows))" using length_num_eq [OF len] by simp
  have z: "num_eq (Fin (of_nat (length rows))) 0 \<longleftrightarrow> rows = []" by (simp add: num_eq_def)
  show "entries (hub_page rows (int p) trunc) = ps_rows s" by (simp add: pg s)
  have m: "min (length rows) (?o + length ?es) = ?o + length ?es" using b by simp
  have tn: "truthy_num (Fin 50)" by (simp add: truthy_num_def)
  show "remote_pager t (hub_page rows (int p) trunc) (Fin (of_int (int p))) h
       = list_pager t (ps_start s) (ps_end s) (ps_total s) (ps_page s) (Fin 50) trunc h"
    unfolding remote_pager_def pg s list_page.select_convs page_slice.select_convs o1 oe tot z m
    by (simp add: tn)
qed

text \<open>Behind the last page there is nothing, and the buttons are those of the last page.\<close>

lemma hub_page_past_end:
  fixes rows :: "'a list"
  assumes "length rows \<le> 100000" "int (page_count (length rows) 50) < k" "k \<le> 2 ^ 32"
  defines "c \<equiv> page_count (length rows) 50"
  shows "entries (hub_page rows k trunc) = []"
    and "elements ''Button'' (remote_pager t (hub_page rows k trunc) (Fin (of_int k)) h) =
      [button (c = 1) (h (Fin (of_int (int c - 1)))) (t ''common.pagerPrev'' []),
       button True (h (Fin (of_int (int c + 1)))) (t ''common.pagerNext'' [])]"
proof -
  let ?o = "min ((k - 1) * 50) 100000"
  have c1: "1 \<le> c" by (simp add: c_def page_count_def)
  have "length rows \<le> c * 50" unfolding c_def by (rule page_count_covers) simp
  then have "int (length rows) \<le> int (c * 50)" by (simp only: of_nat_le_iff)
  also have "\<dots> \<le> (k - 1) * 50" using assms(2) unfolding c_def [symmetric] by simp
  finally have "int (length rows) \<le> ?o" using assms(1) by simp
  from nat_mono [OF this] have "length rows \<le> nat ?o" by (simp only: nat_int)
  then show "entries (hub_page rows k trunc) = []" unfolding hub_page_def window_page_def Let_def by (simp only: list_page.select_convs drop_all take_Nil)
  have len: "length rows < 2 ^ 32" using assms(1) by simp
  have k: "\<bar>k\<bar> \<le> 2 ^ 53" using assms(2,3) c1 unfolding c_def by simp
  have q: "int c = min k (int (page_count (length rows) 50))" using assms(2) by (simp add: c_def)
  have e: "int c \<le> 1 \<longleftrightarrow> c = 1" "int (page_count (length rows) 50) \<le> int c \<or> rows = [] \<longleftrightarrow> True"
    using c1 by (auto simp: c_def)
  have tn: "truthy_num (Fin (of_int (int 50)))" by (simp add: truthy_num_def)
  have pg: "total (hub_page rows k trunc) = length_num rows" "limit (hub_page rows k trunc) = Fin (of_int (int 50))"
    by (simp_all add: hub_page_def Let_def)
  show "elements ''Button'' (remote_pager t (hub_page rows k trunc) (Fin (of_int k)) h) =
      [button (c = 1) (h (Fin (of_int (int c - 1)))) (t ''common.pagerPrev'' []),
       button True (h (Fin (of_int (int c + 1)))) (t ''common.pagerNext'' [])]"
    unfolding remote_pager_def pg if_P [OF tn]
    by (rule pager_buttons_at [OF len _ _ k q, unfolded e]) simp_all
qed

text \<open>The hub does not page beyond 100,050 rows: all later pages are the same.\<close>

lemma deep_pages_repeat: "2001 \<le> k \<Longrightarrow> hub_page rows k trunc = hub_page rows 2001 trunc"
  by (simp add: hub_page_def)

subsection \<open>Windows the picker emits\<close>

text \<open>The hub reads an instant to the second as the panel writes it: \<open>time.Parse\<close> with RFC3339.\<close>

definition reads_utc :: "go_time \<Rightarrow> int \<Rightarrow> bool" where
  "reads_utc g t \<longleftrightarrow> parse_rfc3339 g (iso_seconds t) = Some ((t - t mod 1000) * 1000000)"

lemma pad_int_chars: "c \<in> set (pad_int w n) \<Longrightarrow> is_digit c"
  using nat_digits_digits by (auto simp: pad_int_def pad_start_def is_digit_def)

lemma pad_int_neq_Nil: "pad_int w n \<noteq> []"
  by (simp add: pad_int_def pad_start_def)

lemma iso_seconds_first: "\<not> go_space (hd (iso_seconds t))"
proof -
  obtain y m d where c: "civil_from_days (t div 86400000) = (y, m, d)" by (rule prod_cases3)
  have "hd (iso_seconds t) = hd (iso_year y)"
    using pad_int_neq_Nil by (simp add: iso_seconds_def Let_def iso_date_def c iso_year_def)
  moreover have "is_digit (hd (iso_year y)) \<or> hd (iso_year y) \<in> {CHR ''-'', CHR ''+'', CHR ''Z''}"
    using pad_int_chars [OF hd_in_set [OF pad_int_neq_Nil]] by (simp add: iso_year_def)
  ultimately show ?thesis using go_space_plain by simp
qed

lemma iso_seconds_last: "last (iso_seconds t) = CHR ''Z''"
  by (simp add: iso_seconds_def Let_def)

lemma hub_split_window:
  assumes "reads_utc g s" "reads_utc g f"
  shows "hub_split_range g (iso_seconds s @ ''..'' @ iso_seconds f)
    = Some ((s - s mod 1000) * 1000000, (f - f mod 1000) * 1000000)"
proof -
  have "cut_at (iso_seconds s @ ''..'' @ iso_seconds f) ''..'' = Some (iso_seconds s, iso_seconds f)"
    unfolding cut_at_def index_of_dots [OF iso_seconds_no_dot] by simp
  then show ?thesis
    using assms iso_seconds_neq_Nil by (simp add: hub_split_range_def reads_utc_def)
qed

lemma requestWindow_custom:
  assumes "reads_utc g s" "reads_utc g f" "s mod 1000 = 0" "f mod 1000 = 0" "s < f" "f - s \<le> 86400000"
    and "params_get ps ''since'' = Some (iso_seconds s @ ''..'' @ iso_seconds f)"
  shows "requestWindow g now dflt ps =
    (if s * 1000000 < now then Some (s * 1000000, Some (min (f * 1000000) now)) else None)"
proof -
  let ?v = "iso_seconds s @ ''..'' @ iso_seconds f"
  have l: "last ?v = CHR ''Z''" using iso_seconds_last [of f] iso_seconds_neq_Nil by simp
  have h: "hd ?v = hd (iso_seconds s)" using iso_seconds_neq_Nil by simp
  have t: "go_trim ?v = ?v"
    using iso_seconds_first [of s] go_space_plain [of "CHR ''Z''"] by (intro go_trim_id) (simp_all only: l h, simp_all)
  have sp: "hub_split_range g ?v = Some (s * 1000000, f * 1000000)"
    using hub_split_window [OF assms(1,2)] assms(3,4) by simp
  have ne: "?v \<noteq> []" using iso_seconds_neq_Nil by simp
  have q: "requestWindow g now dflt ps =
      (let fin = (if f * 1000000 > now then now else f * 1000000) in
       if \<not> fin > s * 1000000 \<or> fin - s * 1000000 > maxQueryWindow then None else Some (s * 1000000, Some fin))"
    unfolding requestWindow_def assms(7) coalesce_simps t Let_def if_not_P [OF ne] sp by simp
  show ?thesis unfolding q Let_def maxQueryWindow_def using assms(5,6) by (auto simp: min_def)
qed

lemma requestWindow_preset:
  assumes "parse_duration g v = Some d" "0 < d" "CHR ''.'' \<notin> set v" "v \<noteq> []" "list_all (\<lambda>c. \<not> go_space c) v"
    and "params_get ps ''since'' = Some v"
  shows "requestWindow g now dflt ps = Some (now - d, None)"
proof -
  have t: "go_trim v = v" using assms(4,5) by (intro go_trim_id) (auto simp: list_all_iff)
  have "index_of v ''..'' = None"
  proof (rule ccontr)
    assume "index_of v ''..'' \<noteq> None"
    then have "str_includes v ''..''" by (simp add: str_includes_def)
    then show False using assms(3) by (auto simp: str_includes_iff)
  qed
  then have "hub_split_range g v = None" by (simp add: hub_split_range_def cut_at_def)
  then show ?thesis unfolding requestWindow_def assms(6) coalesce_simps t Let_def using assms(1,2,4) by simp
qed

definition sample_go :: go_time where
  "sample_go = \<lparr>parse_rfc3339 = (\<lambda>s. map_option (\<lambda>t. t * 1000000) (parse_iso s)),
     parse_duration = map_of [(''15m'', 900000000000), (''1h'', 3600000000000), (''6h'', 21600000000000), (''24h'', 86400000000000)]\<rparr>"

definition sample_log :: log_row where
  "sample_log = \<lparr>l_ts = ''2026-10-06T14:00:00Z'', l_message = ''up'', l_level = ''info'', l_entity_uid = ''c:api'', l_labels = [], l_fields = None\<rparr>"

lemma sample_reads_utc: "reads_utc sample_go 1791295200000" "reads_utc sample_go 1791298800000"
proof -
  have "parse_iso (iso_seconds 1791295200000) = Some 1791295200000" "parse_iso (iso_seconds 1791298800000) = Some 1791298800000"
    by code_simp+
  then show "reads_utc sample_go 1791295200000" "reads_utc sample_go 1791298800000"
    by (simp_all add: reads_utc_def sample_go_def)
qed

lemma lines_since: "params_get (search_params (lines_request ps)) ''since'' = Some (lf_since (log_filters ps))"
  by (simp add: params_get_search lines_request_def Let_def)

lemma sample_lines_window:
  assumes "lf_since (log_filters ps) = ''1h''"
  shows "requestWindow sample_go now dflt (search_params (lines_request ps)) = Some (now - 3600000000000, None)"
proof (rule requestWindow_preset)
  show "params_get (search_params (lines_request ps)) ''since'' = Some ''1h''" using lines_since [of ps] assms by simp
qed (simp_all add: sample_go_def go_space_def is_space_def)

definition sample_store :: "log_row list \<Rightarrow> log_store" where
  "sample_store rows = \<lparr>resolve_group = (\<lambda>_. Inr []), count_logs = (\<lambda>_. Some (length rows)),
     search_logs = (\<lambda>f. Some (window_page rows (lq_limit f) (lq_offset f)))\<rparr>"

lemma sample_store_reads: "reads_lines (sample_store rows) win q rows"
proof -
  obtain f where "log_filter (sample_store rows) win q = Inr f"
    by (cases "log_filter (sample_store rows) win q")
      (auto simp: log_filter_def sample_store_def Let_def split: prod.splits if_splits)
  then show ?thesis by (simp add: reads_lines_def) (simp add: sample_store_def)
qed

subsection \<open>Properties\<close>

lemma remote_lines_slice:
  assumes "log_page ps = Fin (of_int (int p))" "1 \<le> p" "p \<le> page_count (length rows) 50" "length rows \<le> 100050"
    and "requestWindow g now (15 * 60000000000) (search_params (lines_request ps)) = Some win"
    and "reads_lines store win (search_params (lines_request ps)) rows"
  shows "\<exists>pg. searchLogs (hub_fetch (base @ ''/api/v1/logs/search?'') (handleSearchLogs g now store)) base (lines_request ps) = Inr pg
    \<and> entries pg = ps_rows (pageSlice rows (log_page ps) (Fin 50))
    \<and> remote_pager t pg (log_page ps) Go_Page
      = (let s = pageSlice rows (log_page ps) (Fin 50) in
         list_pager t (ps_start s) (ps_end s) (ps_total s) (ps_page s) (Fin 50) False Go_Page)"
proof -
  have "page_count (length rows) 50 \<le> max 1 (length rows)" by (rule page_count_le) simp
  then have k: "1 \<le> int p" "int p \<le> 2 ^ 32" and len: "length rows < 2 ^ 32" using assms(2-4) by auto
  have a: "answers_rows (handleSearchLogs g now store) (search_params (lines_request ps)) rows False"
    by (rule lines_answers [OF assms(5,6)])
  have "searchLogs (hub_fetch (base @ ''/api/v1/logs/search?'') (handleSearchLogs g now store)) base (lines_request ps)
    = Inr (hub_page rows (int p) False)"
    by (rule remote_lines.shown [OF a len assms(1) k])
  moreover have "(Fin 50 :: jsnum) = Fin (of_int (int 50))" by simp
  ultimately show ?thesis
    using hub_page_slice(1) [OF assms(4,2,3), where trunc = False]
      hub_page_slice(2) [OF assms(4,2,3), where h = Go_Page and trunc = False]
    unfolding assms(1) Let_def by metis
qed

text \<open>C3. Paging by the hub refines paging in the panel: for every page the pager of the log lines leads to, the
  request the panel writes into the address, read by the hub and answered from the count of the rows and the page of them that
  its store gives, gives exactly the rows, the range, the total and the buttons that slicing all rows in the panel would give,
  as long as the hub pages that far (100,050 rows) and the two queries of the store see the same rows in one order.\<close>

theorem remote_lines_refine_slice:
  assumes "log_page ps = Fin (of_int (int p))" "1 \<le> p" "p \<le> page_count (length rows) 50" "length rows \<le> 100050"
    and "requestWindow g now (15 * 60000000000) (search_params (lines_request ps)) = Some win"
    and "reads_lines store win (search_params (lines_request ps)) rows"
  shows "\<exists>pg. searchLogs (hub_fetch (base @ ''/api/v1/logs/search?'') (handleSearchLogs g now store)) base (lines_request ps) = Inr pg
    \<and> entries pg = ps_rows (pageSlice rows (log_page ps) (Fin 50))
    \<and> remote_pager t pg (log_page ps) Go_Page
      = (let s = pageSlice rows (log_page ps) (Fin 50) in
         list_pager t (ps_start s) (ps_end s) (ps_total s) (ps_page s) (Fin 50) False Go_Page)"
  by (rule remote_lines_slice [where store = store, OF assms])

lemma remote_lines_refine_slice_witness:
  "\<exists>pg. searchLogs (hub_fetch (''http://hub'' @ ''/api/v1/logs/search?'')
       (handleSearchLogs sample_go 0 (sample_store (replicate 60 sample_log)))) ''http://hub'' (lines_request [(''page'', ''2'')]) = Inr pg
     \<and> length (entries pg) = 10"
proof -
  let ?ps = "[(''page'', ''2'')]"
  have pg: "log_page ?ps = Fin (of_int (int 2))"
  proof -
    have "num_string (Fin (of_int 2)) = ''2''" by code_simp
    with pageIndex_num_string [of 2] show ?thesis by (simp add: log_page_def query_value_def params_get_def)
  qed
  have f: "lf_since (log_filters ?ps) = ''1h''" by (simp add: log_filters_def query_value_def params_get_def)
  have c: "page_count (length (replicate 60 sample_log)) 50 = 2" by (simp add: page_count_def)
  have sl: "ps_rows (pageSlice (replicate 60 sample_log) (log_page ?ps) (Fin 50)) = page_rows (replicate 60 sample_log) 50 2"
    using pageSlice_eq [of "replicate 60 sample_log" 50 2] c by (simp add: pg clamp_page_def)
  have "length (page_rows (replicate 60 sample_log) 50 2) = 10" by (simp add: page_rows_def)
  with remote_lines_refine_slice [OF pg _ _ _ sample_lines_window [OF f] sample_store_reads, where rows = "replicate 60 sample_log"
      and base = "''http://hub''" and now = 0, unfolded c sl]
  show ?thesis by (simp del: append.simps) metis
qed



text \<open>Where the database is free to order the lines of one instant anew for each query, a line can be on no page: of 51 lines
  of one instant, each page is a page of all of them by descending time, yet the last line is on neither.\<close>

lemma equal_times_lose_a_line:
  assumes "length rows = 51" "distinct rows" "\<forall>r\<in>set rows. l_ts r = instant"
  shows "\<exists>order :: int \<Rightarrow> log_row list. (\<forall>k. mset (order k) = mset rows \<and> sorted_wrt (\<lambda>a b. l_ts b \<le> l_ts a) (order k))
    \<and> last rows \<notin> set (window_page (order 0) 50 0) \<union> set (window_page (order 50) 50 50)"
proof -
  let ?order = "\<lambda>k :: int. if k = 0 then rows else rotate1 rows"
  obtain x xs where r: "rows = x # xs" "length xs = 50" using assms(1) by (cases rows) auto
  have "xs \<noteq> []" using r(2) by auto
  then obtain ys y where y: "xs = ys @ [y]" by (metis append_butlast_last_id)
  have "sorted_wrt (\<lambda>a b. l_ts b \<le> l_ts a) zs" if "set zs \<subseteq> set rows" for zs
    using that assms(3) by (induction zs) auto
  moreover have "mset (rotate1 rows) = mset rows" by (simp add: r(1))
  ultimately have o: "\<forall>k. mset (?order k) = mset rows \<and> sorted_wrt (\<lambda>a b. l_ts b \<le> l_ts a) (?order k)" by simp
  have "window_page (?order 0) 50 0 = x # ys" "window_page (?order 50) 50 50 = [x]" "last rows = y"
    using r(2) by (simp_all add: window_page_def r(1) y)
  moreover have "y \<notin> set (x # ys)" using assms(2) by (auto simp: r(1) y)
  ultimately have "last rows \<notin> set (window_page (?order 0) 50 0) \<union> set (window_page (?order 50) 50 50)" by simp
  with o show ?thesis by (intro exI [of _ ?order] conjI)
qed

text \<open>
  The whole way: at rest, with its searches answered by the hub in their order, the page of log lines shows the rows, the
  range and the buttons that slicing the rows behind the address would give.
\<close>

theorem lines_at_rest_show_hub_rows:
  assumes "page_session True (lines_answer tf) log_lines_init lines_key lines_deps lines_request st"
    and "pl_pending (fp_poll st) = []" "ps = fp_address st"
    and "pl_shown (fp_poll st)
      = Some (q, searchLogs (hub_fetch (base @ ''/api/v1/logs/search?'') (handleSearchLogs g now store)) base q)"
    and "log_page ps = Fin (of_int (int p))" "1 \<le> p" "p \<le> page_count (length rows) 50" "length rows \<le> 100050"
    and "requestWindow g now (15 * 60000000000) (search_params (lines_request ps)) = Some win"
    and "reads_lines store win (search_params (lines_request ps)) rows"
  shows "ll_error (pl_state (fp_poll st)) = None
    \<and> entries (ll_result (pl_state (fp_poll st))) = ps_rows (pageSlice rows (log_page ps) (Fin 50))
    \<and> remote_pager t (ll_result (pl_state (fp_poll st))) (log_page ps) Go_Page
      = (let s = pageSlice rows (log_page ps) (Fin 50) in
         list_pager t (ps_start s) (ps_end s) (ps_total s) (ps_page s) (Fin 50) False Go_Page)"
proof -
  obtain pg where pg: "searchLogs (hub_fetch (base @ ''/api/v1/logs/search?'') (handleSearchLogs g now store)) base (lines_request ps) = Inr pg"
    "entries pg = ps_rows (pageSlice rows (log_page ps) (Fin 50))"
    "remote_pager t pg (log_page ps) Go_Page = (let s = pageSlice rows (log_page ps) (Fin 50) in
       list_pager t (ps_start s) (ps_end s) (ps_total s) (ps_page s) (Fin 50) False Go_Page)"
    using remote_lines_slice [where store = store and t = t and base = base, OF assms(5-10)] by blast
  obtain r where r: "pl_shown (fp_poll st) = Some (lines_request ps, r)" "lines_shown (pl_state (fp_poll st)) = lines_answered r"
    using lines_page.rest_shows [OF assms(1), of "\<lambda>w r. lines_shown (pl_state w) = lines_answered r"]
      lines_poll.shows_current assms(2,3) by blast
  have q: "q = lines_request ps" using r(1) unfolding assms(4) by (simp only: option.inject prod.inject)
  have "r = Inr pg" using r(1) pg(1) unfolding assms(4) q by (simp only: option.inject prod.inject simp_thms)
  with r(2) have "lines_shown (pl_state (fp_poll st)) = (pg, False)" by (simp add: lines_answered_def)
  then have "ll_result (pl_state (fp_poll st)) = pg" "ll_error (pl_state (fp_poll st)) = None"
    by (simp_all add: lines_shown_def)
  with pg show ?thesis by simp
qed

text \<open>The same for the two other lists of the hub.\<close>

theorem remote_events_refine_slice:
  assumes "log_page ps = Fin (of_int (int p))" "1 \<le> p" "p \<le> page_count (length rows) 50" "length rows \<le> 100050"
    and "requestWindow g now (24 * 3600000000000) (events_query since ps) = Some win"
    and "reads_events store win (events_query since ps) rows"
  shows "\<exists>pg. events_request (hub_fetch (base @ ''/api/v1/events?'') (handleListEvents g now store)) base since ps = Inr pg
    \<and> entries pg = ps_rows (pageSlice rows (log_page ps) (Fin 50))"
proof -
  have "page_count (length rows) 50 \<le> max 1 (length rows)" by (rule page_count_le) simp
  then have k: "1 \<le> int p" "int p \<le> 2 ^ 32" and len: "length rows < 2 ^ 32" using assms(2-4) by auto
  have a: "answers_rows (handleListEvents g now store) (events_query since ps) rows False"
    by (rule events_answers [OF assms(5,6)])
  have "(Fin 50 :: jsnum) = Fin (of_int (int 50))" by simp
  then show ?thesis
    using remote_events.shown [OF a len assms(1) k] hub_page_slice(1) [OF assms(4,2,3), where trunc = False]
    unfolding assms(1) by metis
qed

theorem remote_traces_refine_slice:
  assumes "log_page ps = Fin (of_int (int p))" "1 \<le> p" "p \<le> page_count (length rows) 50" "length rows \<le> 100050"
    and "requestWindow g now 3600000000000 (hub_traces_query ps) = Some win"
    and "store win (hub_traces_query ps) = Inr (rows, trunc)"
  shows "\<exists>pg. trace_list_request (hub_fetch (base @ ''/api/v1/traces?'') (handleListTraces g now store)) base ps = Inr pg
    \<and> entries pg = ps_rows (pageSlice rows (log_page ps) (Fin 50)) \<and> truncated pg = trunc"
proof -
  have "page_count (length rows) 50 \<le> max 1 (length rows)" by (rule page_count_le) simp
  then have k: "1 \<le> int p" "int p \<le> 2 ^ 32" and len: "length rows < 2 ^ 32" using assms(2-4) by auto
  have a: "answers_rows (handleListTraces g now store) (hub_traces_query ps) rows trunc"
    by (rule traces_answers [where store = store, OF assms(5,6)])
  have "(Fin 50 :: jsnum) = Fin (of_int (int 50))" "truncated (hub_page rows (int p) trunc) = trunc"
    by (simp_all add: hub_page_def Let_def)
  then show ?thesis
    using remote_traces.shown [OF a len assms(1) k] hub_page_slice(1) [OF assms(4,2,3), where trunc = trunc]
    unfolding assms(1) by metis
qed

text \<open>C13. Whatever window the picker hands to a page, the hub takes it as it was meant: a preset as that long until now,
  a custom window, which is at most 24 hours, as its two instants with the end no later than now; only
  a window that starts in the future is refused.\<close>

theorem picked_window_accepted:
  assumes "picker_step e clk typed a st = (st', Some v)" "params_get q ''since'' = Some v"
    and "a = Preset v \<Longrightarrow> v \<in> set TIME_RANGES" "\<forall>r\<in>set TIME_RANGES. \<exists>d>0. parse_duration g r = Some d"
    and "local_minute e (p_start st)" "local_minute e (p_end st)"
    and "date_parse e (p_start st) = Fin (of_int s)" "date_parse e (p_end st) = Fin (of_int f)"
    and "reads_utc g s" "reads_utc g f"
  shows "if a = Preset v then \<exists>d>0. parse_duration g v = Some d \<and> requestWindow g now dflt q = Some (now - d, None)
    else 0 < f - s \<and> f - s \<le> 86400000
      \<and> requestWindow g now dflt q
        = (if s * 1000000 < now then Some (s * 1000000, Some (min (f * 1000000) now)) else None)"
proof (cases "a = Preset v")
  case True
  then obtain d where d: "0 < d" "parse_duration g v = Some d" using assms(3,4) by blast
  have "v \<in> set TIME_RANGES" using True assms(3) by simp
  then have "CHR ''.'' \<notin> set v" "v \<noteq> []" "list_all (\<lambda>c. \<not> go_space c) v"
    by (auto simp: TIME_RANGES_def go_space_def is_space_def)
  then show ?thesis using True d requestWindow_preset [OF d(2,1) _ _ _ assms(2)] by simp
next
  case False
  then have r: "rangeFromLocal e (p_start st) (p_end st) = Some v" using picker_emits [OF assms(1)] by blast
  have w: "0 < f - s" "f - s \<le> 86400000" using range_window [OF r assms(7,8)] by simp_all
  have "s mod 1000 = 0" "f mod 1000 = 0"
    using assms(5-8) by (auto simp: local_minute_def elim!: dvdE)
  moreover have "v = iso_seconds s @ ''..'' @ iso_seconds f"
    using r assms(7,8) unfolding rangeFromLocal_Some by (simp add: time_int_def)
  ultimately show ?thesis
    using False w requestWindow_custom [OF assms(9,10), of q now dflt] assms(2) by simp
qed

lemma picked_window_accepted_witness:
  "requestWindow sample_go 1791297000000000000 0 [(''since'', iso_seconds 1791295200000 @ ''..'' @ iso_seconds 1791298800000)]
     = Some (1791295200000000000, Some 1791297000000000000)"
proof -
  have p: "\<forall>r\<in>set TIME_RANGES. \<exists>d>0. parse_duration sample_go r = Some d" by (simp add: TIME_RANGES_def sample_go_def)
  have q: "params_get [(''since'', v)] ''since'' = Some v" for v by (simp add: params_get_def)
  have d: "date_parse sample_env ''2026-10-06T14:00'' = Fin (of_int 1791295200000)"
    "date_parse sample_env ''2026-10-06T15:00'' = Fin (of_int 1791298800000)"
    using sample_instants by (simp_all add: sample_env_def)
  have s: "p_start sample_picker = ''2026-10-06T14:00''" "p_end sample_picker = ''2026-10-06T15:00''"
    by (simp_all add: sample_picker_def)
  show ?thesis
    using picked_window_accepted [OF sample_apply q _ p, unfolded s, OF _ sample_local_minute d sample_reads_utc, of 1791297000000000000 0]
    by simp
qed

text \<open>The edges of the graph are the busiest of the merged ones.\<close>

lemma sort_key_count_sorted: "sorted_wrt (\<lambda>a b. ge_count b \<le> ge_count a) (sort_key (\<lambda>e. - ge_count e) es)"
proof -
  have "sorted (map (\<lambda>e. - ge_count e) (sort_key (\<lambda>e. - ge_count e) es))" by simp
  then show ?thesis by (simp add: sorted_map)
qed

lemma take_sorted_rest:
  assumes "sorted_wrt P xs" "\<not> x \<in> set (take n xs)" "x \<in> set xs"
  shows "length (take n xs) = n" "\<forall>y\<in>set (take n xs). P y x"
proof -
  have x: "x \<in> set (drop n xs)" using assms(2,3) by (metis Un_iff append_take_drop_id set_append)
  then show "length (take n xs) = n" by (cases "length xs \<le> n") simp_all
  have "sorted_wrt P (take n xs @ drop n xs)" using assms(1) by simp
  then show "\<forall>y\<in>set (take n xs). P y x" using x by (simp only: sorted_wrt_append) blast
qed

lemma mset_take_subset: "mset (take n xs) \<subseteq># mset xs"
  by (metis append_take_drop_id mset_append mset_subset_eq_add_left)

lemma GetTopology_edges:
  assumes "links_since st since = Some links" "edges_since st since = Some inferred"
  obtains nodes edges where "GetTopology st since = Some (nodes, edges)"
    "mset edges \<subseteq># mset (merged_edges links inferred)" "length edges = min 200 (length (merged_edges links inferred))"
    "sorted_wrt (\<lambda>a b. ge_count b \<le> ge_count a) edges"
    "\<forall>c\<in>set (merged_edges links inferred). c \<in> set edges \<or> length edges = 200 \<and> (\<forall>e\<in>set edges. ge_count c \<le> ge_count e)"
    "sorted nodes" "distinct nodes" "set nodes = ge_source ` set edges \<union> ge_target ` set edges"
proof -
  let ?all = "sort_key (\<lambda>e. - ge_count e) (merged_edges links inferred)"
  let ?es = "take 200 ?all"
  let ?ns = "sort (remdups (concat (map (\<lambda>e. [ge_source e, ge_target e]) ?es)))"
  note s = sort_key_count_sorted [of "merged_edges links inferred"]
  show thesis
  proof (rule that [of ?ns ?es])
    show "GetTopology st since = Some (?ns, ?es)" using assms by (simp add: GetTopology_def topologyEdgeLimit_def Let_def)
    show "mset ?es \<subseteq># mset (merged_edges links inferred)" using mset_take_subset [of 200 ?all] by simp
    show "length ?es = min 200 (length (merged_edges links inferred))" by (simp add: min.commute)
    show "sorted_wrt (\<lambda>a b. ge_count b \<le> ge_count a) ?es" using s by (rule sorted_wrt_take)
    show "\<forall>c\<in>set (merged_edges links inferred). c \<in> set ?es \<or> length ?es = 200 \<and> (\<forall>e\<in>set ?es. ge_count c \<le> ge_count e)"
      using take_sorted_rest [OF s, of _ 200] by auto
    show "sorted ?ns" "distinct ?ns" by simp_all
    show "set ?ns = ge_source ` set ?es \<union> ge_target ` set ?es" by auto
  qed
qed


definition sample_graph_store :: graph_store where
  "sample_graph_store = \<lparr>links_since = (\<lambda>_. Some [\<lparr>gl_source = ''web'', gl_target = ''api'', gl_kind = ''tcp'', gl_port = 80, gl_count = 3\<rparr>]),
     edges_since = (\<lambda>_. Some [\<lparr>er_source = ''web'', er_target = ''api'', er_kind = ''http'', er_count = 9\<rparr>])\<rparr>"


end
