(* ===== verification/Trace_Contract.thy ===== *)
theory Trace_Contract
  imports Hub_Contract Otlp_Ingest
begin

text \<open>
  The detail of a trace between the hub and the panel: \<open>handleGetTrace\<close> and \<open>buildTraceDetail\<close> (\<open>internal/hub/traces.go\<close>) and the
  end of \<open>BuildFromLogs\<close> (\<open>internal/traces/from_logs.go\<close>), which puts the spans read from log lines in order. Instants are
  nanoseconds, the zero time of Go its distance from 1970. What the store answers, and the spans that log lines are
  taken for, are parameters. The panel's waterfall is then drawn from what the hub sends.
\<close>

subsection \<open>The extent of a trace\<close>

definition zero_time :: int where
  "zero_time = - 62135596800 * 1000000000"

definition go_instant :: "int option \<Rightarrow> int" where
  "go_instant t = coalesce t zero_time"

record hub_detail =
  hd_trace :: string
  hd_source :: string
  hd_start :: int
  hd_end :: int
  hd_duration :: int
  hd_spans :: "hub_span list"

text \<open>\<open>Sub\<close> stops at the largest duration.\<close>

definition elapsed_ms :: "int \<Rightarrow> int \<Rightarrow> int" where
  "elapsed_ms start fin = (if fin > start then min (fin - start) (2 ^ 63 - 1) div 1000000 else 0)"

definition widen :: "int \<times> int \<Rightarrow> hub_span \<Rightarrow> int \<times> int" where
  "widen = (\<lambda>(start, fin) sp.
     (if go_instant (hp_start sp) < start \<or> start = zero_time then go_instant (hp_start sp) else start,
      if go_instant (hp_end sp) > fin then go_instant (hp_end sp) else fin))"

definition buildTraceDetail :: "string \<Rightarrow> string \<Rightarrow> hub_span list \<Rightarrow> hub_detail" where
  "buildTraceDetail traceID source spans =
     (if spans = [] then \<lparr>hd_trace = traceID, hd_source = source, hd_start = zero_time, hd_end = zero_time, hd_duration = 0, hd_spans = []\<rparr>
      else let (start, fin) = foldl widen (go_instant (hp_start (hd spans)), go_instant (hp_end (last spans))) spans
           in \<lparr>hd_trace = traceID, hd_source = source, hd_start = start, hd_end = fin, hd_duration = elapsed_ms start fin, hd_spans = spans\<rparr>)"

text \<open>Spans from log lines: by start, then by end. (\<open>sort.Slice\<close> leaves open the order of spans that agree in both.)\<close>

definition log_detail :: "string \<Rightarrow> hub_span list \<Rightarrow> hub_detail" where
  "log_detail traceID found =
     (let spans = sort_key (\<lambda>sp. go_instant (hp_start sp)) (sort_key (\<lambda>sp. go_instant (hp_end sp)) found) in
      if spans = [] then \<lparr>hd_trace = traceID, hd_source = ''logs'', hd_start = zero_time, hd_end = zero_time, hd_duration = 0, hd_spans = []\<rparr>
      else let start = go_instant (hp_start (hd spans)); fin = go_instant (hp_end (last spans))
           in \<lparr>hd_trace = traceID, hd_source = ''logs'', hd_start = start, hd_end = fin, hd_duration = elapsed_ms start fin, hd_spans = spans\<rparr>)"

subsection \<open>The answer\<close>

text \<open>An instant as \<open>time.Time\<close> is written: RFC3339 with as many digits of the second as are needed.\<close>

definition rfc3339_nano :: "int \<Rightarrow> string" where
  "rfc3339_nano n =
     (let frac = n mod 1000000000 in
      butlast (iso_seconds (n div 1000000))
      @ (if frac = 0 then [] else CHR ''.'' # rev (dropWhile (\<lambda>c. c = CHR ''0'') (rev (pad_int 9 frac)))) @ ''Z'')"

definition written_span :: "hub_span \<Rightarrow> trace_span" where
  "written_span sp =
     \<lparr>sp_trace_id = hp_trace sp, sp_span_id = hp_span sp, sp_parent_span_id = given (hp_parent sp), sp_name = hp_name sp,
      sp_service = hp_service sp, sp_container = hp_container sp, sp_entity_uid = None,
      sp_start_ts = rfc3339_nano (go_instant (hp_start sp)), sp_end_ts = rfc3339_nano (go_instant (hp_end sp)),
      sp_duration_ms = num_of_int (hp_duration_ms sp), sp_status = hp_status sp, sp_kind = hp_kind sp, sp_source = hp_source sp,
      sp_attributes = (if hp_attributes sp = [] then None else Some (map (\<lambda>(k, v). (k, JStr v)) (hp_attributes sp)))\<rparr>"

definition written_detail :: "hub_detail \<Rightarrow> trace_detail" where
  "written_detail d =
     \<lparr>td_trace_id = hd_trace d, td_source = hd_source d, td_start_ts = Some (rfc3339_nano (hd_start d)),
      td_end_ts = Some (rfc3339_nano (hd_end d)), td_duration_ms = num_of_int (hd_duration d),
      td_spans = map written_span (hd_spans d)\<rparr>"

definition ok_json :: "'a \<Rightarrow> 'a response" where
  "ok_json v = \<lparr>res_status = 200, res_status_text = ''OK'', res_json = Inr v\<rparr>"

definition handleGetTrace ::
  "go_time \<Rightarrow> int \<Rightarrow> (string \<Rightarrow> hub_span list option) \<Rightarrow> (window \<Rightarrow> string \<Rightarrow> (string \<times> hub_span list) option)
     \<Rightarrow> string \<Rightarrow> params \<Rightarrow> trace_detail response" where
  "handleGetTrace g now stored from_logs path_value ps =
     (let traceID = go_trim path_value in
      if traceID = [] then plain_error 400 ''Bad Request''
      else case stored traceID of
        None \<Rightarrow> plain_error 500 ''Internal Server Error''
      | Some spans \<Rightarrow>
          if spans \<noteq> [] then ok_json (written_detail (buildTraceDetail traceID ''otlp'' spans))
          else case requestWindow g now (24 * 3600000000000) ps of
            None \<Rightarrow> plain_error 400 ''Bad Request''
          | Some win \<Rightarrow>
              (case from_logs win traceID of
                 None \<Rightarrow> plain_error 500 ''Internal Server Error''
               | Some (tid, found) \<Rightarrow> ok_json (written_detail (log_detail tid found))))"

subsection \<open>The contract of the waterfall\<close>

text \<open>Spans whose times the hub could read, in order and in whole milliseconds.\<close>

definition dated :: "hub_span \<Rightarrow> bool" where
  "dated sp \<longleftrightarrow> (\<exists>s f. hp_start sp = Some s \<and> hp_end sp = Some f \<and> 0 < s \<and> s \<le> f \<and> f < 2 ^ 63)"

definition whole_start :: "hub_span \<Rightarrow> bool" where
  "whole_start sp \<longleftrightarrow> go_instant (hp_start sp) mod 1000000 = 0"

text \<open>What the panel relies on: no span begins before or ends after the trace, and the duration is that of the trace.\<close>

locale covering_trace =
  fixes build :: "hub_span list \<Rightarrow> hub_detail"
  assumes spans_kept: "hd_spans (build spans) = spans"
    and duration: "hd_duration (build spans) = elapsed_ms (hd_start (build spans)) (hd_end (build spans))"
    and positive: "spans \<noteq> [] \<Longrightarrow> \<forall>sp\<in>set spans. dated sp \<Longrightarrow> 0 < hd_start (build spans) \<and> hd_end (build spans) < 2 ^ 63"
    and covers: "\<forall>sp\<in>set spans. dated sp \<Longrightarrow> sp \<in> set spans \<Longrightarrow>
      hd_start (build spans) \<le> go_instant (hp_start sp) \<and> go_instant (hp_end sp) \<le> hd_end (build spans)"
begin

definition reads_starts :: "env \<Rightarrow> hub_span list \<Rightarrow> bool" where
  "reads_starts e spans \<longleftrightarrow> (\<forall>sp\<in>set spans.
     date_parse e (rfc3339_nano (go_instant (hp_start sp))) = Fin (of_int (go_instant (hp_start sp) div 1000000)))"

lemma offset_within:
  assumes "\<forall>sp\<in>set spans. dated sp \<and> whole_start sp" "sp \<in> set spans" "s0 \<in> set spans"
  shows "go_instant (hp_start sp) div 1000000 - go_instant (hp_start s0) div 1000000 \<le> hd_duration (build spans)"
proof -
  let ?s = "go_instant (hp_start sp)" and ?o = "go_instant (hp_start s0)"
  have d: "\<forall>sp\<in>set spans. dated sp" using assms(1) by blast
  then have "dated sp" using assms(2) by blast
  then have "?s \<le> go_instant (hp_end sp)" by (auto simp: dated_def go_instant_def)
  then have s: "?s \<le> hd_end (build spans)" using covers [OF d assms(2)] by simp
  have o': "hd_start (build spans) \<le> ?o" using covers [OF d assms(3)] by simp
  have m: "?s mod 1000000 = 0" "?o mod 1000000 = 0" using assms by (auto simp: whole_start_def)
  have sub: "?s div 1000000 - ?o div 1000000 = (?s - ?o) div 1000000"
    using m by (auto elim!: dvdE simp: mod_eq_0_iff_dvd simp flip: right_diff_distrib)
  have p: "0 < hd_start (build spans)" "hd_end (build spans) < 2 ^ 63" using positive [OF _ d] assms(2) by (metis empty_iff empty_set)+
  have "(?s - ?o) div 1000000 \<le> elapsed_ms (hd_start (build spans)) (hd_end (build spans))"
  proof (cases "hd_end (build spans) > hd_start (build spans)")
    case True
    then have "elapsed_ms (hd_start (build spans)) (hd_end (build spans)) = (hd_end (build spans) - hd_start (build spans)) div 1000000"
      using p by (simp add: elapsed_ms_def)
    then show ?thesis using s o' by (simp add: zdiv_mono1)
  next
    case False
    then have "(?s - ?o) div 1000000 \<le> 0 div 1000000" using s o' by (intro zdiv_mono1) simp_all
    then show ?thesis using False by (simp add: elapsed_ms_def)
  qed
  then show ?thesis unfolding sub duration .
qed

lemma bars_inside:
  assumes "\<forall>sp\<in>set spans. dated sp \<and> whole_start sp" "reads_starts e spans" "0 < hd_duration (build spans)"
    and "sp \<in> set spans" "\<bar>hp_duration_ms sp\<bar> \<le> 2 ^ 53"
  shows "\<exists>l b. span_bar e (trace_origin e (Some (written_detail (build spans)))) (total_width (Some (written_detail (build spans)))) (written_span sp)
      = \<lparr>bar_left = Fin l, bar_width = Fin b\<rparr> \<and> 0 \<le> l \<and> l \<le> 100 \<and> 0 \<le> b \<and> b \<le> 100 \<and> Fin b \<le> Fin 100 - Fin l"
proof -
  let ?d = "written_detail (build spans)" and ?a = "\<lambda>sp. go_instant (hp_start sp) div 1000000"
  have sps: "td_spans ?d = map written_span spans" by (simp add: written_detail_def spans_kept)
  have rd: "date_parse e (sp_start_ts (written_span sp)) = Fin (of_int (?a sp))" if "sp \<in> set spans" for sp
    using assms(2) that by (simp add: reads_starts_def written_span_def)
  have size: "0 \<le> ?a sp \<and> ?a sp \<le> 2 ^ 52" if "sp \<in> set spans" for sp
  proof -
    have "dated sp" using assms(1) that by blast
    then have "0 < go_instant (hp_start sp)" "go_instant (hp_start sp) < 2 ^ 63" by (auto simp: dated_def go_instant_def)
    then show ?thesis using zdiv_mono1 [of "go_instant (hp_start sp)" "2 ^ 63" 1000000] by (simp add: pos_imp_zdiv_nonneg_iff)
  qed
  have "hd_duration (build spans) \<le> 2 ^ 53"
    unfolding duration elapsed_ms_def using zdiv_mono1 [of "min x (2 ^ 63 - 1)" "2 ^ 63" 1000000 for x] by (auto simp: min_def)
  then have w: "td_duration_ms ?d = Fin (of_int (hd_duration (build spans)))"
    using assms(3) by (simp add: written_detail_def num_of_int_eq)
  have ne: "td_spans ?d \<noteq> []" using assms(4) by (auto simp: sps)
  obtain s0 where o': "s0 \<in> set spans" "trace_origin e (Some ?d) = Fin (of_int (?a s0))"
    using origin_start(1) [OF ne, of e] rd by (auto simp: sps)
  have starts: "\<forall>x\<in>set (td_spans ?d). \<exists>a::int. date_parse e (sp_start_ts x) = Fin (of_int a) \<and> \<bar>a\<bar> \<le> 2 ^ 52"
    using rd size by (fastforce simp: sps)
  have inside: "\<forall>a o'. date_parse e (sp_start_ts (written_span sp)) = Fin a \<longrightarrow> trace_origin e (Some ?d) = Fin o'
      \<longrightarrow> a - o' \<le> of_int (hd_duration (build spans))"
    using offset_within [OF assms(1,4) o'(1)] rd [OF assms(4)] o'(2) by (auto simp flip: of_int_diff)
  have dur: "sp_duration_ms (written_span sp) = Fin (of_int (hp_duration_ms sp))"
    using assms(5) by (simp add: written_span_def num_of_int_eq)
  have "written_span sp \<in> set (td_spans ?d)" using assms(4) by (simp add: sps)
  from trace_bar_bounds [OF this w _ dur starts inside] assms(3) show ?thesis by (metis of_int_0_less_iff)
qed

end

lemma widen_fold:
  assumes "\<forall>sp\<in>set spans. dated sp" "0 < a" "b < 2 ^ 63" "foldl widen (a, b) spans = (start, fin)"
  shows "0 < start \<and> fin < 2 ^ 63 \<and> start \<le> a \<and> b \<le> fin
    \<and> (\<forall>sp\<in>set spans. start \<le> go_instant (hp_start sp) \<and> go_instant (hp_end sp) \<le> fin)"
  using assms
proof (induction spans arbitrary: a b)
  case (Cons sp spans)
  obtain s f where sp: "hp_start sp = Some s" "hp_end sp = Some f" "0 < s" "f < 2 ^ 63"
    using Cons.prems(1) by (auto simp: dated_def)
  have z: "a \<noteq> zero_time" using Cons.prems(2) by (simp add: zero_time_def)
  have w: "widen (a, b) sp = (min s a, max f b)" using z by (auto simp: widen_def sp go_instant_def)
  have "0 < min s a" "max f b < 2 ^ 63" using sp Cons.prems by simp_all
  from Cons.IH [OF _ this, of] Cons.prems(1,4) show ?case by (fastforce simp: w sp go_instant_def)
qed simp

interpretation otlp_trace: covering_trace "buildTraceDetail traceID source" for traceID source
proof
  fix spans sp
  show "hd_spans (buildTraceDetail traceID source spans) = spans"
    by (simp add: buildTraceDetail_def split: prod.split)
  show "hd_duration (buildTraceDetail traceID source spans)
      = elapsed_ms (hd_start (buildTraceDetail traceID source spans)) (hd_end (buildTraceDetail traceID source spans))"
    by (simp add: buildTraceDetail_def elapsed_ms_def split: prod.split)
  assume d: "\<forall>sp\<in>set spans. dated sp"
  have f: "\<exists>start fin. foldl widen (go_instant (hp_start (hd spans)), go_instant (hp_end (last spans))) spans = (start, fin)
      \<and> 0 < start \<and> fin < 2 ^ 63
      \<and> (\<forall>sp\<in>set spans. start \<le> go_instant (hp_start sp) \<and> go_instant (hp_end sp) \<le> fin)" if "spans \<noteq> []"
  proof -
    have "dated (hd spans)" "dated (last spans)" using d that by simp_all
    then have "0 < go_instant (hp_start (hd spans))" "go_instant (hp_end (last spans)) < 2 ^ 63"
      by (auto simp: dated_def go_instant_def)
    from widen_fold [OF d this] show ?thesis by (metis prod.exhaust)
  qed
  show "0 < hd_start (buildTraceDetail traceID source spans) \<and> hd_end (buildTraceDetail traceID source spans) < 2 ^ 63"
    if "spans \<noteq> []" using f [OF that] that by (auto simp: buildTraceDetail_def)
  show "hd_start (buildTraceDetail traceID source spans) \<le> go_instant (hp_start sp)
      \<and> go_instant (hp_end sp) \<le> hd_end (buildTraceDetail traceID source spans)" if "sp \<in> set spans"
    using f that by (cases "spans = []") (auto simp: buildTraceDetail_def)
qed

subsection \<open>Outside the contract\<close>

definition plain_span :: "string \<Rightarrow> int option \<Rightarrow> int option \<Rightarrow> hub_span" where
  "plain_span ident st en =
     \<lparr>hp_trace = ''t'', hp_span = ident, hp_parent = [], hp_name = ''work'', hp_service = ''api'', hp_container = ''api-1'',
      hp_start = st, hp_end = en, hp_duration_ms = span_duration st en, hp_status = ''ok'', hp_kind = ''internal'',
      hp_source = ''otlp'', hp_attributes = []\<rparr>"

lemma written_start: "sp_start_ts (written_span (plain_span ident (Some n) en)) = rfc3339_nano n"
  by (simp add: written_span_def plain_span_def go_instant_def)

lemma written_duration:
  "\<bar>span_duration st en\<bar> \<le> 2 ^ 53 \<Longrightarrow> sp_duration_ms (written_span (plain_span ident st en)) = Fin (of_int (span_duration st en))"
  by (simp add: written_span_def plain_span_def num_of_int_eq)

text \<open>Fractions of a millisecond: the panel rounds every start down, the hub the whole duration, so a span can start
  after the end of its trace; its bar has a negative width.\<close>

lemma fraction_puts_bar_outside:
  assumes "date_parse e (rfc3339_nano 900000) = Fin (of_int 0)" "date_parse e (rfc3339_nano 2100000) = Fin (of_int 2)"
  shows "let late = plain_span ''b'' (Some 2100000) (Some 2100000);
      d = written_detail (buildTraceDetail ''t'' ''otlp'' [plain_span ''a'' (Some 900000) (Some 2100000), late])
    in span_bar e (trace_origin e (Some d)) (total_width (Some d)) (written_span late)
      = \<lparr>bar_left = Fin 200, bar_width = Fin (- 100)\<rparr>"
proof -
  let ?late = "plain_span ''b'' (Some 2100000) (Some 2100000)"
  let ?d = "written_detail (buildTraceDetail ''t'' ''otlp'' [plain_span ''a'' (Some 900000) (Some 2100000), ?late])"
  have dur: "td_duration_ms ?d = Fin (of_int 1)"
    using num_of_int_eq [of 1]
    by (simp add: written_detail_def buildTraceDetail_def plain_span_def widen_def go_instant_def elapsed_ms_def zero_time_def)
  have o': "trace_origin e (Some ?d) = Fin (of_int 0)"
    using assms by (simp add: trace_origin_def written_detail_def otlp_trace.spans_kept written_start math_min_list_def math_min_def)
  have w: "total_width (Some ?d) = Fin (of_int 1)" by (simp add: total_width_def dur truthy_num_def)
  have l: "sp_duration_ms (written_span ?late) = Fin (of_int 0)"
    using written_duration [of "Some 2100000" "Some 2100000" "''b''"] by (simp add: span_duration_def)
  show ?thesis
    unfolding Let_def o' w
    using l assms(2) to_num_of_int [of 2] to_num_of_int [of 200] to_num_of_int [of "- 100"] to_num_of_int [of 0]
    by (simp add: span_bar_def written_start Let_def math_max_def math_min_def minus_Fin)
qed

text \<open>A span without a readable start lies two thousand years before the others, which leave the track.\<close>

lemma undated_span_pushes_bars_out:
  assumes "date_parse e (rfc3339_nano zero_time) = Fin (of_int (- 62135596800000))"
    "date_parse e (rfc3339_nano 1700000000000000000) = Fin (of_int 1700000000000)"
  shows "let other = plain_span ''b'' (Some 1700000000000000000) (Some 1700000000010000000);
      d = written_detail (buildTraceDetail ''t'' ''otlp'' [plain_span ''a'' None None, other])
    in td_duration_ms d = Fin 10
      \<and> span_bar e (trace_origin e (Some d)) (total_width (Some d)) (written_span other)
        = \<lparr>bar_left = Fin 638355968000000, bar_width = Fin (- 638355967999900)\<rparr>"
proof -
  let ?other = "plain_span ''b'' (Some 1700000000000000000) (Some 1700000000010000000)"
  let ?d = "written_detail (buildTraceDetail ''t'' ''otlp'' [plain_span ''a'' None None, ?other])"
  have dur: "td_duration_ms ?d = Fin (of_int 10)"
    using num_of_int_eq [of 10]
    by (simp add: written_detail_def buildTraceDetail_def plain_span_def widen_def go_instant_def elapsed_ms_def zero_time_def)
  have z: "sp_start_ts (written_span (plain_span ''a'' None None)) = rfc3339_nano zero_time"
    by (simp add: written_span_def plain_span_def go_instant_def)
  have o': "trace_origin e (Some ?d) = Fin (of_int (- 62135596800000))"
    using assms by (simp add: trace_origin_def written_detail_def otlp_trace.spans_kept written_start z math_min_list_def math_min_def)
  have w: "total_width (Some ?d) = Fin (of_int 10)" by (simp add: total_width_def dur truthy_num_def)
  have l: "sp_duration_ms (written_span ?other) = Fin (of_int 10)"
    using written_duration [of "Some 1700000000000000000" "Some 1700000000010000000" "''b''"] by (simp add: span_duration_def)
  show ?thesis
    unfolding Let_def o' w dur
    using l assms(2) to_num_of_int [of 63835596800000] to_num_of_int [of 6383559680000] to_num_of_int [of 638355968000000]
      to_num_of_int [of "- 638355967999900"] to_num_of_int [of 1] to_num_of_int [of 100]
    by (simp add: span_bar_def written_start Let_def math_max_def math_min_def minus_Fin)
qed

text \<open>A trace built from log lines ends with the span that starts last, not with the one that ends last: it is no
  instance of the contract.\<close>

lemma log_trace_cut_short:
  "let long = plain_span ''a'' (Some 1000000) (Some 1001000000); d = log_detail ''t'' [long, plain_span ''b'' (Some 501000000) (Some 501000000)]
   in hd_duration d = 500 \<and> hp_duration_ms long = 1000 \<and> long \<in> set (hd_spans d) \<and> hd_end d < go_instant (hp_end long)"
  by (simp add: log_detail_def plain_span_def go_instant_def elapsed_ms_def span_duration_def)

subsection \<open>Properties\<close>

lemma fetch_from_hub:
  assumes "handleGetTrace g now stored from_logs tid [(''since'', coalesce since ''24h'')] = ok_json d"
  shows "fetchTrace (hub_fetch (base @ ''/api/v1/traces/'' @ encodeURIComponent tid @ ''?'') (handleGetTrace g now stored from_logs tid)) base tid since = Inr d"
proof -
  let ?p = "base @ ''/api/v1/traces/'' @ encodeURIComponent tid @ ''?''"
  have u: "base @ ''/api/v1/traces/'' @ encodeURIComponent tid @ ''?since='' @ x = ?p @ ''since='' @ x" for x by simp
  show ?thesis
    unfolding fetchTrace_def request_def u hub_fetch_query [OF since_query] assms
    by (simp add: ok_json_def res_ok_def)
qed

text \<open>C34. The waterfall the panel draws of a stored trace: whatever spans the hub has of it, as long as each of them has a start and an end that
  could be read, ends no earlier than it starts, starts on a whole millisecond and its start is read back by the panel, and the trace
  takes at least a millisecond, the panel's request is answered with exactly these spans, and the bar of each lies
  inside its track - the hub keeps the contract that the panel's arithmetic needs.\<close>

theorem stored_trace_drawn_inside:
  assumes "go_trim tid \<noteq> []" "stored (go_trim tid) = Some spans" "spans \<noteq> []"
    and "\<forall>sp\<in>set spans. dated sp \<and> whole_start sp \<and> \<bar>hp_duration_ms sp\<bar> \<le> 2 ^ 53
      \<and> date_parse e (rfc3339_nano (go_instant (hp_start sp))) = Fin (of_int (go_instant (hp_start sp) div 1000000))"
    and "0 < hd_duration (buildTraceDetail (go_trim tid) ''otlp'' spans)"
  shows "\<exists>d. fetchTrace (hub_fetch (base @ ''/api/v1/traces/'' @ encodeURIComponent tid @ ''?'')
        (handleGetTrace g now stored from_logs tid)) base tid since = Inr d
    \<and> td_spans d = map written_span spans
    \<and> (\<forall>sp\<in>set (td_spans d). \<exists>l b. span_bar e (trace_origin e (Some d)) (total_width (Some d)) sp
          = \<lparr>bar_left = Fin l, bar_width = Fin b\<rparr>
        \<and> 0 \<le> l \<and> l \<le> 100 \<and> 0 \<le> b \<and> b \<le> 100 \<and> Fin b \<le> Fin 100 - Fin l)"
proof -
  let ?d = "written_detail (buildTraceDetail (go_trim tid) ''otlp'' spans)"
  have s: "td_spans ?d = map written_span spans" by (simp add: written_detail_def otlp_trace.spans_kept)
  have r: "otlp_trace.reads_starts e spans" using assms(4) by (simp add: otlp_trace.reads_starts_def)
  have h: "handleGetTrace g now stored from_logs tid ps = ok_json ?d" for ps
    using assms(1-3) by (simp add: handleGetTrace_def)
  have "\<forall>sp\<in>set spans. dated sp \<and> whole_start sp" using assms(4) by blast
  note b = otlp_trace.bars_inside [OF this r assms(5)]
  show ?thesis
    by (intro exI [of _ ?d] conjI ballI fetch_from_hub h s) (use b assms(4) in \<open>auto simp: s\<close>)
qed

definition sample_spans :: "hub_span list" where
  "sample_spans = [plain_span ''a'' (Some 1791295200000000000) (Some 1791295200010000000)]"

lemma stored_trace_drawn_inside_witness:
  "\<exists>d. fetchTrace (hub_fetch (''http://hub'' @ ''/api/v1/traces/'' @ encodeURIComponent ''t'' @ ''?'')
        (handleGetTrace sample_go 0 (\<lambda>_. Some sample_spans) (\<lambda>_ _. None) ''t'')) ''http://hub'' ''t'' None = Inr d
    \<and> td_spans d = map written_span sample_spans"
proof -
  let ?e = "sample_env\<lparr>date_parse := (\<lambda>_. Fin (of_int 1791295200000))\<rparr>"
  have t: "go_trim ''t'' = ''t''" by (rule go_trim_id) (simp_all add: go_space_def is_space_def)
  have d: "\<forall>sp\<in>set sample_spans. dated sp \<and> whole_start sp \<and> \<bar>hp_duration_ms sp\<bar> \<le> 2 ^ 53
      \<and> date_parse ?e (rfc3339_nano (go_instant (hp_start sp))) = Fin (of_int (go_instant (hp_start sp) div 1000000))"
    by (simp add: sample_spans_def plain_span_def dated_def whole_start_def go_instant_def span_duration_def)
  have w: "0 < hd_duration (buildTraceDetail (go_trim ''t'') ''otlp'' sample_spans)"
    by (simp add: sample_spans_def buildTraceDetail_def plain_span_def widen_def go_instant_def elapsed_ms_def zero_time_def)
  have "go_trim ''t'' \<noteq> []" "sample_spans \<noteq> []" by (simp_all add: t sample_spans_def)
  with stored_trace_drawn_inside [OF _ refl _ d w, of "''http://hub''" "sample_go" 0 "\<lambda>_ _. None" None] show ?thesis by blast
qed

end
