(* ===== verification/Spec2Isabelle.thy ===== *)
theory Spec2Isabelle
  imports Links Chart_Ui Primitives Dev_Proxy Trace_Contract
begin

text \<open>
  Argus is an observability system: agents send what containers do to a hub, and a web panel shows it.
  This development is about the panel, the TypeScript program in \<open>web/src\<close>, about the client by which a Node
  application sends its spans (\<open>transports/node/index.js\<close>), and about what both meet in the hub: the handlers
  that answer the panel's lists and the one that receives the spans.

  \<^bold>\<open>The program.\<close> The panel is seven pages in one frame. The address of the browser is its main state:
  the route chooses the page, and every filter, tab, page number and selection is a parameter of the
  query (\<open>hooks/use-query-state.ts\<close>). A page asks the hub through the client \<open>lib/api.ts\<close>, either
  again and again (\<open>hooks/use-polling.ts\<close>) or once for each question with a guard against late
  answers, keeps the last answer in its state, derives what it shows from answer and address, and
  changes the address when the user acts. Pure modules under \<open>lib\<close> do the deriving. Two things live
  outside the address: the language and the saved views, in \<open>localStorage\<close>. The transport completes a span of the
  application in place, names it in the headers of the next hop, and posts it; the hub checks the token,
  decodes the spans and stores them, cuts lists by window and page, and answers the panel.

  \<^bold>\<open>The theories\<close>, in the order they build on each other.

  \<^item> The language: \<open>Prelude\<close> (operators on missing values, lists), \<open>Js_Number\<close> (binary64 with rounding),
    \<open>Js_Array\<close> (sorting by a comparator, maps in insertion order), \<open>Js_String\<close>, \<open>Js_Convert\<close> (numbers
    and text), \<open>Js_Date\<close>, \<open>Url\<close> (the query format), \<open>Json\<close> and \<open>Json_Parse\<close>, \<open>Ui\<close> (what components render).
  \<^item> The modules of \<open>lib\<close>: \<open>Query\<close> (\<open>use-query-state.ts\<close>, \<open>redirect.tsx\<close>, \<open>App.tsx\<close>), \<open>Page\<close>
    (\<open>page.ts\<close>), \<open>Api\<close> (\<open>api.ts\<close>), \<open>I18n\<close> (\<open>i18n.ts\<close>, \<open>language-switch.tsx\<close>), \<open>Format\<close> (\<open>format.ts\<close>),
    \<open>Labels\<close> (\<open>meter.ts\<close>, \<open>severity.ts\<close>, \<open>slo.ts\<close>, \<open>i18n-catalog.ts\<close>, \<open>chart-colors.ts\<close>,
    \<open>navigation.ts\<close>), \<open>Container_State\<close>, \<open>Stats\<close>, \<open>Stack_Series\<close> (\<open>series.ts\<close>), \<open>Observability\<close> and
    \<open>Saved_Views\<close> (\<open>observability.ts\<close>), \<open>Time_Range\<close> (\<open>time-range.ts\<close> and its picker), \<open>Topology\<close>
    (\<open>topology-view.ts\<close>).
  \<^item> Shared parts: \<open>Widgets\<close> (pager, headers, cards, meters, the group filter), \<open>Charts\<close> and
    \<open>Chart_Ui\<close> (\<open>components/ui/chart.tsx\<close>), and the two ways to load, \<open>Polling\<close> and \<open>Run_Guard\<close>, as step relations with their contracts;
    \<open>Filter_Page\<close> joins \<open>Polling\<close> to an address with filters and a page.
  \<^item> Pages and views: \<open>Topology_Page\<close>, \<open>Logs\<close>, \<open>Traces\<close>, \<open>Groups_Panel\<close>, \<open>Containers\<close>, \<open>Overview\<close>,
    \<open>Problems\<close>, \<open>Container_Metrics\<close>, \<open>Metric_Compare\<close>, \<open>Metrics_Page\<close>, and the frame \<open>Shell\<close>. Each has the
    state of its component as a record, the request it sends, one function per answer, effect and
    handler, and the tree it renders.
  \<^item> \<open>Primitives\<close>: the wrappers of \<open>components/ui\<close>, each as the element it renders from its properties, with
    slots, class names and variant tables (\<open>lib/utils.ts\<close>), and the parts of the sidebar.
  \<^item> The transport and the hub: \<open>Transport\<close> (\<open>transports/node/index.js\<close>, spans in a store from addresses to records),
    \<open>Go_Text\<close> (strings of Go), \<open>Otlp_Ingest\<close> (\<open>internal/otel/ingest.go\<close>, \<open>internal/hub/otlp.go\<close>, the token and the slots of
    \<open>server.go\<close>), \<open>Dev_Proxy\<close> (\<open>web/vite.config.ts\<close>), and \<open>Hub_Contract\<close> (\<open>window.go\<close>, \<open>page.go\<close>, the list handlers of
    \<open>server.go\<close> and \<open>traces.go\<close>, the handler of \<open>topology.go\<close> and \<open>GetTopology\<close> of \<open>store/postgres/patterns.go\<close>), and \<open>Trace_Contract\<close> (the detail of a trace, \<open>traces.go\<close> and the
    end of \<open>internal/traces/from_logs.go\<close>).
  \<^item> \<open>Links\<close> composes pages: the links one page renders, followed to the page they open. \<open>Hub_Contract\<close> composes the
    panel's client with the hub's handlers, \<open>Otlp_Ingest\<close> the transport with the hub's reception, \<open>Trace_Contract\<close> the
    hub's trace with the panel's waterfall.

  \<^bold>\<open>Interfaces.\<close> A comparator that sorts (\<open>js_comparator\<close>, with \<open>numeric_key\<close> and \<open>int_key\<close>, interpreted on
  every comparator of the panel), a map in insertion order (\<open>ordered_store\<close>), a polled component
  (\<open>polled_load\<close>, interpreted on every page that polls), and a guarded one (\<open>run_guard\<close> and
  \<open>guarded_page\<close>, interpreted on the topology, the trace detail, the metrics of a container and the
  comparison) are locales; so are a list whose filters and page are in the address (\<open>filter_reset\<close>, interpreted on
  log lines, patterns, traces and events) a list the hub pages (\<open>remote_list\<close>, interpreted on log lines, events and
  traces) and a trace that covers its spans (\<open>covering_trace\<close>, interpreted on \<open>buildTraceDetail\<close>). The properties of the pages follow from their lemmas.

  \<^bold>\<open>What is shown.\<close> Late answers: a guarded page that neither loads nor failed shows the answer to its
  present question in every interleaving of loads and answers, and a load under way can end; a polled
  page does so when the question changes only while none is out, in whatever order the answers come, or when they come in
  order, and a counterexample state shows what happens otherwise.
  Addresses: patches, redirects, page numbers, tabs and links keep and carry what they should, through
  the real encodings. Data: the pages of a list cover its rows; joins, groupings, rankings and means
  over the answers are characterised by their results, not by their steps; percentiles lie between
  their ranks and do not depend on the order of the samples; bars and lines stay inside their boxes.
  Storage: saving and deleting views on JSON text refines a list of at most twenty. Effects that write
  the address settle: what they wrote stops them; a list whose filters change goes back to its first page
  within two renders (\<open>page_commit\<close> is partial, that it returns is shown). Across the network: paging by the hub refines slicing in
  the panel as far as the hub pages, with what happens behind the last page; a window the picker emits is
  the window the hub reads; a span that is posted is the span that is stored, up to ids that the hub renames
  together with the links between them; sending again sends the same; the graph of services is the busiest edges since the start of a window; a stored trace is drawn inside its track, and lemmas show where that ends; and a token, a full hub and a failing store end an export as the error they are.

  \<^bold>\<open>Conventions.\<close> Counts and sizes the hub sends as integers are \<open>int\<close>; measured values and what is
  computed from them are \<open>jsnum\<close>, binary64 with both infinities and NaN, the two zeros identified.
  Strings are lists of the code units 0 to 255. Missing and \<open>null\<close> are \<open>None\<close>; a rejected promise and a
  thrown error are the left side of a sum or \<open>None\<close>. Parameters stand for code outside the repository:
  \<open>fetch\<close>, the translation function of i18next, \<open>Intl\<close>, \<open>Date.parse\<close> and the time zone,
  \<open>localeCompare\<close>, \<open>crypto.randomUUID\<close> and the clock; what is relied on is a hypothesis where a
  property needs it (\<open>collation\<close>, \<open>reads_iso\<close>). Hypotheses on sizes are those of the platform: fewer than
  \<open>2^32\<close> rows, instants below \<open>2^52\<close> milliseconds, values that are finite doubles. A table looked up by
  a key from the hub is a partial function, so keys that name members of \<open>Object.prototype\<close> are outside
  (in the transport they are modelled), and a parsed object keeps its members in the order of the text. The JSON parser has fuel, twice the
  length of the text and two, which decides nothing (\<open>json_parse_fuel\<close>); \<open>Js_Date\<close> and the other
  recursive functions terminate by themselves. Views leave out class names, icons and wrappers.

  Go strings are the same lists of units, counted in UTF-8 where Go counts bytes; instants of the hub are
  nanoseconds, in 64 bits where Go adds them up. The database of the hub is a parameter: the queries of a handler answer
  a count, rows, or fail, and where a property needs that two of them see the same rows in one order it says so (\<open>reads_lines\<close>). Of JSON decoding into structs, a body that names a field twice and a number spelled with a fraction
  are outside the model.

  \<^bold>\<open>Not modelled.\<close> What the elements of base-ui, recharts and the class names mean in a browser; \<open>main.tsx\<close>, which
  mounts React; the catalogues of translations, which are data; of the build configuration all but the proxy. What
  the comparison renders from a stored value that is no list of views is left open (\<open>shown_views\<close> is
  \<open>None\<close>). Of the hub, which is Go, only what is named above; its rules, its patterns, its other handlers, the rest of its store,
  the agent, and the twins of the transport in Java and Python are no part of this development.
\<close>

end
